(* ===== verification/Go_Prelude.thy ===== *)
theory Go_Prelude
  imports Main "HOL-Library.Word" "HOL-Library.Sublist" "HOL-Library.Multiset"
begin

text \<open>
  The prelude of the QUICshot verification library: what every component shares of the Go
  language. Go's \<open>int\<close>, \<open>int64\<close> and \<open>time.Duration\<close> are \<open>int\<close> with the
  two's complement wrap-around written out (\<open>wrap64\<close>) at the operations that can leave the
  range; \<open>uint64\<close> and \<open>uint32\<close> are machine words. A \<open>time.Time\<close> is an
  \<open>int option\<close>, nanoseconds on the monotonic clock, with \<open>None\<close> for the zero time.
  A function that can panic returns a \<open>panicking\<close> value. Two interfaces are stated here as
  locales because several components share them: transition systems with an invariant, and
  atomic round-robin counters.
\<close>

named_theorems go_defs \<open>definitions of the model unfolded by case analysis\<close>
named_theorems inv_intros \<open>invariant preservation rules\<close>

section \<open>Integers, durations and times\<close>

type_synonym duration = int
type_synonym gotime = "int option"
type_synonym u64 = "64 word"
type_synonym u32 = "32 word"

definition wrap64 :: "int \<Rightarrow> int" where
  "wrap64 x = (x + 2 ^ 63) mod 2 ^ 64 - 2 ^ 63"

definition min_int64 :: int where
  "min_int64 = - (2 ^ 63)"

definition max_int64 :: int where
  "max_int64 = 2 ^ 63 - 1"

definition in_int64 :: "int \<Rightarrow> bool" where
  "in_int64 x \<longleftrightarrow> min_int64 \<le> x \<and> x \<le> max_int64"

lemmas int64_defs = wrap64_def min_int64_def max_int64_def in_int64_def

lemma wrap64_in_range: "in_int64 (wrap64 x)"
  by (simp add: int64_defs)

lemma wrap64_id [simp]: "in_int64 x \<Longrightarrow> wrap64 x = x"
  by (simp add: int64_defs)

lemma wrap64_cong: "wrap64 x mod 2 ^ 64 = x mod 2 ^ 64"
  by (simp add: wrap64_def mod_simps)

abbreviation millisecond :: duration where "millisecond \<equiv> 1000000"
abbreviation second :: duration where "second \<equiv> 1000000000"

definition milliseconds :: "duration \<Rightarrow> int" where
  \<comment> \<open>\<open>Duration.Milliseconds\<close>: integer division truncates towards zero\<close>
  "milliseconds d = sgn d * (\<bar>d\<bar> div millisecond)"

definition saturate64 :: "int \<Rightarrow> int" where
  "saturate64 x = max min_int64 (min max_int64 x)"

definition time_sub :: "int \<Rightarrow> int \<Rightarrow> duration" where
  \<comment> \<open>\<open>Time.Sub\<close> saturates instead of wrapping\<close>
  "time_sub t u = saturate64 (t - u)"

lemma saturate64_less_iff:
  "min_int64 < d \<Longrightarrow> d \<le> max_int64 \<Longrightarrow> saturate64 x < d \<longleftrightarrow> x < d"
  by (auto simp: saturate64_def)

lemma unat_minus_pos: "0 < x \<Longrightarrow> unat (- x) = 2 ^ 64 - unat x" for x :: u64
proof -
  assume "0 < x"
  then have "x \<noteq> 0" by (simp add: word_gt_0)
  then have "unat (0 - x) = 2 ^ 64 - unat x"
    unfolding unat_sub_if_size by (simp add: word_le_nat_alt unat_eq_zero word_size)
  then show ?thesis by simp
qed

section \<open>Panics\<close>

datatype 'a panicking = Done (done_val: 'a) | Panic string

section \<open>Lists and maps\<close>

definition last_n :: "nat \<Rightarrow> 'a list \<Rightarrow> 'a list" where
  "last_n n xs = drop (length xs - n) xs"

lemma length_last_n [simp]: "length (last_n n xs) = min n (length xs)"
  by (simp add: last_n_def)

lemma set_last_n: "set (last_n n xs) \<subseteq> set xs"
  by (simp add: last_n_def set_drop_subset)

lemma last_n_all [simp]: "length xs \<le> n \<Longrightarrow> last_n n xs = xs"
  by (simp add: last_n_def)

lemma last_n_snoc: "last_n n (last_n n xs @ [x]) = last_n n (xs @ [x])"
proof (cases "length xs \<le> n")
  case True
  then show ?thesis by simp
next
  case False
  then show ?thesis
    by (cases n) (simp_all add: last_n_def Suc_diff_Suc)
qed

definition incr :: "('k \<Rightarrow> nat) \<Rightarrow> 'k \<Rightarrow> ('k \<Rightarrow> nat)" where
  \<comment> \<open>\<open>m[k]++\<close> on a Go map of counters: a missing key reads as 0\<close>
  "incr m k = m(k := Suc (m k))"

lemma incr_same [simp]: "incr m k k = Suc (m k)"
  and incr_other [simp]: "k \<noteq> j \<Longrightarrow> incr m k j = m j"
  by (simp_all add: incr_def)

section \<open>Transition systems with an invariant\<close>

locale transition_system =
  fixes start :: "'s \<Rightarrow> bool"
    and step :: "'s \<Rightarrow> 's \<Rightarrow> bool"
    and inv :: "'s \<Rightarrow> bool"
  assumes inv_start: "start s \<Longrightarrow> inv s"
    and inv_step: "inv s \<Longrightarrow> step s t \<Longrightarrow> inv t"
begin

lemma inv_run: "step\<^sup>*\<^sup>* s t \<Longrightarrow> inv s \<Longrightarrow> inv t"
  by (induction rule: rtranclp_induct) (auto intro: inv_step)

lemma inv_reachable: "start s \<Longrightarrow> step\<^sup>*\<^sup>* s t \<Longrightarrow> inv t"
  by (auto intro: inv_run inv_start)

end

text \<open>
  A system whose every step, as long as the invariant holds, lowers a rank: no run is longer than the
  rank it started with.
\<close>

locale ranked_system = transition_system +
  fixes rank :: "'a \<Rightarrow> nat"
  assumes rank_step: "inv s \<Longrightarrow> step s t \<Longrightarrow> rank t < rank s"
begin

lemma run_length: "(step ^^ n) s t \<Longrightarrow> inv s \<Longrightarrow> n + rank t \<le> rank s"
proof (induction n arbitrary: t)
  case (Suc n)
  then obtain u where u: "(step ^^ n) s u" "step u t" by auto
  have "step\<^sup>*\<^sup>* s u" using u(1) by (rule relpowp_imp_rtranclp)
  then have "inv u" using Suc.prems(2) by (rule inv_run)
  then show ?case using Suc.IH [OF u(1) Suc.prems(2)] rank_step [OF _ u(2)] by simp
qed simp

end

section \<open>Atomic round-robin counters\<close>

text \<open>
  The edge's connector pick and the harness's URL pick both read an atomic \<open>uint64\<close> counter,
  add one and reduce the old value modulo the number of choices. What they share is stated once:
  as long as the counter does not wrap, \<open>n\<close> consecutive picks visit every choice exactly once.
\<close>

primrec picks :: "(nat \<Rightarrow> u64 \<Rightarrow> nat \<times> u64) \<Rightarrow> nat \<Rightarrow> nat \<Rightarrow> u64 \<Rightarrow> nat list" where
  \<comment> \<open>the indices of \<open>k\<close> consecutive picks among \<open>n\<close> choices\<close>
  "picks pick 0 n c = []"
| "picks pick (Suc k) n c = fst (pick n c) # picks pick k n (snd (pick n c))"

lemma mod_window_inj: "inj_on (\<lambda>i. (a + i) mod n) {0..<n}" for a n :: nat
proof (rule inj_onI)
  fix i j assume ij: "i \<in> {0..<n}" "j \<in> {0..<n}" and "(a + i) mod n = (a + j) mod n"
  then have "int (a + i) mod int n = int (a + j) mod int n"
    by (metis of_nat_mod)
  then have "int n dvd int i - int j"
    by (simp add: mod_eq_dvd_iff)
  moreover have "\<bar>int i - int j\<bar> < int n"
    using ij by auto
  ultimately show "i = j"
    using zdvd_imp_le by (metis abs_dvd_iff dvd_abs_iff eq_iff_diff_eq_0 int_int_eq linorder_not_le
        zero_less_abs_iff)
qed

locale round_robin =
  fixes pick :: "nat \<Rightarrow> u64 \<Rightarrow> nat \<times> u64"
  assumes pick_index: "0 < n \<Longrightarrow> n < 2 ^ 64 \<Longrightarrow> fst (pick n c) = unat c mod n"
    and pick_next: "0 < n \<Longrightarrow> n < 2 ^ 64 \<Longrightarrow> snd (pick n c) = c + 1"
begin

lemma picks_eq:
  assumes "0 < n" "n < 2 ^ 64" "unat c + k < 2 ^ 64"
  shows "picks pick k n c = map (\<lambda>i. (unat c + i) mod n) [0..<k]"
  using assms
proof (induction k arbitrary: c)
  case 0
  then show ?case by simp
next
  case (Suc k)
  have next_c: "unat (c + 1) = Suc (unat c)"
    using Suc.prems by (simp add: unat_word_ariths)
  have "picks pick k n (c + 1) = map (\<lambda>i. (unat c + i) mod n) (map Suc [0..<k])"
    using Suc.prems by (simp add: Suc.IH next_c)
  then show ?case
    using Suc.prems by (simp add: pick_index pick_next map_Suc_upt upt_conv_Cons del: upt_Suc)
qed

lemma picks_cover:
  assumes "0 < n" "n < 2 ^ 64" "unat c + n < 2 ^ 64"
  shows "distinct (picks pick n n c) \<and> set (picks pick n n c) = {0..<n}"
proof
  show dist: "distinct (picks pick n n c)"
    using mod_window_inj by (simp add: picks_eq [OF assms] distinct_map)
  have "set (picks pick n n c) \<subseteq> {0..<n}"
    using assms by (auto simp: picks_eq [OF assms])
  moreover have "card (set (picks pick n n c)) = n"
    using distinct_card [OF dist] by (simp add: picks_eq [OF assms])
  ultimately show "set (picks pick n n c) = {0..<n}"
    by (simp add: card_subset_eq)
qed

lemma picks_mset:
  assumes "0 < n" "n < 2 ^ 64" "unat c + n < 2 ^ 64"
  shows "mset (map f (picks pick n n c)) = mset (map f [0..<n])"
proof -
  have "mset (picks pick n n c) = mset [0..<n]"
    using picks_cover [OF assms] set_eq_iff_mset_eq_distinct [of "picks pick n n c" "[0..<n]"] by simp
  then show ?thesis by (simp only: mset_map)
qed

end

section \<open>Reports of a running counter\<close>

text \<open>
  The edge's counter log, the panel's UDP poller and the harness's progress lines all report by how much
  a counter has moved since they last looked. What they share is stated once: the reports add up to the
  whole movement, whatever the readings in between, also where the subtraction wraps.
\<close>

primrec deltas :: "('c \<Rightarrow> 'c \<Rightarrow> 'c) \<Rightarrow> 'c \<Rightarrow> 'c list \<Rightarrow> 'c list" where
  \<comment> \<open>each reading minus the one before\<close>
  "deltas sub prev [] = []"
| "deltas sub prev (cur # rest) = sub cur prev # deltas sub cur rest"

lemma length_deltas [simp]: "length (deltas sub prev cs) = length cs"
  by (induction cs arbitrary: prev) simp_all

locale delta_reports =
  fixes sub :: "'c \<Rightarrow> 'c \<Rightarrow> 'c"
    and add :: "'c \<Rightarrow> 'c \<Rightarrow> 'c"
  assumes chain: "add (sub b a) (sub c b) = sub c a"
begin

lemma telescope_from: "foldl add (sub c a) (deltas sub c cs) = sub (last (c # cs)) a"
  by (induction cs arbitrary: c) (simp_all add: chain)

lemma telescope: "foldl add (sub c c) (deltas sub c cs) = sub (last (c # cs)) c"
  by (rule telescope_from)

end

section \<open>Streams of messages\<close>

text \<open>
  A writer that puts encoded messages one after the other on a byte stream and a reader that takes them
  off again until it fails. What the reader gets is stated for every stream of bytes, cut off anywhere.
\<close>

inductive received :: "(string \<Rightarrow> ('e + 'm) \<times> string) \<Rightarrow> string \<Rightarrow> 'm list \<Rightarrow> bool" for dec where
  failed: "dec s = (Inl e, rest) \<Longrightarrow> received dec s []"
| got: "dec s = (Inr m, rest) \<Longrightarrow> received dec rest ms \<Longrightarrow> received dec s (m # ms)"

locale line_protocol =
  fixes enc :: "'m \<Rightarrow> string"
    and dec :: "string \<Rightarrow> ('e + 'm) \<times> string"
    and ok :: "'m \<Rightarrow> bool"
  assumes dec_enc: "ok m \<Longrightarrow> dec (enc m @ rest) = (Inr m, rest)"
    and dec_cut: "ok m \<Longrightarrow> strict_prefix p (enc m) \<Longrightarrow> \<exists>e rest. dec p = (Inl e, rest)"
    and dec_end: "\<exists>e rest. dec [] = (Inl e, rest)"
    and dec_shorter: "dec s = (Inr m, rest) \<Longrightarrow> length rest < length s"
begin

lemma received_unique: "received dec s ms \<Longrightarrow> received dec s ms' \<Longrightarrow> ms = ms'"
proof (induction arbitrary: ms' rule: received.induct)
  case (failed s e rest)
  from failed(2) failed(1) show ?case by cases simp_all
next
  case (got s m rest ms)
  from got.prems got.hyps(1) got.IH show ?case by cases simp_all
qed

lemma received_total: "\<exists>ms. received dec s ms"
proof (induction s rule: measure_induct_rule [of length])
  case (less s)
  show ?case
  proof (cases "dec s")
    case (Pair r rest)
    then show ?thesis using less dec_shorter by (cases r) (blast intro: received.intros)+
  qed
qed

lemma received_cut:
  "list_all ok ms \<Longrightarrow> prefix s (concat (map enc ms)) \<Longrightarrow> \<exists>k\<le>length ms. received dec s (take k ms)"
proof (induction ms arbitrary: s)
  case Nil
  then show ?case using dec_end by (auto intro: received.failed)
next
  case (Cons m ms)
  consider "strict_prefix s (enc m)" | s' where "s = enc m @ s'" "prefix s' (concat (map enc ms))"
    using Cons.prems(2) by (cases "s = enc m") (auto simp: prefix_append strict_prefix_def)
  then show ?case
  proof cases
    case 1
    then have "received dec s (take 0 (m # ms))"
      using dec_cut Cons.prems(1) by (auto intro: received.failed)
    then show ?thesis by (intro exI [of _ 0]) simp
  next
    case 2
    then obtain k where k: "k \<le> length ms" "received dec s' (take k ms)" using Cons by auto
    then have "received dec s (take (Suc k) (m # ms))"
      using 2 dec_enc Cons.prems(1) by (auto intro: received.got)
    then show ?thesis using k(1) by (intro exI [of _ "Suc k"]) simp
  qed
qed

lemma received_all: "list_all ok ms \<Longrightarrow> received dec (concat (map enc ms)) ms"
proof (induction ms)
  case Nil
  then show ?case using dec_end by (auto intro: received.failed)
qed (auto intro: received.got dec_enc)

end

end
