(* ===== verification/Go_Strings.thy ===== *)
theory Go_Strings
  imports Go_Prelude
begin

text \<open>
  What the program uses of Go's \<open>strings\<close>, \<open>strconv\<close>, \<open>fmt\<close> and \<open>regexp\<close>. A Go string is its
  UTF-8 bytes, so it is a \<open>char list\<close>. White space is what \<open>unicode.IsSpace\<close> accepts,
  multi-byte encodings included. Number parsing keeps Go's pair of a value and an error, because
  several callers use the value and drop the error. The lemmas are the round trips of decimal
  printing and parsing and the facts on separators that the parsers of the components rest on.
\<close>

section \<open>Substrings, separators and white space\<close>

definition contains :: "string \<Rightarrow> string \<Rightarrow> bool" where
  "contains s sub \<longleftrightarrow> sublist sub s"

fun split_on :: "'a \<Rightarrow> 'a list \<Rightarrow> 'a list list" where
  "split_on c [] = [[]]"
| "split_on c (x # xs) =
     (if x = c then [] # split_on c xs
      else (case split_on c xs of [] \<Rightarrow> [[x]] | y # ys \<Rightarrow> (x # y) # ys))"

fun join_with :: "'a list \<Rightarrow> 'a list list \<Rightarrow> 'a list" where
  "join_with sep [] = []"
| "join_with sep [x] = x"
| "join_with sep (x # y # ys) = x @ sep @ join_with sep (y # ys)"

definition cut_on :: "'a \<Rightarrow> 'a list \<Rightarrow> ('a list \<times> 'a list) option" where
  "cut_on c s = (if c \<in> set s
     then Some (takeWhile (\<lambda>x. x \<noteq> c) s, tl (dropWhile (\<lambda>x. x \<noteq> c) s)) else None)"

definition wide_spaces :: "string list" where
  \<comment> \<open>the UTF-8 encodings of the multi-byte runes that \<open>unicode.IsSpace\<close> accepts\<close>
  "wide_spaces =
     [[CHR 0xC2, CHR 0x85], [CHR 0xC2, CHR 0xA0], [CHR 0xE1, CHR 0x9A, CHR 0x80]]
     @ map (\<lambda>b. [CHR 0xE2, CHR 0x80, char_of b]) ([0x80..<0x8B] @ [0xA8, 0xA9, 0xAF :: nat])
     @ [[CHR 0xE2, CHR 0x81, CHR 0x9F], [CHR 0xE3, CHR 0x80, CHR 0x80]]"

definition byte_of :: "char \<Rightarrow> nat" where
  "byte_of c = of_char c"

definition ascii_space :: "char \<Rightarrow> bool" where
  "ascii_space c \<longleftrightarrow> (let b = byte_of c in 9 \<le> b \<and> b \<le> 13 \<or> b = 32)"

definition space_len :: "string \<Rightarrow> nat" where
  \<comment> \<open>the number of bytes of a white-space rune at the front, 0 if there is none\<close>
  "space_len s = (case s of [] \<Rightarrow> 0
     | c # _ \<Rightarrow> if ascii_space c then 1 else if byte_of c < 128 then 0
         else (case find (\<lambda>w. prefix w s) wide_spaces of None \<Rightarrow> 0 | Some w \<Rightarrow> length w))"

definition space_len_end :: "string \<Rightarrow> nat" where
  "space_len_end s = (if s = [] then 0 else
     if ascii_space (last s) then 1 else if byte_of (last s) < 128 then 0
     else (case find (\<lambda>w. suffix w s) wide_spaces of None \<Rightarrow> 0 | Some w \<Rightarrow> length w))"

lemma space_len_Nil [simp]: "space_len [] = 0" "space_len_end [] = 0"
  by (simp_all add: space_len_def space_len_end_def)

function trim_left :: "string \<Rightarrow> string" where
  "trim_left s = (if space_len s = 0 then s else trim_left (drop (space_len s) s))"
  by pat_completeness auto
termination
proof (relation "measure length")
  fix s assume "space_len s \<noteq> 0"
  moreover from this have "s \<noteq> []" by auto
  ultimately show "(drop (space_len s) s, s) \<in> measure length" by simp
qed simp

function trim_right :: "string \<Rightarrow> string" where
  "trim_right s =
     (if space_len_end s = 0 then s else trim_right (take (length s - space_len_end s) s))"
  by pat_completeness auto
termination
proof (relation "measure length")
  fix s assume "space_len_end s \<noteq> 0"
  moreover from this have "s \<noteq> []" by auto
  ultimately show "(take (length s - space_len_end s) s, s) \<in> measure length" by simp
qed simp

declare trim_left.simps [simp del] trim_right.simps [simp del]

definition trim_space :: "string \<Rightarrow> string" where
  "trim_space s = trim_right (trim_left s)"

function str_fields_from :: "string \<Rightarrow> string \<Rightarrow> string list" where
  "str_fields_from cur s =
     (if s = [] then (if cur = [] then [] else [rev cur])
      else if space_len s = 0 then str_fields_from (hd s # cur) (tl s)
      else (if cur = [] then [] else [rev cur]) @ str_fields_from [] (drop (space_len s) s))"
  by pat_completeness auto
termination
  by (relation "measure (\<lambda>(cur, s). length s)") auto

declare str_fields_from.simps [simp del]

definition str_fields :: "string \<Rightarrow> string list" where
  "str_fields s = str_fields_from [] s"

lemma split_on_nonempty [simp]: "split_on c s \<noteq> []"
  by (induction s) (auto split: list.splits)

lemma split_on_no_sep: "t \<in> set (split_on c s) \<Longrightarrow> c \<notin> set t"
  by (induction s arbitrary: t) (fastforce split: if_splits list.splits)+

lemma split_on_fresh: "c \<notin> set s \<Longrightarrow> split_on c s = [s]"
  by (induction s) auto

lemma split_on_append: "c \<notin> set s \<Longrightarrow> split_on c (s @ c # t) = s # split_on c t"
  by (induction s) auto

lemma split_on_join:
  assumes "xs \<noteq> []" and "\<And>x. x \<in> set xs \<Longrightarrow> c \<notin> set x"
  shows "split_on c (join_with [c] xs) = xs"
  using assms
proof (induction xs rule: list_nonempty_induct)
  case (single x)
  then show ?case by (simp add: split_on_fresh)
next
  case (cons x xs)
  then show ?case by (cases xs) (simp_all add: split_on_append)
qed

section \<open>UTF-8\<close>

definition cont_byte :: "char \<Rightarrow> bool" where
  "cont_byte c \<longleftrightarrow> 128 \<le> byte_of c \<and> byte_of c < 192"

definition byte_in :: "char \<Rightarrow> nat \<Rightarrow> nat \<Rightarrow> bool" where
  "byte_in c lo hi \<longleftrightarrow> lo \<le> byte_of c \<and> byte_of c \<le> hi"

definition rune2 :: "char \<Rightarrow> char \<Rightarrow> bool" where
  "rune2 a b \<longleftrightarrow> byte_in a 194 223 \<and> cont_byte b"

definition rune3 :: "char \<Rightarrow> char \<Rightarrow> char \<Rightarrow> bool" where
  "rune3 a b c \<longleftrightarrow> (byte_of a = 224 \<and> byte_in b 160 191 \<or> byte_in a 225 236 \<and> cont_byte b
     \<or> byte_of a = 237 \<and> byte_in b 128 159 \<or> byte_in a 238 239 \<and> cont_byte b) \<and> cont_byte c"

definition rune4 :: "char \<Rightarrow> char \<Rightarrow> char \<Rightarrow> char \<Rightarrow> bool" where
  "rune4 a b c d \<longleftrightarrow> (byte_of a = 240 \<and> byte_in b 144 191 \<or> byte_in a 241 243 \<and> cont_byte b
     \<or> byte_of a = 244 \<and> byte_in b 128 143) \<and> cont_byte c \<and> cont_byte d"

fun rune_len :: "string \<Rightarrow> nat" where
  \<comment> \<open>the length of the well-formed UTF-8 encoding at the front, 0 where there is none\<close>
  "rune_len [] = 0"
| "rune_len (a # s) =
     (if byte_of a < 128 then 1 else
      case s of [] \<Rightarrow> 0 | b # s' \<Rightarrow>
        if rune2 a b then 2 else
        (case s' of [] \<Rightarrow> 0 | c # s'' \<Rightarrow>
          if rune3 a b c then 3 else
          (case s'' of [] \<Rightarrow> 0 | d # _ \<Rightarrow> if rune4 a b c d then 4 else 0)))"

lemma rune_len_le: "rune_len s \<le> length s"
  by (cases s) (auto split: list.splits)

lemma rune_high:
  "rune2 a b \<Longrightarrow> 128 \<le> byte_of b"
  "rune3 a b c \<Longrightarrow> 128 \<le> byte_of b \<and> 128 \<le> byte_of c"
  "rune4 a b c d \<Longrightarrow> 128 \<le> byte_of b \<and> 128 \<le> byte_of c \<and> 128 \<le> byte_of d"
  by (auto simp: rune2_def rune3_def rune4_def byte_in_def cont_byte_def)

lemma rune_bytes_high:
  "1 < rune_len s \<Longrightarrow> x \<in> set (take (rune_len s) s) \<Longrightarrow> 128 \<le> byte_of x"
  by (cases s) (auto split: list.splits if_splits dest: rune_high)

definition ascii :: "string \<Rightarrow> bool" where
  "ascii s \<longleftrightarrow> list_all (\<lambda>c. byte_of c < 128) s"

lemma ascii_simps [simp]:
  "ascii []" "ascii (c # s) \<longleftrightarrow> byte_of c < 128 \<and> ascii s" "ascii (s @ t) \<longleftrightarrow> ascii s \<and> ascii t"
  by (simp_all add: ascii_def)

section \<open>Decimal and hexadecimal numbers\<close>

definition digit_char :: "nat \<Rightarrow> char" where
  "digit_char n = char_of (48 + n)"

definition is_digit :: "char \<Rightarrow> bool" where
  "is_digit c \<longleftrightarrow> 48 \<le> byte_of c \<and> byte_of c \<le> 57"

definition digit_val :: "char \<Rightarrow> nat" where
  "digit_val c = byte_of c - 48"

fun nat_digits :: "nat \<Rightarrow> string" where
  "nat_digits n = (if n < 10 then [digit_char n]
     else nat_digits (n div 10) @ [digit_char (n mod 10)])"

declare nat_digits.simps [simp del]

definition itoa :: "int \<Rightarrow> string" where
  "itoa i = (if i < 0 then CHR ''-'' # nat_digits (nat (- i)) else nat_digits (nat i))"

definition digits_nat :: "string \<Rightarrow> nat" where
  "digits_nat s = foldl (\<lambda>a c. 10 * a + digit_val c) 0 s"

definition all_digits :: "string \<Rightarrow> bool" where
  "all_digits s \<longleftrightarrow> s \<noteq> [] \<and> list_all is_digit s"

datatype num_error = ErrSyntax | ErrRange

definition parse_uint64 :: "string \<Rightarrow> u64 \<times> num_error option" where
  \<comment> \<open>\<open>strconv.ParseUint(s, 10, 64)\<close>: a value even where there is an error\<close>
  "parse_uint64 s =
     (if \<not> all_digits s then (0, Some ErrSyntax)
      else if digits_nat s < 2 ^ 64 then (of_nat (digits_nat s), None)
      else (- 1, Some ErrRange))"

definition parse_int64 :: "string \<Rightarrow> int \<times> num_error option" where
  \<comment> \<open>\<open>strconv.ParseInt(s, 10, 64)\<close> and \<open>strconv.Atoi(s)\<close> on a 64-bit machine\<close>
  "parse_int64 s =
     (let (neg, d) = (case s of [] \<Rightarrow> (False, [])
        | c # r \<Rightarrow> if c = CHR ''-'' then (True, r) else if c = CHR ''+'' then (False, r)
            else (False, s))
      in if \<not> all_digits d then (0, Some ErrSyntax)
         else let v = (if neg then - int (digits_nat d) else int (digits_nat d))
           in if in_int64 v then (v, None)
              else (if neg then min_int64 else max_int64, Some ErrRange))"

definition atoi :: "string \<Rightarrow> int option" where
  \<comment> \<open>\<open>strconv.Atoi\<close> for a caller that looks at the error\<close>
  "atoi s = (case parse_int64 s of (v, None) \<Rightarrow> Some v | (_, Some _) \<Rightarrow> None)"

definition hex_char :: "nat \<Rightarrow> char" where
  "hex_char n = (if n < 10 then char_of (48 + n) else char_of (87 + n))"

fun nat_hex :: "nat \<Rightarrow> string" where
  "nat_hex n = (if n < 16 then [hex_char n] else nat_hex (n div 16) @ [hex_char (n mod 16)])"

declare nat_hex.simps [simp del]

definition bool_string :: "bool \<Rightarrow> string" where
  "bool_string b = (if b then ''true'' else ''false'')"

lemma byte_digit_char [simp]: "n < 10 \<Longrightarrow> byte_of (digit_char n) = 48 + n"
  by (simp add: byte_of_def digit_char_def)

lemma is_digit_digit_char [simp]: "n < 10 \<Longrightarrow> is_digit (digit_char n)"
  and digit_val_digit_char [simp]: "n < 10 \<Longrightarrow> digit_val (digit_char n) = n"
  by (simp_all add: is_digit_def digit_val_def)

lemma nat_digits_nonempty [simp]: "nat_digits n \<noteq> []"
  by (subst nat_digits.simps) simp

lemma nat_digits_digits: "list_all is_digit (nat_digits n)"
proof (induction n rule: nat_digits.induct)
  case (1 n)
  then show ?case
    by (cases "n < 10") (simp_all add: nat_digits.simps [of n])
qed

lemma digits_nat_snoc [simp]: "digits_nat (s @ [c]) = 10 * digits_nat s + digit_val c"
  by (simp add: digits_nat_def)

lemma digits_nat_nat_digits [simp]: "digits_nat (nat_digits n) = n"
proof (induction n rule: nat_digits.induct)
  case (1 n)
  show ?case
  proof (cases "n < 10")
    case True
    then show ?thesis by (simp add: nat_digits.simps [of n] digits_nat_def)
  next
    case False
    with "1.IH" have "digits_nat (nat_digits n) = 10 * (n div 10) + n mod 10"
      by (simp add: nat_digits.simps [of n])
    then show ?thesis by simp
  qed
qed

lemma all_digits_nat_digits [simp]: "all_digits (nat_digits n)"
  by (simp add: all_digits_def nat_digits_digits)

lemma nat_digits_inj: "nat_digits m = nat_digits n \<longleftrightarrow> m = n"
  by (metis digits_nat_nat_digits)

lemma digit_not_sign: "is_digit c \<Longrightarrow> c \<noteq> CHR ''-'' \<and> c \<noteq> CHR ''+''"
  by (auto simp: is_digit_def byte_of_def)

lemma parse_int64_digits:
  assumes "all_digits s"
  shows "parse_int64 s = (if int (digits_nat s) \<le> max_int64 then (int (digits_nat s), None)
    else (max_int64, Some ErrRange))"
proof -
  obtain c r where s: "s = c # r" and "is_digit c"
    using assms by (cases s) (auto simp: all_digits_def)
  with digit_not_sign have "c \<noteq> CHR ''-''" "c \<noteq> CHR ''+''" by auto
  with assms s show ?thesis
    by (simp add: parse_int64_def in_int64_def min_int64_def)
qed

lemma parse_int64_neg_digits:
  "all_digits s \<Longrightarrow> parse_int64 (CHR ''-'' # s) =
     (if min_int64 \<le> - int (digits_nat s) then (- int (digits_nat s), None)
      else (min_int64, Some ErrRange))"
  by (simp add: parse_int64_def in_int64_def max_int64_def)

lemma parse_itoa: "in_int64 i \<Longrightarrow> parse_int64 (itoa i) = (i, None)"
  by (auto simp: itoa_def parse_int64_digits parse_int64_neg_digits in_int64_def)

lemma atoi_itoa: "in_int64 i \<Longrightarrow> atoi (itoa i) = Some i"
  by (simp add: atoi_def parse_itoa)

lemma parse_int64_range: "in_int64 (fst (parse_int64 s))"
  by (auto simp: parse_int64_def Let_def in_int64_def min_int64_def max_int64_def
      split: list.splits)

lemma parse_uint64_digits:
  "n < 2 ^ 64 \<Longrightarrow> parse_uint64 (nat_digits n) = (of_nat n, None)"
  by (simp add: parse_uint64_def)

lemma digits_of_itoa: "0 \<le> i \<Longrightarrow> itoa i = nat_digits (nat i)"
  by (simp add: itoa_def)

section \<open>Quoting with \<open>%q\<close>\<close>

definition hex_escape :: "nat \<Rightarrow> string" where
  "hex_escape b = [CHR 0x5C, CHR ''x'', hex_char (b div 16), hex_char (b mod 16)]"

definition quote_byte :: "char \<Rightarrow> string" where
  "quote_byte c = (let b = byte_of c in
     if b = 34 \<or> b = 92 then [CHR 0x5C, c]
     else if b = 7 then [CHR 0x5C, CHR ''a''] else if b = 8 then [CHR 0x5C, CHR ''b'']
     else if b = 9 then [CHR 0x5C, CHR ''t''] else if b = 10 then [CHR 0x5C, CHR ''n'']
     else if b = 11 then [CHR 0x5C, CHR ''v''] else if b = 12 then [CHR 0x5C, CHR ''f'']
     else if b = 13 then [CHR 0x5C, CHR ''r'']
     else if b < 32 \<or> b = 127 then hex_escape b else [c])"

function quote_body :: "string \<Rightarrow> string" where
  \<comment> \<open>\<open>strconv.Quote\<close>; a well-formed multi-byte rune is taken to be printable\<close>
  "quote_body s = (case s of [] \<Rightarrow> []
     | c # r \<Rightarrow> if rune_len s = 0 then hex_escape (byte_of c) @ quote_body r
         else if rune_len s = 1 then quote_byte c @ quote_body r
         else take (rune_len s) s @ quote_body (drop (rune_len s) s))"
  by pat_completeness auto
termination
  by (relation "measure length") (auto split: list.splits)

declare quote_body.simps [simp del]

definition go_quote :: "string \<Rightarrow> string" where
  "go_quote s = CHR 0x22 # quote_body s @ [CHR 0x22]"

section \<open>A literal followed by a captured number\<close>

text \<open>
  The regular expressions of the program that capture a number have the form of a literal
  followed by \<^verbatim>\<open>(\d+)\<close>; the leftmost match is the first place where the literal is
  followed by a digit, and the capture is the longest run of digits there.
\<close>

fun find_digits_after :: "string \<Rightarrow> string \<Rightarrow> string option" where
  "find_digits_after lit [] = None"
| "find_digits_after lit (c # s) =
     (let rest = drop (length lit) (c # s)
      in if prefix lit (c # s) \<and> rest \<noteq> [] \<and> is_digit (hd rest)
         then Some (takeWhile is_digit rest) else find_digits_after lit s)"

lemma find_digits_after_here:
  assumes "lit \<noteq> []" "all_digits d" "t = [] \<or> \<not> is_digit (hd t)"
  shows "find_digits_after lit (lit @ d @ t) = Some d"
proof -
  obtain c r where lit: "lit = c # r" using assms(1) by (cases lit) auto
  obtain x y where d: "d = x # y" and x: "is_digit x" and y: "list_all is_digit y"
    using assms(2) by (cases d) (auto simp: all_digits_def)
  have "takeWhile is_digit (d @ t) = d"
    using assms(3) d x y
    by (cases t) (auto simp: takeWhile_append list_all_iff)
  then show ?thesis
    using lit d x by simp
qed

lemma find_digits_after_Some:
  "find_digits_after lit s = Some d \<Longrightarrow> all_digits d"
proof (induction lit s rule: find_digits_after.induct)
  case (2 lit c s)
  let ?rest = "drop (length lit) (c # s)"
  show ?case
  proof (cases "prefix lit (c # s) \<and> ?rest \<noteq> [] \<and> is_digit (hd ?rest)")
    case True
    then have "d = takeWhile is_digit ?rest" using "2.prems" by (simp add: Let_def)
    moreover obtain x y where "?rest = x # y" using True by (cases ?rest) auto
    ultimately show ?thesis
      using True by (auto simp: all_digits_def list_all_iff dest: set_takeWhileD)
  next
    case False
    then show ?thesis using 2 by (auto simp: Let_def)
  qed
qed simp


section \<open>Addresses\<close>

definition join_host_port :: "string \<Rightarrow> string \<Rightarrow> string" where
  \<comment> \<open>\<open>net.JoinHostPort\<close>\<close>
  "join_host_port host port = (if CHR '':'' \<in> set host then ''['' @ host @ '']:'' @ port else host @ '':'' @ port)"

section \<open>Padding\<close>

function rune_count :: "string \<Rightarrow> nat" where
  \<comment> \<open>\<open>utf8.RuneCountInString\<close>: a byte that starts no rune counts as one\<close>
  "rune_count s = (if s = [] then 0 else Suc (rune_count (drop (max 1 (rune_len s)) s)))"
  by pat_completeness auto
termination
  by (relation "measure length") auto

declare rune_count.simps [simp del]

lemma rune_count_ascii: "ascii s \<Longrightarrow> rune_count s = length s"
  by (induction s) (simp_all add: rune_count.simps ascii_def)

definition pad_right :: "nat \<Rightarrow> string \<Rightarrow> string" where
  \<comment> \<open>the verb \<^verbatim>\<open>%-ws\<close>\<close>
  "pad_right w s = s @ replicate (w - rune_count s) (CHR '' '')"

section \<open>Durations as text\<close>

definition pad_digits :: "nat \<Rightarrow> nat \<Rightarrow> string" where
  "pad_digits w n = replicate (w - length (nat_digits n)) (CHR ''0'') @ nat_digits n"

definition fraction :: "nat \<Rightarrow> nat \<Rightarrow> string" where
  \<comment> \<open>the decimals of \<open>v\<close> over \<open>10 ^ prec\<close> without trailing zeroes, with the point if any are left\<close>
  "fraction prec v = (let ds = rev (dropWhile (\<lambda>c. c = CHR ''0'') (rev (pad_digits prec (v mod 10 ^ prec))))
     in if ds = [] then [] else CHR ''.'' # ds)"

definition small_duration :: "nat \<Rightarrow> string" where
  "small_duration u =
     (if u = 0 then ''0s''
      else if u < 1000 then nat_digits u @ ''ns''
      else if u < 1000000 then nat_digits (u div 1000) @ fraction 3 u @ [CHR 0xC2, CHR 0xB5, CHR ''s'']
      else nat_digits (u div 1000000) @ fraction 6 u @ ''ms'')"

definition large_duration :: "nat \<Rightarrow> string" where
  "large_duration u = (let s = u div 1000000000; m = s div 60; h = m div 60 in
     (if 0 < h then nat_digits h @ ''h'' else []) @ (if 0 < m then nat_digits (m mod 60) @ ''m'' else [])
     @ nat_digits (s mod 60) @ fraction 9 u @ ''s'')"

definition duration_string :: "duration \<Rightarrow> string" where
  \<comment> \<open>\<open>Duration.String\<close>\<close>
  "duration_string d = (let u = nat \<bar>d\<bar> in
     (if d < 0 then ''-'' else []) @ (if u < 1000000000 then small_duration u else large_duration u))"

end
