(* ===== verification/Go_Json.thy ===== *)
theory Go_Json
  imports Go_Strings "HOL-Library.Monad_Syntax"
begin

text \<open>
  What the program uses of \<open>encoding/json\<close>: string escaping as \<open>Marshal\<close> does it (HTML characters
  and the two line separators escaped, ill-formed UTF-8 replaced), a parser for whole documents,
  and the decoding of an object into a struct (exact field names first, then names that fold to
  the same upper case, later members overwriting earlier ones, null leaving a field alone, any
  type mismatch an error). The parser spends one unit of fuel per nested call; \<open>unmarshal\<close> gives it
  one more than twice the input's bytes, and \<open>unmarshal_fuel\<close> shows that more never changes the
  result. Nesting is taken to stay below the library's limit of 10000.
\<close>

datatype json =
    JNull | JBool bool | JNum string | JStr string
  | JArr "json list" | JObj "(string \<times> json) list"

section \<open>Encoding\<close>

definition u_escape :: "nat \<Rightarrow> string" where
  "u_escape n = [CHR 0x5C, CHR ''u'', hex_char (n div 4096 mod 16), hex_char (n div 256 mod 16),
     hex_char (n div 16 mod 16), hex_char (n mod 16)]"

definition json_byte :: "char \<Rightarrow> string" where
  \<comment> \<open>one ASCII byte inside a string\<close>
  "json_byte c = (let b = byte_of c in
     if b = 34 \<or> b = 92 then [CHR 0x5C, c]
     else if b = 8 then [CHR 0x5C, CHR ''b''] else if b = 12 then [CHR 0x5C, CHR ''f'']
     else if b = 10 then [CHR 0x5C, CHR ''n''] else if b = 13 then [CHR 0x5C, CHR ''r'']
     else if b = 9 then [CHR 0x5C, CHR ''t'']
     else if b < 32 \<or> b = 38 \<or> b = 60 \<or> b = 62 then u_escape b
     else [c])"

function json_escape :: "string \<Rightarrow> string" where
  "json_escape s = (case s of [] \<Rightarrow> []
     | c # r \<Rightarrow>
         if rune_len s = 0 then u_escape 0xFFFD @ json_escape r
         else if rune_len s = 1 then json_byte c @ json_escape r
         else if prefix [CHR 0xE2, CHR 0x80, CHR 0xA8] s then u_escape 0x2028 @ json_escape (drop 3 s)
         else if prefix [CHR 0xE2, CHR 0x80, CHR 0xA9] s then u_escape 0x2029 @ json_escape (drop 3 s)
         else take (rune_len s) s @ json_escape (drop (rune_len s) s))"
  by pat_completeness auto
termination
  by (relation "measure length") (auto split: list.splits)

declare json_escape.simps [simp del]

definition json_quote :: "string \<Rightarrow> string" where
  "json_quote s = CHR 0x22 # json_escape s @ [CHR 0x22]"

section \<open>Parsing\<close>

definition json_ws :: "char \<Rightarrow> bool" where
  "json_ws c \<longleftrightarrow> byte_of c \<in> {9, 10, 13, 32}"

definition skip_ws :: "string \<Rightarrow> string" where
  "skip_ws s = dropWhile json_ws s"

definition expect :: "char \<Rightarrow> string \<Rightarrow> string option" where
  \<comment> \<open>skip white space, then one given character\<close>
  "expect c s = (case skip_ws s of [] \<Rightarrow> None | x # r \<Rightarrow> if x = c then Some r else None)"

definition hex_val :: "char \<Rightarrow> nat option" where
  "hex_val c = (let b = byte_of c in
     if 48 \<le> b \<and> b \<le> 57 then Some (b - 48) else if 97 \<le> b \<and> b \<le> 102 then Some (b - 87)
     else if 65 \<le> b \<and> b \<le> 70 then Some (b - 55) else None)"

definition hex4 :: "string \<Rightarrow> (nat \<times> string) option" where
  \<comment> \<open>four hexadecimal digits\<close>
  "hex4 s = (if length s < 4 then None else do {
     a \<leftarrow> hex_val (s ! 0); b \<leftarrow> hex_val (s ! 1); c \<leftarrow> hex_val (s ! 2); d \<leftarrow> hex_val (s ! 3);
     Some (4096 * a + 256 * b + 16 * c + d, drop 4 s) })"

definition utf8_encode :: "nat \<Rightarrow> string" where
  "utf8_encode n =
     (if n < 0x80 then [char_of n]
      else if n < 0x800 then [char_of (0xC0 + n div 64), char_of (0x80 + n mod 64)]
      else if n < 0x10000 then
        [char_of (0xE0 + n div 4096), char_of (0x80 + n div 64 mod 64), char_of (0x80 + n mod 64)]
      else [char_of (0xF0 + n div 262144), char_of (0x80 + n div 4096 mod 64),
        char_of (0x80 + n div 64 mod 64), char_of (0x80 + n mod 64)])"

definition u_rune :: "nat \<Rightarrow> string \<Rightarrow> string \<times> string" where
  \<comment> \<open>the bytes of a \<open>\u\<close> escape with value \<open>n\<close> and the input after it; a surrogate needs its pair\<close>
  "u_rune n s =
     (if 0xD800 \<le> n \<and> n < 0xE000 then
        (case s of a # b # s' \<Rightarrow>
           (if a = CHR 0x5C \<and> b = CHR ''u'' \<and> n < 0xDC00 then
              (case hex4 s' of Some (l, s'') \<Rightarrow>
                 if 0xDC00 \<le> l \<and> l < 0xE000
                 then (utf8_encode (0x10000 + (n - 0xD800) * 1024 + (l - 0xDC00)), s'')
                 else (utf8_encode 0xFFFD, s)
               | None \<Rightarrow> (utf8_encode 0xFFFD, s))
            else (utf8_encode 0xFFFD, s))
         | _ \<Rightarrow> (utf8_encode 0xFFFD, s))
      else (utf8_encode n, s))"

definition simple_escape :: "char \<Rightarrow> char option" where
  "simple_escape e =
     (if e = CHR 0x22 \<or> e = CHR 0x5C \<or> e = CHR ''/'' then Some e
      else if e = CHR ''b'' then Some (CHR 0x08) else if e = CHR ''f'' then Some (CHR 0x0C)
      else if e = CHR ''n'' then Some (CHR 0x0A) else if e = CHR ''r'' then Some (CHR 0x0D)
      else if e = CHR ''t'' then Some (CHR 0x09) else None)"

definition str_step :: "string \<Rightarrow> (string \<times> string) option" where
  \<comment> \<open>one character of a string: what it decodes to and the input after it\<close>
  "str_step s = (case s of [] \<Rightarrow> None
     | c # r \<Rightarrow>
         if c = CHR 0x5C then
           (case r of [] \<Rightarrow> None
            | e # r' \<Rightarrow> if e = CHR ''u'' then
                (case hex4 r' of None \<Rightarrow> None | Some (n, r'') \<Rightarrow> Some (u_rune n r''))
              else map_option (\<lambda>x. ([x], r')) (simple_escape e))
         else if byte_of c < 32 then None
         else if rune_len s = 0 then Some (utf8_encode 0xFFFD, r)
         else Some (take (rune_len s) s, drop (rune_len s) s))"

fun str_body :: "nat \<Rightarrow> string \<Rightarrow> (string \<times> string) option" where
  \<comment> \<open>the rest of a string after its opening quote\<close>
  "str_body 0 s = None"
| "str_body (Suc f) s =
     (if s \<noteq> [] \<and> hd s = CHR 0x22 then Some ([], tl s)
      else do { (x, r) \<leftarrow> str_step s; (y, r') \<leftarrow> str_body f r; Some (x @ y, r') })"

definition parse_string :: "string \<Rightarrow> (string \<times> string) option" where
  \<comment> \<open>every step consumes a byte, so the input's length is fuel enough\<close>
  "parse_string s = str_body (Suc (length s)) s"

definition digits_then :: "string \<Rightarrow> (string \<times> string) option" where
  "digits_then s = (let d = takeWhile is_digit s in
     if d = [] then None else Some (d, drop (length d) s))"

definition num_int :: "string \<Rightarrow> (string \<times> string) option" where
  "num_int s = (case s of [] \<Rightarrow> None
     | c # r \<Rightarrow> if c = CHR ''0'' then Some ([c], r) else digits_then s)"

definition num_frac :: "string \<Rightarrow> (string \<times> string) option" where
  "num_frac s = (case s of [] \<Rightarrow> Some ([], [])
     | c # r \<Rightarrow> if c = CHR ''.'' then map_option (\<lambda>(d, r'). (c # d, r')) (digits_then r)
         else Some ([], s))"

definition num_exp :: "string \<Rightarrow> (string \<times> string) option" where
  "num_exp s = (case s of [] \<Rightarrow> Some ([], [])
     | c # r \<Rightarrow> if c = CHR ''e'' \<or> c = CHR ''E'' then
           (case r of [] \<Rightarrow> None
            | g # r' \<Rightarrow> if g = CHR ''+'' \<or> g = CHR ''-''
                then map_option (\<lambda>(d, r''). (c # g # d, r'')) (digits_then r')
                else map_option (\<lambda>(d, r''). (c # d, r'')) (digits_then r))
         else Some ([], s))"

definition parse_number :: "string \<Rightarrow> (string \<times> string) option" where
  "parse_number s = (let (sg, s0) = (if s \<noteq> [] \<and> hd s = CHR ''-'' then ([hd s], tl s) else ([], s)) in
     do { (i, s1) \<leftarrow> num_int s0; (fr, s2) \<leftarrow> num_frac s1; (ex, s3) \<leftarrow> num_exp s2;
          Some (sg @ i @ fr @ ex, s3) })"

definition parse_atom :: "string \<Rightarrow> (json \<times> string) option" where
  \<comment> \<open>a literal or a number\<close>
  "parse_atom s =
     (if prefix ''null'' s then Some (JNull, drop 4 s)
      else if prefix ''true'' s then Some (JBool True, drop 4 s)
      else if prefix ''false'' s then Some (JBool False, drop 5 s)
      else map_option (\<lambda>(n, r). (JNum n, r)) (parse_number s))"

fun parse_value :: "nat \<Rightarrow> string \<Rightarrow> (json \<times> string) option"
  and parse_elems :: "nat \<Rightarrow> string \<Rightarrow> (json list \<times> string) option"
  and parse_members :: "nat \<Rightarrow> string \<Rightarrow> ((string \<times> json) list \<times> string) option" where
  "parse_value 0 s = None"
| "parse_value (Suc f) s =
     (case expect (CHR ''{'') s of
        Some r \<Rightarrow> (case expect (CHR ''}'') r of Some r' \<Rightarrow> Some (JObj [], r')
          | None \<Rightarrow> do { (ms, r') \<leftarrow> parse_members f r; Some (JObj ms, r') })
      | None \<Rightarrow>
     (case expect (CHR ''['') s of
        Some r \<Rightarrow> (case expect (CHR '']'') r of Some r' \<Rightarrow> Some (JArr [], r')
          | None \<Rightarrow> do { (vs, r') \<leftarrow> parse_elems f r; Some (JArr vs, r') })
      | None \<Rightarrow>
     (case expect (CHR 0x22) s of
        Some r \<Rightarrow> do { (x, r') \<leftarrow> parse_string r; Some (JStr x, r') }
      | None \<Rightarrow> parse_atom (skip_ws s))))"
| "parse_elems 0 s = None"
| "parse_elems (Suc f) s = do {
     (v, r) \<leftarrow> parse_value f s;
     (case expect (CHR '','') r of
        Some r' \<Rightarrow> do { (vs, r'') \<leftarrow> parse_elems f r'; Some (v # vs, r'') }
      | None \<Rightarrow> do { r' \<leftarrow> expect (CHR '']'') r; Some ([v], r') }) }"
| "parse_members 0 s = None"
| "parse_members (Suc f) s = do {
     r0 \<leftarrow> expect (CHR 0x22) s; (k, r1) \<leftarrow> parse_string r0;
     r2 \<leftarrow> expect (CHR '':'') r1; (v, r3) \<leftarrow> parse_value f r2;
     (case expect (CHR '','') r3 of
        Some r4 \<Rightarrow> do { (ms, r5) \<leftarrow> parse_members f r4; Some ((k, v) # ms, r5) }
      | None \<Rightarrow> do { r4 \<leftarrow> expect (CHR ''}'') r3; Some ([(k, v)], r4) }) }"

definition unmarshal :: "string \<Rightarrow> json option" where
  \<comment> \<open>a whole document: one value and nothing but white space after it\<close>
  "unmarshal s = do { (v, r) \<leftarrow> parse_value (Suc (2 * length s)) s;
     if skip_ws r = [] then Some v else None }"

section \<open>Decoding into structs\<close>

fun fold_key :: "string \<Rightarrow> string" where
  \<comment> \<open>upper case, with the long s and the Kelvin sign folding to S and K\<close>
  "fold_key [] = []"
| "fold_key (c # s) =
     (if prefix [CHR 0xC5, CHR 0xBF] (c # s) then CHR ''S'' # fold_key (drop 1 s)
      else if prefix [CHR 0xE2, CHR 0x84, CHR 0xAA] (c # s) then CHR ''K'' # fold_key (drop 2 s)
      else (if 97 \<le> byte_of c \<and> byte_of c \<le> 122 then char_of (byte_of c - 32) else c) # fold_key s)"

type_synonym 'r setter = "json \<Rightarrow> 'r \<Rightarrow> 'r option"

definition field_for :: "(string \<times> 'r setter) list \<Rightarrow> string \<Rightarrow> 'r setter option" where
  "field_for fs k = (case map_of fs k of Some f \<Rightarrow> Some f
     | None \<Rightarrow> map_option snd (find (\<lambda>(n, _). fold_key n = fold_key k) fs))"

fun set_members :: "(string \<times> 'r setter) list \<Rightarrow> (string \<times> json) list \<Rightarrow> 'r \<Rightarrow> 'r option" where
  "set_members fs [] r = Some r"
| "set_members fs ((k, v) # ms) r =
     (case field_for fs k of None \<Rightarrow> set_members fs ms r
      | Some f \<Rightarrow> do { r' \<leftarrow> f v r; set_members fs ms r' })"

definition decode_struct :: "(string \<times> 'r setter) list \<Rightarrow> json \<Rightarrow> 'r \<Rightarrow> 'r option" where
  "decode_struct fs v r = (case v of JObj ms \<Rightarrow> set_members fs ms r | JNull \<Rightarrow> Some r | _ \<Rightarrow> None)"

definition string_field :: "((string \<Rightarrow> string) \<Rightarrow> 'r \<Rightarrow> 'r) \<Rightarrow> 'r setter" where
  "string_field upd v r = (case v of JStr s \<Rightarrow> Some (upd (\<lambda>_. s) r) | JNull \<Rightarrow> Some r | _ \<Rightarrow> None)"

definition int_field :: "((int \<Rightarrow> int) \<Rightarrow> 'r \<Rightarrow> 'r) \<Rightarrow> 'r setter" where
  "int_field upd v r = (case v of
     JNum n \<Rightarrow> map_option (\<lambda>i. upd (\<lambda>_. i) r) (atoi n) | JNull \<Rightarrow> Some r | _ \<Rightarrow> None)"

definition bool_field :: "((bool \<Rightarrow> bool) \<Rightarrow> 'r \<Rightarrow> 'r) \<Rightarrow> 'r setter" where
  "bool_field upd v r = (case v of JBool b \<Rightarrow> Some (upd (\<lambda>_. b) r) | JNull \<Rightarrow> Some r | _ \<Rightarrow> None)"

lemmas field_defs = string_field_def int_field_def bool_field_def

section \<open>Strings survive the round trip\<close>

lemma byte_of_less: "byte_of c < 256"
  by (simp add: byte_of_def)

lemma byte_of_inj: "byte_of c = byte_of d \<longleftrightarrow> c = d"
  by (simp add: byte_of_def)

lemma byte_of_consts:
  "byte_of (CHR 0x22) = 34" "byte_of (CHR 0x5C) = 92" "byte_of (CHR 0x08) = 8"
  "byte_of (CHR 0x0C) = 12" "byte_of (CHR 0x0A) = 10" "byte_of (CHR 0x0D) = 13"
  "byte_of (CHR 0x09) = 9"
  by (simp_all add: byte_of_def)

lemma byte_of_char_of [simp]: "n < 256 \<Longrightarrow> byte_of (char_of n) = n"
  by (simp add: byte_of_def)

lemma char_of_byte_of [simp]: "char_of (byte_of c) = c"
  by (simp add: byte_of_def)

lemma hex_val_hex_char [simp]: "n < 16 \<Longrightarrow> hex_val (hex_char n) = Some n"
  by (auto simp: hex_val_def hex_char_def Let_def)

lemma hex4_small:
  "n < 128 \<Longrightarrow> hex4 (hex_char 0 # hex_char 0 # hex_char (n div 16) # hex_char (n mod 16) # t)
     = Some (n, t)"
  by (simp add: hex4_def)

lemma u_escape_small:
  "n < 128 \<Longrightarrow> u_escape n = [CHR 0x5C, CHR ''u'', hex_char 0, hex_char 0, hex_char (n div 16),
     hex_char (n mod 16)]"
  by (simp add: u_escape_def)

lemma str_step_u_escape: "n < 128 \<Longrightarrow> str_step (u_escape n @ t) = Some ([char_of n], t)"
  by (simp add: str_step_def u_escape_small hex4_small u_rune_def utf8_encode_def)

lemma str_step_escape:
  "simple_escape e = Some x \<Longrightarrow> e \<noteq> CHR ''u'' \<Longrightarrow> str_step (CHR 0x5C # e # t) = Some ([x], t)"
  by (simp add: str_step_def)

lemma str_step_json_byte:
  assumes "byte_of c < 128"
  shows "str_step (json_byte c @ t) = Some ([c], t)"
proof -
  consider "byte_of c \<in> {34, 92, 8, 12, 10, 13, 9}"
    | "byte_of c \<notin> {34, 92, 8, 12, 10, 13, 9}" "byte_of c < 32 \<or> byte_of c \<in> {38, 60, 62}"
    | "byte_of c \<notin> {34, 92, 8, 12, 10, 13, 9}" "\<not> (byte_of c < 32 \<or> byte_of c \<in> {38, 60, 62})"
    by blast
  then show ?thesis
  proof cases
    case 1
    then have "byte_of c = byte_of (CHR 0x22) \<or> byte_of c = byte_of (CHR 0x5C)
      \<or> byte_of c = byte_of (CHR 0x08) \<or> byte_of c = byte_of (CHR 0x0C)
      \<or> byte_of c = byte_of (CHR 0x0A) \<or> byte_of c = byte_of (CHR 0x0D)
      \<or> byte_of c = byte_of (CHR 0x09)"
      by (simp add: byte_of_consts)
    then have "c = CHR 0x22 \<or> c = CHR 0x5C \<or> c = CHR 0x08 \<or> c = CHR 0x0C \<or> c = CHR 0x0A
      \<or> c = CHR 0x0D \<or> c = CHR 0x09"
      unfolding byte_of_inj .
    then show ?thesis
      by (elim disjE) (simp_all add: json_byte_def byte_of_consts simple_escape_def str_step_escape)
  next
    case 2
    then have "json_byte c = u_escape (byte_of c)"
      by (auto simp: json_byte_def Let_def)
    then show ?thesis using assms by (simp add: str_step_u_escape)
  next
    case 3
    then have "json_byte c = [c]" and "c \<noteq> CHR 0x5C"
      by (auto simp: json_byte_def Let_def byte_of_def)
    then show ?thesis using assms 3 by (simp add: str_step_def)
  qed
qed

lemma json_byte_start: "\<exists>x r. json_byte c = x # r \<and> x \<noteq> CHR 0x22"
  by (auto simp: json_byte_def u_escape_def Let_def byte_of_def)

lemma json_escape_Cons: "byte_of c < 128 \<Longrightarrow> json_escape (c # s) = json_byte c @ json_escape s"
  by (simp add: json_escape.simps [of "c # s"])

lemma json_escape_Nil [simp]: "json_escape [] = []"
  by (simp add: json_escape.simps)

lemma length_json_escape: "ascii s \<Longrightarrow> length s \<le> length (json_escape s)"
proof (induction s)
  case (Cons c s)
  then show ?case
    using json_byte_start [of c] by (auto simp: json_escape_Cons)
qed simp

lemma str_body_json_escape:
  "ascii s \<Longrightarrow> length s < f \<Longrightarrow> str_body f (json_escape s @ CHR 0x22 # t) = Some (s, t)"
proof (induction s arbitrary: f)
  case Nil
  then show ?case by (cases f) simp_all
next
  case (Cons c s)
  then obtain g where f: "f = Suc g" and "length s < g" by (cases f) auto
  then have "str_body g (json_escape s @ CHR 0x22 # t) = Some (s, t)"
    using Cons by simp
  moreover obtain x r where "json_byte c = x # r" "x \<noteq> CHR 0x22"
    using json_byte_start by blast
  ultimately show ?case
    using Cons.prems f str_step_json_byte [of c "json_escape s @ CHR 0x22 # t"]
    by (simp add: json_escape_Cons)
qed

lemma parse_string_quoted [simp]:
  "ascii s \<Longrightarrow> parse_string (json_escape s @ CHR 0x22 # t) = Some (s, t)"
  unfolding parse_string_def
  using length_json_escape [of s] by (intro str_body_json_escape) auto

lemma skip_ws_Cons: "\<not> json_ws c \<Longrightarrow> skip_ws (c # s) = c # s"
  by (simp add: skip_ws_def)

lemma expect_here [simp]: "\<not> json_ws c \<Longrightarrow> expect c (c # s) = Some s"
  by (simp add: expect_def skip_ws_Cons)

lemma expect_other: "\<not> json_ws d \<Longrightarrow> d \<noteq> c \<Longrightarrow> expect c (d # s) = None"
  by (simp add: expect_def skip_ws_Cons)

lemma json_ws_simps [simp]:
  "\<not> json_ws (CHR 0x22)" "\<not> json_ws (CHR ''{'')" "\<not> json_ws (CHR ''}'')" "\<not> json_ws (CHR '','')"
  "\<not> json_ws (CHR '':'')" "\<not> json_ws (CHR ''['')" "\<not> json_ws (CHR '']'')" "\<not> json_ws (CHR ''-'')"
  by (simp_all add: json_ws_def byte_of_def)

lemma is_digit_not_ws: "is_digit c \<Longrightarrow> \<not> json_ws c"
  by (auto simp: is_digit_def json_ws_def)

lemma parse_value_string:
  "ascii s \<Longrightarrow> parse_value (Suc f) (json_quote s @ t) = Some (JStr s, t)"
  by (simp add: json_quote_def expect_other)

section \<open>Numbers survive the round trip\<close>

lemma digit_char_0 [simp]: "digit_char 0 = CHR ''0''"
  by code_simp

lemma digit_char_eq_0: "n < 10 \<Longrightarrow> digit_char n = CHR ''0'' \<longleftrightarrow> n = 0"
  by (metis add_cancel_left_right byte_digit_char digit_char_0 zero_less_numeral)

lemma nat_digits_hd:
  assumes "0 < n"
  shows "\<exists>c r. nat_digits n = c # r \<and> is_digit c \<and> c \<noteq> CHR ''0''"
  using assms
proof (induction n rule: nat_digits.induct)
  case (1 n)
  show ?case
  proof (cases "n < 10")
    case True
    then show ?thesis
      using "1.prems" by (auto simp: nat_digits.simps [of n] digit_char_eq_0)
  next
    case False
    then have "0 < n div 10" by simp
    with 1 False obtain c r where "nat_digits (n div 10) = c # r" "is_digit c" "c \<noteq> CHR ''0''"
      by blast
    with False show ?thesis by (simp add: nat_digits.simps [of n])
  qed
qed

definition number_end :: "string \<Rightarrow> bool" where
  \<comment> \<open>what follows does not continue a number\<close>
  "number_end t \<longleftrightarrow> t \<noteq> [] \<and> \<not> is_digit (hd t) \<and> hd t \<notin> {CHR ''.'', CHR ''e'', CHR ''E''}"

lemma digits_then_nat_digits:
  "number_end t \<Longrightarrow> digits_then (nat_digits n @ t) = Some (nat_digits n, t)"
proof -
  assume "number_end t"
  then have "takeWhile is_digit (nat_digits n @ t) = nat_digits n"
    using nat_digits_digits [of n]
    by (cases t) (auto simp: takeWhile_append list_all_iff number_end_def)
  then show ?thesis by (simp add: digits_then_def)
qed

lemma num_int_nat_digits:
  assumes "number_end t"
  shows "num_int (nat_digits n @ t) = Some (nat_digits n, t)"
proof (cases "n = 0")
  case True
  then show ?thesis by (simp add: num_int_def nat_digits.simps [of 0])
next
  case False
  then obtain c r where "nat_digits n = c # r" "c \<noteq> CHR ''0''"
    using nat_digits_hd by blast
  then show ?thesis
    using digits_then_nat_digits [OF assms, of n] by (simp add: num_int_def)
qed

lemma num_rest: "number_end t \<Longrightarrow> num_frac t = Some ([], t) \<and> num_exp t = Some ([], t)"
  by (cases t) (auto simp: num_frac_def num_exp_def number_end_def)

lemma nat_digits_hd_digit:
  "nat_digits n @ t \<noteq> [] \<and> is_digit (hd (nat_digits n @ t))"
  using nat_digits_digits [of n] nat_digits_nonempty [of n]
  by (cases "nat_digits n") auto

lemma parse_number_itoa:
  assumes "number_end t"
  shows "parse_number (itoa i @ t) = Some (itoa i, t)"
proof -
  have "hd (nat_digits n @ t) \<noteq> CHR ''-''" for n
    using nat_digits_hd_digit [of n t] digit_not_sign by blast
  then show ?thesis
    using num_int_nat_digits [OF assms] num_rest [OF assms]
    by (cases "i < 0") (simp_all add: parse_number_def itoa_def)
qed

lemma itoa_hd:
  "\<exists>c r. itoa i = c # r \<and> (is_digit c \<or> c = CHR ''-'')"
  using nat_digits_digits [of "nat i"] nat_digits_nonempty [of "nat i"]
  by (cases "nat_digits (nat i)") (auto simp: itoa_def)

lemma parse_atom_itoa:
  assumes "number_end t"
  shows "parse_atom (itoa i @ t) = Some (JNum (itoa i), t)"
proof -
  obtain c r where i: "itoa i = c # r" and c: "is_digit c \<or> c = CHR ''-''"
    using itoa_hd by blast
  have "c \<noteq> CHR ''n''" "c \<noteq> CHR ''t''" "c \<noteq> CHR ''f''"
    using c by (auto simp: is_digit_def byte_of_def)
  then have "\<not> prefix ''null'' (itoa i @ t)" "\<not> prefix ''true'' (itoa i @ t)"
    "\<not> prefix ''false'' (itoa i @ t)"
    by (simp_all add: i)
  then show ?thesis
    by (simp add: parse_atom_def parse_number_itoa [OF assms])
qed

lemma expect_itoa:
  shows "c \<in> {CHR ''{'', CHR ''['', CHR 0x22} \<Longrightarrow> expect c (itoa i @ t) = None"
    and "skip_ws (itoa i @ t) = itoa i @ t"
proof -
  obtain d r where i: "itoa i = d # r" and d: "is_digit d \<or> d = CHR ''-''"
    using itoa_hd by blast
  have ws: "\<not> json_ws d" using d is_digit_not_ws by auto
  have "d \<notin> {CHR ''{'', CHR ''['', CHR 0x22}" using d by (auto simp: is_digit_def byte_of_def)
  with ws show "expect c (itoa i @ t) = None" if "c \<in> {CHR ''{'', CHR ''['', CHR 0x22}"
    using that by (auto simp add: i expect_other)
  from ws show "skip_ws (itoa i @ t) = itoa i @ t" by (simp add: i skip_ws_Cons)
qed

lemma parse_value_int:
  "number_end t \<Longrightarrow> parse_value (Suc f) (itoa i @ t) = Some (JNum (itoa i), t)"
  by (simp add: expect_itoa parse_atom_itoa)

lemma parse_value_bool:
  "parse_value (Suc f) (''true'' @ t) = Some (JBool True, t)"
  "parse_value (Suc f) (''false'' @ t) = Some (JBool False, t)"
  by (simp_all add: expect_def skip_ws_def json_ws_def byte_of_def parse_atom_def)

section \<open>Objects\<close>

lemma parse_members_last:
  "ascii k \<Longrightarrow> parse_value f r = Some (v, CHR ''}'' # t) \<Longrightarrow>
     parse_members (Suc f) (json_quote k @ CHR '':'' # r) = Some ([(k, v)], t)"
  by (simp add: json_quote_def expect_other)

lemma parse_members_more:
  "ascii k \<Longrightarrow> parse_value f r = Some (v, CHR '','' # s) \<Longrightarrow> parse_members f s = Some (ms, t) \<Longrightarrow>
     parse_members (Suc f) (json_quote k @ CHR '':'' # r) = Some ((k, v) # ms, t)"
  by (simp add: json_quote_def)

section \<open>The fuel is enough\<close>

lemma length_skip_ws: "length (skip_ws s) \<le> length s"
  by (simp add: skip_ws_def length_dropWhile_le)

lemma expect_shrinks: "expect c s = Some r \<Longrightarrow> length r < length s"
  using length_skip_ws [of s] by (auto simp: expect_def split: list.splits if_splits)

lemma hex4_shrinks: "hex4 s = Some (n, r) \<Longrightarrow> length r < length s"
  by (auto simp: hex4_def split: if_splits bind_splits)

lemma u_rune_shrinks: "length (snd (u_rune n s)) \<le> length s"
  by (auto simp: u_rune_def split: list.splits option.splits dest: hex4_shrinks)

lemma str_step_shrinks: "str_step s = Some (x, r) \<Longrightarrow> length r < length s"
proof (cases s)
  case (Cons c t)
  assume step: "str_step s = Some (x, r)"
  show ?thesis
  proof (cases "c = CHR 0x5C")
    case True
    with Cons step obtain e t' where t: "t = e # t'" by (auto simp: str_step_def split: list.splits)
    have "length r \<le> length t'"
    proof (cases "e = CHR ''u''")
      case u: True
      with True Cons step t obtain n r'' where "hex4 t' = Some (n, r'')" "u_rune n r'' = (x, r)"
        by (auto simp: str_step_def split: option.splits)
      then show ?thesis using hex4_shrinks [of t'] u_rune_shrinks [of n r''] by auto
    next
      case False
      with True Cons step t show ?thesis by (auto simp: str_step_def)
    qed
    with Cons t show ?thesis by simp
  next
    case False
    with Cons step show ?thesis by (auto simp: str_step_def split: if_splits)
  qed
qed (simp add: str_step_def)

lemma str_body_shrinks: "str_body f s = Some (x, r) \<Longrightarrow> length r < length s"
proof (induction f arbitrary: s x)
  case (Suc f)
  show ?case
  proof (cases "s \<noteq> [] \<and> hd s = CHR 0x22")
    case True
    with Suc.prems show ?thesis by (cases s) auto
  next
    case False
    with Suc.prems obtain y r' z where "str_step s = Some (y, r')" "str_body f r' = Some (z, r)"
      by (auto split: bind_splits if_splits)
    with Suc.IH [of r' z] str_step_shrinks [of s y r'] show ?thesis by simp
  qed
qed simp

lemma parse_string_shrinks: "parse_string s = Some (x, r) \<Longrightarrow> length r < length s"
  by (simp add: parse_string_def str_body_shrinks del: str_body.simps)

lemma digits_then_shrinks: "digits_then s = Some (d, r) \<Longrightarrow> length r < length s"
  by (cases s) (auto simp: digits_then_def Let_def split: if_splits)

lemma num_shrinks:
  "num_int s = Some (d, r) \<Longrightarrow> length r < length s"
  "num_frac s = Some (d, r) \<Longrightarrow> length r \<le> length s"
  "num_exp s = Some (d, r) \<Longrightarrow> length r \<le> length s"
  by (auto simp: num_int_def num_frac_def num_exp_def split: list.splits if_splits
      dest: digits_then_shrinks)

lemma parse_number_shrinks: "parse_number s = Some (n, r) \<Longrightarrow> length r < length s"
  by (cases s) (auto simp: parse_number_def Let_def split: bind_splits if_splits dest!: num_shrinks)

lemma parse_atom_shrinks: "parse_atom s = Some (v, r) \<Longrightarrow> length r < length s"
  by (auto simp: parse_atom_def prefix_def split: if_splits dest: parse_number_shrinks)

lemma parse_shrinks:
  "parse_value f s = Some (v, r) \<Longrightarrow> length r < length s"
  "parse_elems f s = Some (vs, r) \<Longrightarrow> length r < length s"
  "parse_members f s = Some (ms, r) \<Longrightarrow> length r < length s"
proof (induction f s and f s and f s arbitrary: v r and vs r and ms r
    rule: parse_value_parse_elems_parse_members.induct)
  case (2 f s)
  have "length (skip_ws s) \<le> length s" by (rule length_skip_ws)
  with 2 show ?case
    by (fastforce split: option.splits bind_splits
        dest: expect_shrinks parse_string_shrinks parse_atom_shrinks)
next
  case (4 f s)
  then show ?case
    by (fastforce split: option.splits bind_splits dest: expect_shrinks)
next
  case (6 f s)
  then show ?case
    by (fastforce split: option.splits bind_splits dest: expect_shrinks parse_string_shrinks)
qed simp_all

lemma parse_value_fuel:
  "2 * length s < f \<Longrightarrow> parse_value (Suc f) s = parse_value f s"
  "2 * length s + 1 < f \<Longrightarrow> parse_elems (Suc f) s = parse_elems f s"
  "2 * length s < f \<Longrightarrow> parse_members (Suc f) s = parse_members f s"
proof (induction f arbitrary: s)
  case (Suc f)
  {
    case 1
    have "parse_members (Suc f) r = parse_members f r" "parse_elems (Suc f) r = parse_elems f r"
      if "expect c s = Some r" for c r
      using that Suc.IH [of r] expect_shrinks [of c s r] 1 by simp_all
    then show ?case
      by (simp del: parse_elems.simps(2) parse_members.simps(2) split: option.split)
  next
    case 2
    have v: "parse_value (Suc f) s = parse_value f s" using Suc.IH(1) [of s] 2 by simp
    have "parse_elems (Suc f) r' = parse_elems f r'"
      if "parse_value f s = Some (v, r)" "expect c r = Some r'" for v c r r'
      using that Suc.IH(2) [of r'] 2 parse_shrinks(1) [of f s v r] expect_shrinks [of c r r']
      by simp
    then show ?case
      by (subst (1 2) parse_elems.simps) (simp add: v del: parse_value.simps parse_elems.simps
          split: option.split bind_split)
  next
    case 3
    have v: "parse_value (Suc f) r2 = parse_value f r2"
      if "expect (CHR 0x22) s = Some r0" "parse_string r0 = Some (k, r1)"
        "expect c r1 = Some r2" for r0 k r1 c r2
      using Suc.IH(1) [of r2] 3 expect_shrinks [OF that(1)] parse_string_shrinks [OF that(2)] expect_shrinks [OF that(3)]
      by simp
    have "parse_members (Suc f) r4 = parse_members f r4"
      if "expect (CHR 0x22) s = Some r0" "parse_string r0 = Some (k, r1)"
        "expect c r1 = Some r2" "parse_value f r2 = Some (v, r3)" "expect d r3 = Some r4"
      for r0 k r1 c r2 v r3 d r4
      using Suc.IH(3) [of r4] 3 expect_shrinks [OF that(1)] parse_string_shrinks [OF that(2)]
        expect_shrinks [OF that(3)] parse_shrinks(1) [OF that(4)] expect_shrinks [OF that(5)]
      by simp
    with v show ?case
      by (subst (1 2) parse_members.simps) (auto simp del: parse_value.simps parse_members.simps
          split: option.split bind_split)
  }
qed simp_all

lemma unmarshal_fuel:
  "2 * length s < f \<Longrightarrow> parse_value f s = parse_value (Suc (2 * length s)) s"
proof (induction f)
  case (Suc f)
  show ?case
  proof (cases "2 * length s < f")
    case True
    with Suc.IH parse_value_fuel(1) [OF True] show ?thesis by simp
  next
    case False
    with Suc.prems have "f = 2 * length s" by simp
    then show ?thesis by simp
  qed
qed simp

section \<open>Encoding an object of scalar members\<close>

declare parse_value.simps [simp del] parse_elems.simps [simp del] parse_members.simps [simp del]

datatype jenc = EStr string | EInt int | EBool bool

fun enc_text :: "jenc \<Rightarrow> string" where
  "enc_text (EStr s) = json_quote s"
| "enc_text (EInt i) = itoa i"
| "enc_text (EBool b) = bool_string b"

fun enc_json :: "jenc \<Rightarrow> json" where
  "enc_json (EStr s) = JStr s"
| "enc_json (EInt i) = JNum (itoa i)"
| "enc_json (EBool b) = JBool b"

fun enc_ascii :: "jenc \<Rightarrow> bool" where
  "enc_ascii (EStr s) = ascii s"
| "enc_ascii _ = True"

definition member_text :: "string \<times> jenc \<Rightarrow> string" where
  "member_text m = json_quote (fst m) @ CHR '':'' # enc_text (snd m)"

definition marshal_object :: "(string \<times> jenc) list \<Rightarrow> string" where
  "marshal_object ms = CHR ''{'' # join_with [CHR '',''] (map member_text ms) @ [CHR ''}'']"

definition members_ascii :: "(string \<times> jenc) list \<Rightarrow> bool" where
  "members_ascii ms \<longleftrightarrow> list_all (\<lambda>(k, e). ascii k \<and> enc_ascii e) ms"

lemma parse_value_enc:
  assumes "enc_ascii e" "c \<in> {CHR '','', CHR ''}''}"
  shows "parse_value (Suc f) (enc_text e @ c # t) = Some (enc_json e, c # t)"
proof (cases e)
  case (EStr s)
  with assms show ?thesis by (simp add: parse_value_string)
next
  case (EInt i)
  have "number_end (c # t)"
    using assms(2) by (auto simp: number_end_def is_digit_def byte_of_def)
  with EInt show ?thesis by (simp add: parse_value_int)
next
  case (EBool b)
  then show ?thesis
    by (simp add: parse_value_bool bool_string_def del: append_Cons)
qed

lemma parse_members_object:
  assumes "ms \<noteq> []" "members_ascii ms" "length ms < f"
  shows "parse_members f (join_with [CHR '',''] (map member_text ms) @ CHR ''}'' # t)
    = Some (map (\<lambda>(k, e). (k, enc_json e)) ms, t)"
  using assms
proof (induction ms arbitrary: f rule: list_nonempty_induct)
  case (single m)
  obtain k e where m: "m = (k, e)" by (cases m)
  obtain g where f: "f = Suc (Suc g)" using single by (cases f; cases "f - 1") auto
  have "parse_members (Suc (Suc g)) (json_quote k @ CHR '':'' # enc_text e @ CHR ''}'' # t)
      = Some ([(k, enc_json e)], t)"
    using single by (intro parse_members_last parse_value_enc) (auto simp: m members_ascii_def)
  then show ?case by (simp add: f m member_text_def)
next
  case (cons m ms)
  obtain k e where m: "m = (k, e)" by (cases m)
  obtain g where f: "f = Suc (Suc g)" using cons by (cases f; cases "f - 1") auto
  let ?rest = "join_with [CHR '',''] (map member_text ms) @ CHR ''}'' # t"
  have "parse_members (Suc g) ?rest = Some (map (\<lambda>(k, e). (k, enc_json e)) ms, t)"
    using cons by (simp add: f members_ascii_def)
  moreover have "parse_value (Suc g) (enc_text e @ CHR '','' # ?rest) = Some (enc_json e, CHR '','' # ?rest)"
    using cons.prems by (intro parse_value_enc) (auto simp: m members_ascii_def)
  moreover have "ascii k" using cons.prems by (simp add: m members_ascii_def)
  ultimately have "parse_members (Suc (Suc g)) (json_quote k @ CHR '':'' # enc_text e @ CHR '','' # ?rest)
      = Some ((k, enc_json e) # map (\<lambda>(k, e). (k, enc_json e)) ms, t)"
    by (blast intro: parse_members_more)
  moreover obtain n ns where "ms = n # ns" using cons(1) by (cases ms) auto
  ultimately show ?case by (simp add: f m member_text_def [of "(k, e)"])
qed

lemma length_join_ge: "length ms \<le> Suc (length (join_with [c] (map f ms)))"
proof (induction ms)
  case (Cons m ms)
  then show ?case by (cases ms) simp_all
qed simp

lemma unmarshal_object:
  assumes "ms \<noteq> []" "members_ascii ms" "skip_ws w = []"
  shows "unmarshal (marshal_object ms @ w) = Some (JObj (map (\<lambda>(k, e). (k, enc_json e)) ms))"
proof -
  let ?body = "join_with [CHR '',''] (map member_text ms)"
  let ?s = "marshal_object ms @ w"
  have s: "?s = CHR ''{'' # ?body @ CHR ''}'' # w" by (simp add: marshal_object_def)
  obtain x where hd_x: "\<exists>y. ?body = CHR 0x22 # y"
    using assms(1) by (cases ms rule: remdups_adj.cases)
      (auto simp: member_text_def json_quote_def)
  have "length ms < 2 * length ?s"
    using length_join_ge [of ms "CHR '',''" member_text] by (simp add: s)
  then have "parse_members (2 * length ?s) (?body @ CHR ''}'' # w)
      = Some (map (\<lambda>(k, e). (k, enc_json e)) ms, w)"
    by (rule parse_members_object [OF assms(1,2)])
  moreover have "expect (CHR ''}'') (?body @ CHR ''}'' # w) = None"
    using hd_x by (auto simp: expect_other)
  ultimately show ?thesis
    using assms(3) by (simp add: unmarshal_def s parse_value.simps)
qed

lemma no_newline_hex: "CHR 0x0A \<noteq> hex_char n" if "n < 16"
  using that byte_of_inj [of "hex_char n" "CHR 0x0A"]
  by (auto simp: hex_char_def byte_of_consts split: if_splits)

lemma no_newline_json_byte: "CHR 0x0A \<notin> set (json_byte c)"
  by (auto simp: json_byte_def Let_def u_escape_def no_newline_hex byte_of_consts)

lemma no_newline_json_escape: "ascii s \<Longrightarrow> CHR 0x0A \<notin> set (json_escape s)"
  by (induction s) (auto simp: json_escape_Cons no_newline_json_byte)

lemma no_newline_nat_digits: "CHR 0x0A \<notin> set (nat_digits n)"
  using nat_digits_digits [of n] by (auto simp: list_all_iff is_digit_def byte_of_def)

lemma no_newline_enc: "enc_ascii e \<Longrightarrow> CHR 0x0A \<notin> set (enc_text e)"
  by (cases e) (auto simp: json_quote_def no_newline_json_escape itoa_def no_newline_nat_digits
      bool_string_def)

lemma no_newline_join:
  "(\<And>x. x \<in> set xs \<Longrightarrow> c \<notin> set x) \<Longrightarrow> c \<notin> set sep \<Longrightarrow> c \<notin> set (join_with sep xs)"
  by (induction sep xs rule: join_with.induct) auto

lemma no_newline_object:
  assumes "members_ascii ms"
  shows "CHR 0x0A \<notin> set (marshal_object ms)"
proof -
  have "CHR 0x0A \<notin> set (member_text m)" if "m \<in> set ms" for m
    using that assms by (auto simp: member_text_def members_ascii_def list_all_iff json_quote_def
        no_newline_json_escape no_newline_enc)
  then have "CHR 0x0A \<notin> set (join_with [CHR '',''] (map member_text ms))"
    by (intro no_newline_join) auto
  then show ?thesis by (simp add: marshal_object_def)
qed

end
