(* ===== verification/Go_Errors.thy ===== *)
theory Go_Errors
  imports Go_Strings
begin

text \<open>
  Go error values as the program inspects them. An error is a node with the message its
  \<open>Error\<close> method prints, the sentinels it answers to (\<open>errors.Is\<close>: the node is the sentinel or
  its \<open>Is\<close> method accepts it), the \<open>Timeout\<close> method it may have, the QUIC or HTTP/3 error type it
  may be, and the errors it unwraps to. \<open>errors.Is\<close> and \<open>errors.As\<close> walk that tree depth first,
  parent before children. What quic-go prints for its own codes is data of the node, so nothing
  of that library is assumed.
\<close>

datatype sentinel = DeadlineExceeded | Canceled

datatype timeout_method = NoTimeout | TimeoutMethod bool | NetError bool
  \<comment> \<open>no \<open>Timeout\<close> method, only that method, or a \<open>net.Error\<close>\<close>

datatype quic_err =
    NotQuic
  | H3Error string bool string \<comment> \<open>\<open>ErrorCode.String()\<close>, \<open>Remote\<close>, \<open>ErrorMessage\<close>\<close>
  | ApplicationError nat bool string \<comment> \<open>code, \<open>Remote\<close>, \<open>ErrorMessage\<close>\<close>
  | TransportError string bool string \<comment> \<open>\<open>ErrorCode.String()\<close>, \<open>Remote\<close>, \<open>ErrorMessage\<close>\<close>
  | StreamError int nat bool \<comment> \<open>stream id, code, \<open>Remote\<close>\<close>
  | IdleTimeoutError
  | HandshakeTimeoutError

datatype goerr = Err (err_type: quic_err) (err_text: string) (err_is: "sentinel list")
  (err_timeout: timeout_method) (err_inner: "goerr list")

fun err_tree :: "goerr \<Rightarrow> goerr list" where
  "err_tree (Err t x i m es) = Err t x i m es # concat (map err_tree es)"

definition errors_is :: "goerr \<Rightarrow> sentinel \<Rightarrow> bool" where
  "errors_is e s \<longleftrightarrow> list_ex (\<lambda>n. s \<in> set (err_is n)) (err_tree e)"

definition errors_as :: "(goerr \<Rightarrow> bool) \<Rightarrow> goerr \<Rightarrow> goerr option" where
  "errors_as p e = find p (err_tree e)"

definition new_error :: "string \<Rightarrow> goerr" where
  "new_error msg = Err NotQuic msg [] NoTimeout []"

definition wrap_error :: "string \<Rightarrow> goerr \<Rightarrow> goerr" where
  \<comment> \<open>\<open>fmt.Errorf(prefix + "%w", err)\<close>\<close>
  "wrap_error pre e = Err NotQuic (pre @ err_text e) [] NoTimeout [e]"

definition deadline_exceeded :: goerr where
  "deadline_exceeded = Err NotQuic ''context deadline exceeded'' [DeadlineExceeded] (NetError True) []"

definition canceled :: goerr where
  "canceled = Err NotQuic ''context canceled'' [Canceled] NoTimeout []"

lemmas error_defs = new_error_def wrap_error_def deadline_exceeded_def canceled_def

lemma map_sum_Inr: "map_sum f g x = Inr y \<Longrightarrow> (\<And>z. x = Inr z \<Longrightarrow> y = g z \<Longrightarrow> P) \<Longrightarrow> P"
  by (cases x) auto

lemma err_tree_nonempty [simp]: "err_tree e \<noteq> []"
  by (cases e) simp

lemma err_tree_self [simp]: "e \<in> set (err_tree e)"
  by (cases e) simp

lemma err_tree_wrap [simp]:
  "err_tree (wrap_error pre e) = Err NotQuic (pre @ err_text e) [] NoTimeout [e] # err_tree e"
  by (simp add: wrap_error_def)

lemma errors_is_wrap [simp]: "errors_is (wrap_error pre e) s \<longleftrightarrow> errors_is e s"
  by (simp add: errors_is_def)

lemma errors_as_wrap:
  "\<not> p (Err NotQuic (pre @ err_text e) [] NoTimeout [e]) \<Longrightarrow>
     errors_as p (wrap_error pre e) = errors_as p e"
  by (simp add: errors_as_def)

lemma err_text_wrap [simp]: "err_text (wrap_error pre e) = pre @ err_text e"
  by (simp add: wrap_error_def)

section \<open>Contexts\<close>

text \<open>A context is read through \<open>Err()\<close>: nil while it runs, then one of the two sentinels.\<close>

type_synonym ctx_err = "sentinel option"

fun sentinel_error :: "sentinel \<Rightarrow> goerr" where
  "sentinel_error DeadlineExceeded = deadline_exceeded"
| "sentinel_error Canceled = canceled"

end
