(* ===== verification/Tunnelproto.thy ===== *)
theory Tunnelproto
  imports Go_Json Go_Errors
begin

text \<open>
  \<^verbatim>\<open>internal/tunnelproto/proto.go\<close>: the control plane of the edge-connector hop, JSON objects one
  per line. \<open>Write\<close> takes the writer as an argument and hands it the line; \<open>Read\<close> takes the bytes the
  buffered reader still has to deliver and returns the message or the error together with what is
  left. The main lemma is the framing round trip: whatever a peer writes, the other side reads
  back message by message.
\<close>

record Msg =
  msg_T :: string
  msg_Hostname :: string
  msg_HAID :: int
  msg_Reason :: string

definition empty_msg :: Msg where
  "empty_msg = \<lparr>msg_T = '''', msg_Hostname = '''', msg_HAID = 0, msg_Reason = ''''\<rparr>"

definition TypeRegister :: string where "TypeRegister = ''register''"
definition TypePing :: string where "TypePing = ''ping''"
definition TypeUnregister :: string where "TypeUnregister = ''unregister''"

lemmas type_defs = TypeRegister_def TypePing_def TypeUnregister_def

definition msg_members :: "Msg \<Rightarrow> (string \<times> jenc) list" where
  \<comment> \<open>the struct tags: \<open>t\<close> always, the others only where they are not empty\<close>
  "msg_members m =
     [(''t'', EStr (msg_T m))]
     @ (if msg_Hostname m = '''' then [] else [(''hostname'', EStr (msg_Hostname m))])
     @ (if msg_HAID m = 0 then [] else [(''ha_id'', EInt (msg_HAID m))])
     @ (if msg_Reason m = '''' then [] else [(''reason'', EStr (msg_Reason m))])"

definition Write_line :: "Msg \<Rightarrow> string" where
  "Write_line m = marshal_object (msg_members m) @ [CHR 0x0A]"

definition Write :: "(string \<Rightarrow> goerr option) \<Rightarrow> Msg \<Rightarrow> goerr option" where
  "Write w m = w (Write_line m)"

definition msg_fields :: "(string \<times> Msg setter) list" where
  "msg_fields = [(''t'', string_field msg_T_update), (''hostname'', string_field msg_Hostname_update),
     (''ha_id'', int_field msg_HAID_update), (''reason'', string_field msg_Reason_update)]"

datatype read_error = ReadEOF | BadJson | MissingT

definition read_bytes :: "char \<Rightarrow> string \<Rightarrow> (string \<times> string) option" where
  \<comment> \<open>\<open>bufio.Reader.ReadBytes\<close>: the line with its delimiter, or an error where there is none\<close>
  "read_bytes d s = (if d \<in> set s
     then Some (takeWhile (\<lambda>c. c \<noteq> d) s @ [d], tl (dropWhile (\<lambda>c. c \<noteq> d) s)) else None)"

definition Read :: "string \<Rightarrow> (read_error + Msg) \<times> string" where
  "Read s = (case read_bytes (CHR 0x0A) s of None \<Rightarrow> (Inl ReadEOF, [])
     | Some (line, rest) \<Rightarrow>
        (case unmarshal line of None \<Rightarrow> (Inl BadJson, rest)
         | Some v \<Rightarrow> (case decode_struct msg_fields v empty_msg of None \<Rightarrow> (Inl BadJson, rest)
             | Some m \<Rightarrow> if msg_T m = '''' then (Inl MissingT, rest) else (Inr m, rest))))"

definition msg_ascii :: "Msg \<Rightarrow> bool" where
  "msg_ascii m \<longleftrightarrow> ascii (msg_T m) \<and> ascii (msg_Hostname m) \<and> ascii (msg_Reason m)"

lemma msg_members_ascii: "msg_ascii m \<Longrightarrow> members_ascii (msg_members m)"
  by (auto simp: members_ascii_def msg_members_def msg_ascii_def byte_of_def)

lemma field_for_msg [simp]:
  "field_for msg_fields ''t'' = Some (string_field msg_T_update)"
  "field_for msg_fields ''hostname'' = Some (string_field msg_Hostname_update)"
  "field_for msg_fields ''ha_id'' = Some (int_field msg_HAID_update)"
  "field_for msg_fields ''reason'' = Some (string_field msg_Reason_update)"
  by (simp_all add: field_for_def msg_fields_def)

lemma set_members_append:
  "set_members fs (xs @ ys) r = Option.bind (set_members fs xs r) (set_members fs ys)"
  by (induction fs xs r rule: set_members.induct) (auto split: option.splits bind_splits)

lemma decode_msg_members:
  "in_int64 (msg_HAID m) \<Longrightarrow>
     decode_struct msg_fields (JObj (map (\<lambda>(k, e). (k, enc_json e)) (msg_members m))) empty_msg = Some m"
  by (simp add: decode_struct_def msg_members_def empty_msg_def field_defs atoi_itoa)

lemma read_bytes_line:
  "d \<notin> set l \<Longrightarrow> read_bytes d (l @ d # rest) = Some (l @ [d], rest)"
  by (auto simp: read_bytes_def takeWhile_append dropWhile_append dropWhile_eq_Nil_conv)

definition sendable :: "Msg \<Rightarrow> bool" where
  \<comment> \<open>the messages the two peers exchange: ASCII text, a type, a 64-bit HA id\<close>
  "sendable m \<longleftrightarrow> msg_ascii m \<and> msg_T m \<noteq> '''' \<and> in_int64 (msg_HAID m)"

lemma Read_Write_line:
  assumes "sendable m"
  shows "Read (Write_line m @ rest) = (Inr m, rest)"
proof -
  have ms: "members_ascii (msg_members m)" "msg_members m \<noteq> []"
    using assms by (simp_all add: sendable_def msg_members_ascii) (simp add: msg_members_def)
  have "read_bytes (CHR 0x0A) (Write_line m @ rest) = Some (Write_line m, rest)"
    using ms by (simp add: Write_line_def read_bytes_line no_newline_object)
  moreover have "skip_ws [CHR 0x0A] = []"
    by (simp add: skip_ws_def json_ws_def byte_of_consts)
  ultimately show ?thesis
    using ms assms
    by (simp add: Read_def Write_line_def unmarshal_object decode_msg_members sendable_def)
qed

lemma Read_cut_line:
  assumes "sendable m" "strict_prefix p (Write_line m)"
  shows "Read p = (Inl ReadEOF, [])"
proof -
  have "CHR 0x0A \<notin> set (marshal_object (msg_members m))"
    using assms(1) by (simp add: sendable_def msg_members_ascii no_newline_object)
  moreover have "prefix p (marshal_object (msg_members m))"
    using assms(2) by (auto simp: Write_line_def strict_prefix_def)
  ultimately have "CHR 0x0A \<notin> set p" using set_mono_prefix by blast
  then show ?thesis by (simp add: Read_def read_bytes_def)
qed

text \<open>C11: a control message survives the wire, and only whole: whatever message with ASCII text, a
  type and a 64-bit HA id a peer writes, the reader on the other side returns exactly that message
  and leaves the rest of the stream untouched, so messages never run into each other; where the
  stream ends inside the message the reader reports an error and no message.\<close>

theorem read_write_roundtrip:
  assumes "sendable m"
  shows "Read (Write_line m @ rest) = (Inr m, rest)
    \<and> (strict_prefix p (Write_line m) \<longrightarrow> Read p = (Inl ReadEOF, []))"
  using assms by (simp add: Read_Write_line Read_cut_line)

theorem read_write_roundtrip_witness:
  "let m = \<lparr>msg_T = ''register'', msg_Hostname = ''local'', msg_HAID = 3, msg_Reason = ''''\<rparr> in
   Read (Write_line m @ ''x'') = (Inr m, ''x'') \<and> Read (butlast (Write_line m)) = (Inl ReadEOF, [])"
proof -
  define m :: Msg where "m = \<lparr>msg_T = ''register'', msg_Hostname = ''local'', msg_HAID = 3, msg_Reason = ''''\<rparr>"
  have "sendable m" by (simp add: m_def sendable_def msg_ascii_def byte_of_def int64_defs)
  moreover have "strict_prefix (butlast (Write_line m)) (Write_line m)"
    by (simp add: Write_line_def strict_prefix_def)
  ultimately show ?thesis
    using read_write_roundtrip [of m "''x''" "butlast (Write_line m)"] by (simp add: m_def Let_def)
qed

lemma Read_rest_shorter: "Read s = (Inr m, r) \<Longrightarrow> length r < length s"
proof -
  assume "Read s = (Inr m, r)"
  then obtain l where "read_bytes (CHR 0x0A) s = Some (l, r)"
    by (auto simp: Read_def split: option.splits if_splits)
  then have "CHR 0x0A \<in> set s" and r: "r = tl (dropWhile (\<lambda>c. c \<noteq> CHR 0x0A) s)"
    by (auto simp: read_bytes_def split: if_splits)
  moreover have "length (dropWhile (\<lambda>c. c \<noteq> CHR 0x0A) s) \<le> length s"
    by (rule length_dropWhile_le)
  ultimately show ?thesis
    by (cases "dropWhile (\<lambda>c. c \<noteq> CHR 0x0A) s") (auto simp: dropWhile_eq_Nil_conv)
qed

interpretation control: line_protocol Write_line Read sendable
proof unfold_locales
  show "sendable m \<Longrightarrow> Read (Write_line m @ rest) = (Inr m, rest)" for m rest by (rule Read_Write_line)
  show "sendable m \<Longrightarrow> strict_prefix p (Write_line m) \<Longrightarrow> \<exists>e rest. Read p = (Inl e, rest)" for m p
    using Read_cut_line by blast
  show "\<exists>e rest. Read [] = (Inl e, rest)" by (simp add: Read_def read_bytes_def)
qed (rule Read_rest_shorter)

end
