(* ===== verification/Quicerr.thy ===== *)
theory Quicerr
  imports Go_Errors
begin

text \<open>
  \<^verbatim>\<open>internal/quicerr/quicerr.go\<close>: an error becomes a stable label and a detail string, so that
  disconnect reasons can be counted. The definitions follow \<open>Classify\<close>, \<open>classifyQUIC\<close>,
  \<open>classifyFallback\<close> and \<open>CloseReason\<close> test by test. The lemmas show that the labels are pairwise
  distinct, that only a nil error is labelled \<open>none\<close>, and that wrapping an error on its way up
  keeps its label.
\<close>

datatype kind =
    KindNone | KindIdleTimeout | KindHandshake | KindStatelessReset | KindVersionNegot
  | KindTransportError | KindApplicationErr | KindStreamReset | KindHTTP3 | KindDeadline
  | KindCanceled | KindNetworkTimeout | KindConnRefused | KindBufferPressure | KindUnknown

fun kind_string :: "kind \<Rightarrow> string" where
  "kind_string KindNone = ''none''"
| "kind_string KindIdleTimeout = ''quic_idle_timeout''"
| "kind_string KindHandshake = ''quic_handshake_failure''"
| "kind_string KindStatelessReset = ''quic_stateless_reset''"
| "kind_string KindVersionNegot = ''quic_version_negotiation''"
| "kind_string KindTransportError = ''quic_transport_error''"
| "kind_string KindApplicationErr = ''quic_application_error''"
| "kind_string KindStreamReset = ''quic_stream_reset''"
| "kind_string KindHTTP3 = ''http3_error''"
| "kind_string KindDeadline = ''client_deadline''"
| "kind_string KindCanceled = ''client_canceled''"
| "kind_string KindNetworkTimeout = ''network_timeout''"
| "kind_string KindConnRefused = ''connection_refused''"
| "kind_string KindBufferPressure = ''udp_buffer_pressure''"
| "kind_string KindUnknown = ''unknown''"

definition is_h3 :: "goerr \<Rightarrow> bool" where
  "is_h3 e \<longleftrightarrow> (case err_type e of H3Error _ _ _ \<Rightarrow> True | _ \<Rightarrow> False)"

definition is_app :: "goerr \<Rightarrow> bool" where
  "is_app e \<longleftrightarrow> (case err_type e of ApplicationError _ _ _ \<Rightarrow> True | _ \<Rightarrow> False)"

definition is_transport :: "goerr \<Rightarrow> bool" where
  "is_transport e \<longleftrightarrow> (case err_type e of TransportError _ _ _ \<Rightarrow> True | _ \<Rightarrow> False)"

definition is_stream :: "goerr \<Rightarrow> bool" where
  "is_stream e \<longleftrightarrow> (case err_type e of StreamError _ _ _ \<Rightarrow> True | _ \<Rightarrow> False)"

definition is_idle :: "goerr \<Rightarrow> bool" where
  "is_idle e \<longleftrightarrow> err_type e = IdleTimeoutError"

definition is_handshake :: "goerr \<Rightarrow> bool" where
  "is_handshake e \<longleftrightarrow> err_type e = HandshakeTimeoutError"

lemmas is_quic_defs = is_h3_def is_app_def is_transport_def is_stream_def is_idle_def
  is_handshake_def

definition has :: "(goerr \<Rightarrow> bool) \<Rightarrow> goerr \<Rightarrow> bool" where
  "has p e \<longleftrightarrow> errors_as p e \<noteq> None"

fun quic_detail :: "quic_err \<Rightarrow> string" where
  "quic_detail NotQuic = ''''"
| "quic_detail (H3Error code remote msg) =
     ''code='' @ code @ '' remote='' @ bool_string remote @ '' msg='' @ go_quote msg"
| "quic_detail (ApplicationError code remote msg) =
     ''code=0x'' @ nat_hex code @ '' remote='' @ bool_string remote @ '' reason='' @ go_quote msg"
| "quic_detail (TransportError code remote msg) =
     ''code='' @ code @ '' remote='' @ bool_string remote @ '' reason='' @ go_quote msg"
| "quic_detail (StreamError sid code remote) =
     ''stream='' @ itoa sid @ '' code=0x'' @ nat_hex code @ '' remote='' @ bool_string remote"
| "quic_detail IdleTimeoutError = ''no recent network activity within max_idle_timeout''"
| "quic_detail HandshakeTimeoutError = ''handshake did not complete in time''"

definition classifyQUIC :: "goerr \<Rightarrow> (kind \<times> string) option" where
  "classifyQUIC err =
     (case errors_as is_h3 err of Some e \<Rightarrow> Some (KindHTTP3, quic_detail (err_type e))
      | None \<Rightarrow>
     (case errors_as is_app err of Some e \<Rightarrow> Some (KindApplicationErr, quic_detail (err_type e))
      | None \<Rightarrow>
     (case errors_as is_transport err of
        Some e \<Rightarrow> Some (KindTransportError, quic_detail (err_type e))
      | None \<Rightarrow>
     (case errors_as is_stream err of Some e \<Rightarrow> Some (KindStreamReset, quic_detail (err_type e))
      | None \<Rightarrow>
     (case errors_as is_idle err of Some e \<Rightarrow> Some (KindIdleTimeout, quic_detail (err_type e))
      | None \<Rightarrow>
     (case errors_as is_handshake err of
        Some e \<Rightarrow> Some (KindHandshake, quic_detail (err_type e))
      | None \<Rightarrow> None))))))"

definition is_net_error :: "goerr \<Rightarrow> bool" where
  "is_net_error e \<longleftrightarrow> (case err_timeout e of NetError _ \<Rightarrow> True | _ \<Rightarrow> False)"

definition timeout_of :: "goerr \<Rightarrow> bool" where
  "timeout_of e \<longleftrightarrow> (case err_timeout e of NoTimeout \<Rightarrow> False | TimeoutMethod b \<Rightarrow> b | NetError b \<Rightarrow> b)"

definition classifyFallback :: "goerr \<Rightarrow> kind \<times> string" where
  "classifyFallback err =
     (if errors_is err DeadlineExceeded then (KindDeadline, err_text err)
      else if errors_is err Canceled then (KindCanceled, err_text err)
      else let msg = err_text err in
        if contains msg ''stateless reset'' then (KindStatelessReset, msg)
        else if contains msg ''no compatible QUIC version'' then (KindVersionNegot, msg)
        else if contains msg ''connection refused'' then (KindConnRefused, msg)
        else if contains msg ''no buffer space'' \<or> contains msg ''buffer size''
          then (KindBufferPressure, msg)
        else (case errors_as is_net_error err of
            Some e \<Rightarrow> if timeout_of e then (KindNetworkTimeout, msg) else (KindUnknown, msg)
          | None \<Rightarrow> (KindUnknown, msg)))"

definition Classify :: "goerr option \<Rightarrow> kind \<times> string" where
  "Classify err = (case err of None \<Rightarrow> (KindNone, '''')
     | Some e \<Rightarrow> (case classifyQUIC e of Some r \<Rightarrow> r | None \<Rightarrow> classifyFallback e))"

definition CloseReason :: "goerr option \<Rightarrow> kind \<times> string" where
  \<comment> \<open>the argument is \<open>context.Cause(ctx)\<close>\<close>
  "CloseReason cause = (case cause of None \<Rightarrow> (KindNone, ''closed locally'')
     | Some e \<Rightarrow> if errors_is e Canceled then (KindNone, ''closed locally'') else Classify cause)"

section \<open>Lemmas\<close>

lemma errors_as_wrap_quic [simp]:
  "errors_as is_h3 (wrap_error pre e) = errors_as is_h3 e"
  "errors_as is_app (wrap_error pre e) = errors_as is_app e"
  "errors_as is_transport (wrap_error pre e) = errors_as is_transport e"
  "errors_as is_stream (wrap_error pre e) = errors_as is_stream e"
  "errors_as is_idle (wrap_error pre e) = errors_as is_idle e"
  "errors_as is_handshake (wrap_error pre e) = errors_as is_handshake e"
  "errors_as is_net_error (wrap_error pre e) = errors_as is_net_error e"
  by (simp_all add: errors_as_wrap is_quic_defs is_net_error_def)

lemma classifyQUIC_wrap [simp]: "classifyQUIC (wrap_error pre e) = classifyQUIC e"
  unfolding classifyQUIC_def errors_as_wrap_quic ..

lemma classifyQUIC_kind:
  "classifyQUIC e = Some (k, d) \<Longrightarrow>
     k \<in> {KindHTTP3, KindApplicationErr, KindTransportError, KindStreamReset, KindIdleTimeout,
       KindHandshake}"
  by (auto simp: classifyQUIC_def split: option.splits)

lemma classifyFallback_kind: "fst (classifyFallback e) \<noteq> KindNone"
  by (auto simp: classifyFallback_def Let_def split: option.splits)

lemma Classify_Some_not_none: "fst (Classify (Some e)) \<noteq> KindNone"
  using classifyQUIC_kind [of e] classifyFallback_kind [of e]
  by (auto simp: Classify_def split: option.splits)

lemma kind_string_inj: "kind_string a = kind_string b \<longleftrightarrow> a = b"
  by (cases a; cases b) simp_all

lemma Classify_quic: "classifyQUIC e = Some r \<Longrightarrow> Classify (Some e) = r"
  by (simp add: Classify_def)

lemma CloseReason_Some:
  "CloseReason (Some e) = (if errors_is e Canceled then (KindNone, ''closed locally'')
     else Classify (Some e))"
  by (simp add: CloseReason_def)

section \<open>Properties\<close>

text \<open>The label a run counts under is \<open>none\<close> exactly where there was no error: no failure is
  ever filed under the label of a success, whatever the error's type, sentinels or message.\<close>

lemma classify_label_none_iff:
  "kind_string (fst (Classify err)) = kind_string KindNone \<longleftrightarrow> err = None"
  by (cases err) (simp_all add: kind_string_inj Classify_Some_not_none del: kind_string.simps,
      simp add: Classify_def)

text \<open>C40: labels are stable on the way up: wrapping an error with \<open>fmt.Errorf\<close> keeps its label
  when the label came from a QUIC or HTTP/3 error type or from a context sentinel anywhere in the
  error's tree. The detail of a QUIC error is kept too.\<close>

theorem classify_stable_under_wrap:
  assumes "classifyQUIC e \<noteq> None \<or> errors_is e DeadlineExceeded \<or> errors_is e Canceled"
  shows "fst (Classify (Some (wrap_error pre e))) = fst (Classify (Some e))
    \<and> (classifyQUIC e \<noteq> None \<longrightarrow> Classify (Some (wrap_error pre e)) = Classify (Some e))"
  using assms by (auto simp: Classify_def classifyFallback_def split: option.splits)

theorem classify_stable_under_wrap_witness:
  "Classify (Some (wrap_error ''dial edge: '' (Err IdleTimeoutError ''timeout'' [] (NetError True) [])))
     = (KindIdleTimeout, ''no recent network activity within max_idle_timeout'')"
proof -
  let ?e = "Err IdleTimeoutError ''timeout'' [] (NetError True) []"
  have q: "classifyQUIC ?e = Some (KindIdleTimeout, quic_detail IdleTimeoutError)"
    by (simp add: classifyQUIC_def errors_as_def is_quic_defs)
  then show ?thesis
    using classify_stable_under_wrap [of ?e "''dial edge: ''"] by (simp add: Classify_def)
qed

text \<open>A closed connection is reported as closed locally exactly when its context has no cause
  or was cancelled; every other cause gets the label and detail of the error classifier, which is
  then never \<open>none\<close>.\<close>

lemma close_reason_local_iff:
  "(fst (CloseReason cause) = KindNone \<longleftrightarrow>
      (case cause of None \<Rightarrow> True | Some e \<Rightarrow> errors_is e Canceled))
   \<and> (fst (CloseReason cause) \<noteq> KindNone \<longrightarrow> CloseReason cause = Classify cause)"
  by (cases cause) (auto simp: CloseReason_Some Classify_Some_not_none CloseReason_def)

end
