(* ===== verification/Edge_Registry.thy ===== *)
theory Edge_Registry
  imports Tunnelproto Quicerr
begin

unbundle bit_operations_syntax

text \<open>
  The tunnel side of \<^verbatim>\<open>internal/edge/edge.go\<close>: the table of connectors, the control messages that
  change it, and the choice of a connector for a request. The state is the \<open>Edge\<close> struct; a QUIC
  connection is its pointer, a number. Every operation of the code that takes the lock is one
  function here, with the clock reading as an argument, so that any interleaving of the goroutines
  is a sequence of these functions: \<open>edge_step\<close> is that relation, and \<open>edge_inv\<close> the invariant of its
  reachable states. \<open>registry\<close> is the interface the control plane relies on, a partial map from
  connector ids to their entries; the table of the code is interpreted as one.
\<close>

section \<open>State\<close>

record edge_config =
  publicAddr :: string
  tunnelAddr :: string
  certDir :: string
  originTimeout :: duration
  maxIdle :: duration
  keepAlive :: duration
  tunnelMaxIdle :: duration
  tunnelKeepAlive :: duration
  tunnelLB :: string
  edge_recvBuf :: int
  edge_sendBuf :: int
  edge_statsEvery :: duration
  edge_qlogDir :: string

record connectorRef =
  cr_id :: u64
  cr_conn :: nat
  registered :: bool
  lastPing :: gotime
  hostname :: string
  haID :: int

record Edge =
  edge_cfg :: edge_config
  connectors :: "connectorRef list"
  rr :: u64
  nextConnectorID :: u64

definition default_edge_config :: edge_config where
  \<comment> \<open>the defaults of the command line flags\<close>
  "default_edge_config = \<lparr>publicAddr = '':8443'', tunnelAddr = '':7844'', certDir = ''/certs'',
     originTimeout = 10 * second, maxIdle = 30 * second, keepAlive = 0,
     tunnelMaxIdle = 30 * second, tunnelKeepAlive = 5 * second, tunnelLB = ''rr'',
     edge_recvBuf = 0, edge_sendBuf = 0, edge_statsEvery = 10 * second, edge_qlogDir = ''''\<rparr>"

definition edge_check_config :: "edge_config \<Rightarrow> goerr + edge_config" where
  \<comment> \<open>what \<open>Main\<close> checks after parsing the flags\<close>
  "edge_check_config cfg = (if tunnelLB cfg \<noteq> ''rr'' \<and> tunnelLB cfg \<noteq> ''hash''
     then Inl (new_error ''-tunnel-lb must be rr or hash'') else Inr cfg)"

definition new_edge :: "edge_config \<Rightarrow> Edge" where
  "new_edge cfg = \<lparr>edge_cfg = cfg, connectors = [], rr = 0, nextConnectorID = 0\<rparr>"

section \<open>The table of connectors\<close>

definition addConnector :: "nat \<Rightarrow> Edge \<Rightarrow> Edge" where
  "addConnector conn e = e\<lparr>nextConnectorID := nextConnectorID e + 1,
     connectors := connectors e @ [\<lparr>cr_id = nextConnectorID e + 1, cr_conn = conn,
       registered = False, lastPing = None, hostname = '''', haID = 0\<rparr>]\<rparr>"

fun remove_conn :: "nat \<Rightarrow> connectorRef list \<Rightarrow> connectorRef list" where
  \<comment> \<open>the loop of \<open>watchLost\<close>: drop the first entry with this connection\<close>
  "remove_conn conn [] = []"
| "remove_conn conn (c # cs) = (if cr_conn c = conn then cs else c # remove_conn conn cs)"

definition watchLost :: "nat \<Rightarrow> Edge \<Rightarrow> Edge" where
  "watchLost conn e = e\<lparr>connectors := remove_conn conn (connectors e)\<rparr>"

fun update_first :: "u64 \<Rightarrow> (connectorRef \<Rightarrow> connectorRef) \<Rightarrow> connectorRef list \<Rightarrow> connectorRef list" where
  "update_first i fn [] = []"
| "update_first i fn (c # cs) = (if cr_id c = i then fn c # cs else c # update_first i fn cs)"

definition updateConnector :: "u64 \<Rightarrow> (connectorRef \<Rightarrow> connectorRef) \<Rightarrow> Edge \<Rightarrow> Edge" where
  "updateConnector i fn e = e\<lparr>connectors := update_first i fn (connectors e)\<rparr>"

section \<open>Control messages\<close>

definition control_failed :: "u64 \<Rightarrow> Edge \<Rightarrow> Edge" where
  \<comment> \<open>\<open>serveControl\<close> when the read of a control message fails\<close>
  "control_failed i e = updateConnector i (\<lambda>c. c\<lparr>registered := False\<rparr>) e"

definition control_update :: "int \<Rightarrow> Msg \<Rightarrow> connectorRef \<Rightarrow> connectorRef" where
  \<comment> \<open>the closures \<open>serveControl\<close> passes to \<open>updateConnector\<close>, by message type\<close>
  "control_update now m c =
     (if msg_T m = TypeRegister then c\<lparr>registered := True, lastPing := Some now,
        hostname := msg_Hostname m, haID := msg_HAID m\<rparr>
      else if msg_T m = TypePing then c\<lparr>lastPing := Some now\<rparr>
      else if msg_T m = TypeUnregister then c\<lparr>registered := False\<rparr>
      else c)"

definition control_message :: "int \<Rightarrow> u64 \<Rightarrow> Msg \<Rightarrow> Edge \<Rightarrow> Edge" where
  \<comment> \<open>a message of any other type calls nothing\<close>
  "control_message now i m e =
     (if msg_T m \<in> {TypeRegister, TypePing, TypeUnregister}
      then updateConnector i (control_update now m) e else e)"

function serveControl :: "(nat \<Rightarrow> int) \<Rightarrow> nat \<Rightarrow> u64 \<Rightarrow> string \<Rightarrow> Edge \<Rightarrow> Edge" where
  \<comment> \<open>the whole loop of one control stream; the clock gives the time of each message\<close>
  "serveControl clock k i s e =
     (case Read s of (Inl _, _) \<Rightarrow> control_failed i e
      | (Inr m, rest) \<Rightarrow> serveControl clock (Suc k) i rest (control_message (clock k) i m e))"
  by pat_completeness auto
termination
  by (relation "measure (\<lambda>(clock, k, i, s, e). length s)") (auto dest: Read_rest_shorter sym)

declare serveControl.simps [simp del]

section \<open>Liveness and the choice of a connector\<close>

definition staleAfter :: "edge_config \<Rightarrow> duration" where
  "staleAfter cfg = (if tunnelKeepAlive cfg \<le> 0 then 0 else wrap64 (3 * tunnelKeepAlive cfg))"

definition live :: "connectorRef \<Rightarrow> int \<Rightarrow> duration \<Rightarrow> bool" where
  "live c now stale =
     (if \<not> registered c then False
      else if stale \<le> 0 then True
      else (case lastPing c of None \<Rightarrow> True | Some p \<Rightarrow> time_sub now p < stale))"

definition live_connectors :: "int \<Rightarrow> Edge \<Rightarrow> connectorRef list" where
  "live_connectors now e = filter (\<lambda>c. live c now (staleAfter (edge_cfg e))) (connectors e)"

definition Registered :: "int \<Rightarrow> Edge \<Rightarrow> int" where
  \<comment> \<open>\<open>registeredLocked\<close> counts the live entries one by one\<close>
  "Registered now e = int (length (live_connectors now e))"

definition fnv_step :: "u32 \<Rightarrow> char \<Rightarrow> u32" where
  "fnv_step h c = (h XOR of_nat (byte_of c)) * 16777619"

definition fnv32a :: "string \<Rightarrow> u32" where
  \<comment> \<open>\<open>hash/fnv\<close>, 32-bit FNV-1a\<close>
  "fnv32a key = foldl fnv_step 2166136261 key"

definition rr_pick :: "nat \<Rightarrow> u64 \<Rightarrow> nat \<times> u64" where
  \<comment> \<open>\<open>(rr.Add(1) - 1) % uint64(n)\<close>: the counter is advanced, its old value decides\<close>
  "rr_pick n c = (unat ((c + 1 - 1) mod of_nat n), c + 1)"

definition pickConnectorIndex :: "int \<Rightarrow> string \<Rightarrow> string \<Rightarrow> u64 \<Rightarrow> (int \<times> u64) panicking" where
  "pickConnectorIndex n key mode c =
     (if n \<le> 0 then Done (0, c)
      else if mode = ''hash'' \<and> key \<noteq> ''''
        then (if (of_int n :: u32) = 0 then Panic ''integer divide by zero''
              else Done (uint (fnv32a key mod of_int n), c))
      else Done (int (fst (rr_pick (nat n) c)), snd (rr_pick (nat n) c)))"

definition pickConnector :: "int \<Rightarrow> string \<Rightarrow> Edge \<Rightarrow> (connectorRef option \<times> Edge) panicking" where
  "pickConnector now key e =
     (let lv = live_connectors now e in
      if lv = [] then Done (None, e)
      else case pickConnectorIndex (int (length lv)) key (tunnelLB (edge_cfg e)) (rr e) of
          Panic p \<Rightarrow> Panic p
        | Done (i, c) \<Rightarrow> if 0 \<le> i \<and> nat i < length lv then Done (Some (lv ! nat i), e\<lparr>rr := c\<rparr>)
            else Panic ''index out of range'')"

fun WaitRegistered :: "int list \<Rightarrow> int \<Rightarrow> sentinel \<Rightarrow> goerr option" where
  \<comment> \<open>the counts the polls see, one per tick; the context is done, with the given error, when they
    run out\<close>
  "WaitRegistered [] n ctx =
     Some (wrap_error (''waiting for '' @ itoa n @ '' registered connectors: '') (sentinel_error ctx))"
| "WaitRegistered (cnt # cnts) n ctx =
     (if n \<le> cnt then None else WaitRegistered cnts n ctx)"

section \<open>The registry interface\<close>

definition keeps_identity :: "(connectorRef \<Rightarrow> connectorRef) \<Rightarrow> bool" where
  \<comment> \<open>what a closure passed to \<open>updateConnector\<close> may change: not the id, not the connection, and it
    does not mark an entry registered without a ping time\<close>
  "keeps_identity fn \<longleftrightarrow> (\<forall>c. cr_id (fn c) = cr_id c \<and> cr_conn (fn c) = cr_conn c \<and>
     (registered (fn c) \<and> lastPing (fn c) = None \<longrightarrow> registered c \<and> lastPing c = None))"

lemma keeps_identity_simps:
  "keeps_identity fn \<Longrightarrow> cr_id (fn c) = cr_id c" "keeps_identity fn \<Longrightarrow> cr_conn (fn c) = cr_conn c"
  by (simp_all add: keeps_identity_def)

lemma keeps_identity_ping:
  "keeps_identity fn \<Longrightarrow> registered c \<longrightarrow> lastPing c \<noteq> None \<Longrightarrow> registered (fn c) \<Longrightarrow> lastPing (fn c) \<noteq> None"
  by (metis keeps_identity_def)

locale registry =
  fixes lookup :: "'e \<Rightarrow> u64 \<Rightarrow> connectorRef option"
    and add :: "nat \<Rightarrow> 'e \<Rightarrow> 'e"
    and new_id :: "'e \<Rightarrow> u64"
    and can_add :: "nat \<Rightarrow> 'e \<Rightarrow> bool"
    and upd :: "u64 \<Rightarrow> (connectorRef \<Rightarrow> connectorRef) \<Rightarrow> 'e \<Rightarrow> 'e"
    and del :: "nat \<Rightarrow> 'e \<Rightarrow> 'e"
    and inv :: "'e \<Rightarrow> bool"
  assumes lookup_add: "inv e \<Longrightarrow> can_add conn e \<Longrightarrow> lookup (add conn e) j = (if j = new_id e
      then Some \<lparr>cr_id = j, cr_conn = conn, registered = False, lastPing = None, hostname = '''',
        haID = 0\<rparr> else lookup e j)"
    and lookup_upd: "inv e \<Longrightarrow> keeps_identity fn \<Longrightarrow>
      lookup (upd i fn e) j = (if j = i then map_option fn (lookup e j) else lookup e j)"
    and lookup_del: "inv e \<Longrightarrow> lookup (del conn e) j =
      (case lookup e j of None \<Rightarrow> None | Some c \<Rightarrow> if cr_conn c = conn then None else Some c)"
    and inv_add: "inv e \<Longrightarrow> can_add conn e \<Longrightarrow> inv (add conn e)"
    and inv_upd: "inv e \<Longrightarrow> keeps_identity fn \<Longrightarrow> inv (upd i fn e)"
    and inv_del: "inv e \<Longrightarrow> inv (del conn e)"
    and inv_ping: "inv e \<Longrightarrow> lookup e i = Some c \<Longrightarrow> registered c \<Longrightarrow> lastPing c \<noteq> None"
begin

lemma upd_after_del:
  assumes "inv e" "lookup e i = Some c" "keeps_identity fn"
  shows "lookup (upd i fn (del (cr_conn c) e)) i = None"
  using assms by (simp add: lookup_upd lookup_del inv_del)

lemma upd_del_commute:
  assumes "inv e" "keeps_identity fn"
  shows "lookup (upd i fn (del conn e)) j = lookup (del conn (upd i fn e)) j"
  using assms by (simp add: lookup_upd lookup_del inv_del inv_upd keeps_identity_simps
      split: option.split)

lemma live_looked_up:
  assumes "inv e" "lookup e i = Some c"
  shows "live c now stale \<longleftrightarrow>
    registered c \<and> (stale \<le> 0 \<or> (\<exists>p. lastPing c = Some p \<and> time_sub now p < stale))"
  using inv_ping [OF assms] by (auto simp: live_def split: option.splits)

lemma new_entry_not_live:
  assumes "inv e" "can_add conn e" "lookup (add conn e) (new_id e) = Some c"
  shows "\<not> live c now stale"
  using assms by (auto simp: lookup_add live_def)

end

section \<open>The code's table is a registry\<close>

definition lookup_connector :: "Edge \<Rightarrow> u64 \<Rightarrow> connectorRef option" where
  "lookup_connector e i = find (\<lambda>c. cr_id c = i) (connectors e)"

definition fresh_id :: "Edge \<Rightarrow> u64" where
  "fresh_id e = nextConnectorID e + 1"

definition can_add :: "nat \<Rightarrow> Edge \<Rightarrow> bool" where
  \<comment> \<open>a new connection has a pointer of its own, and fewer than 2 to the 64 were accepted\<close>
  "can_add conn e \<longleftrightarrow> conn \<notin> cr_conn ` set (connectors e) \<and> nextConnectorID e \<noteq> - 1"

definition edge_inv :: "Edge \<Rightarrow> bool" where
  "edge_inv e \<longleftrightarrow> distinct (map cr_id (connectors e)) \<and> distinct (map cr_conn (connectors e))
     \<and> (\<forall>c\<in>set (connectors e). cr_id c \<le> nextConnectorID e \<and> (registered c \<longrightarrow> lastPing c \<noteq> None))"

lemma find_append: "find P (xs @ ys) = (case find P xs of Some x \<Rightarrow> Some x | None \<Rightarrow> find P ys)"
  by (induction xs) auto

lemma word_less_Suc: "n \<noteq> - 1 \<Longrightarrow> x \<le> n \<Longrightarrow> x < n + 1" for x n :: u64
proof -
  assume "n \<noteq> - 1" and le: "x \<le> n"
  then have "unat (n + 1) = Suc (unat n)"
    by (metis add.commute eq_neg_iff_add_eq_0 unatSuc)
  then show "x < n + 1" using le by (simp add: word_less_nat_alt word_le_nat_alt)
qed

lemma find_update_first:
  assumes "keeps_identity fn" "distinct (map cr_id cs)"
  shows "find (\<lambda>c. cr_id c = j) (update_first i fn cs)
    = (if j = i then map_option fn (find (\<lambda>c. cr_id c = j) cs) else find (\<lambda>c. cr_id c = j) cs)"
  using assms by (induction cs) (auto simp: keeps_identity_simps)

lemma map_update_first:
  "keeps_identity fn \<Longrightarrow> map cr_id (update_first i fn cs) = map cr_id cs
     \<and> map cr_conn (update_first i fn cs) = map cr_conn cs"
  by (induction cs) (auto simp: keeps_identity_simps)

lemma set_update_first: "c \<in> set (update_first i fn cs) \<Longrightarrow> c \<in> set cs \<or> (\<exists>d\<in>set cs. c = fn d)"
  by (induction cs) (auto split: if_splits)

lemma remove_conn_filter:
  "distinct (map cr_conn cs) \<Longrightarrow> remove_conn conn cs = filter (\<lambda>c. cr_conn c \<noteq> conn) cs"
proof (induction cs)
  case (Cons c cs)
  show ?case
  proof (cases "cr_conn c = conn")
    case True
    with Cons.prems have "\<forall>d\<in>set cs. cr_conn d \<noteq> conn" by (auto simp: image_iff)
    then have "filter (\<lambda>d. cr_conn d \<noteq> conn) cs = cs" by (simp add: filter_id_conv)
    with True show ?thesis by simp
  qed (use Cons in simp)
qed simp

lemma find_filter_distinct:
  "distinct (map cr_id cs) \<Longrightarrow> find (\<lambda>c. cr_id c = j) (filter P cs)
     = (case find (\<lambda>c. cr_id c = j) cs of None \<Rightarrow> None | Some c \<Rightarrow> if P c then Some c else None)"
proof (induction cs)
  case (Cons c cs)
  show ?case
  proof (cases "cr_id c = j")
    case True
    with Cons.prems have "find (\<lambda>c. cr_id c = j) cs = None"
      by (auto simp: find_None_iff image_iff)
    with True Cons show ?thesis by simp
  qed (use Cons in simp)
qed simp

lemma edge_inv_add:
  assumes "edge_inv e" "can_add conn e"
  shows "edge_inv (addConnector conn e)"
proof -
  have ids: "cr_id c < nextConnectorID e + 1" if "c \<in> set (connectors e)" for c
    using that assms word_less_Suc by (simp add: edge_inv_def can_add_def)
  then have "nextConnectorID e + 1 \<notin> cr_id ` set (connectors e)" by fastforce
  moreover have "\<forall>c\<in>set (connectors e). cr_id c \<le> nextConnectorID e + 1"
    using ids by (simp add: order_less_imp_le)
  ultimately show ?thesis
    using assms by (simp add: edge_inv_def can_add_def addConnector_def)
qed

lemma edge_inv_upd:
  assumes "edge_inv e" "keeps_identity fn"
  shows "edge_inv (updateConnector i fn e)"
proof -
  have "cr_id c \<le> nextConnectorID e \<and> (registered c \<longrightarrow> lastPing c \<noteq> None)"
    if "c \<in> set (update_first i fn (connectors e))" for c
    using set_update_first [OF that] assms keeps_identity_ping [OF assms(2)]
    by (auto simp: edge_inv_def keeps_identity_simps)
  then show ?thesis
    using assms by (simp add: edge_inv_def updateConnector_def map_update_first)
qed

lemma edge_inv_del: "edge_inv e \<Longrightarrow> edge_inv (watchLost conn e)"
  by (auto simp: edge_inv_def watchLost_def remove_conn_filter distinct_map_filter)

interpretation reg: registry lookup_connector addConnector fresh_id can_add updateConnector
  watchLost edge_inv
proof unfold_locales
  fix e :: Edge and conn j
  assume e: "edge_inv e"
  show "lookup_connector (watchLost conn e) j = (case lookup_connector e j of None \<Rightarrow> None
      | Some c \<Rightarrow> if cr_conn c = conn then None else Some c)"
    using e by (simp add: edge_inv_def lookup_connector_def watchLost_def remove_conn_filter
        find_filter_distinct cong: option.case_cong) (simp split: option.split)
  show "edge_inv (watchLost conn e)" using e by (rule edge_inv_del)
next
  fix e :: Edge and conn j
  assume e: "edge_inv e" and a: "can_add conn e"
  show "edge_inv (addConnector conn e)" using e a by (rule edge_inv_add)
  have "cr_id c < nextConnectorID e + 1" if "c \<in> set (connectors e)" for c
    using that e a word_less_Suc by (simp add: edge_inv_def can_add_def)
  then have "find (\<lambda>c. cr_id c = nextConnectorID e + 1) (connectors e) = None"
    by (fastforce simp: find_None_iff)
  then show "lookup_connector (addConnector conn e) j = (if j = fresh_id e
      then Some \<lparr>cr_id = j, cr_conn = conn, registered = False, lastPing = None, hostname = '''',
        haID = 0\<rparr> else lookup_connector e j)"
    by (auto simp: lookup_connector_def addConnector_def fresh_id_def find_append split: option.split)
next
  fix e :: Edge and fn i j
  assume e: "edge_inv e" and fn: "keeps_identity fn"
  show "edge_inv (updateConnector i fn e)" using e fn by (rule edge_inv_upd)
  show "lookup_connector (updateConnector i fn e) j =
      (if j = i then map_option fn (lookup_connector e j) else lookup_connector e j)"
    using e fn by (simp add: lookup_connector_def updateConnector_def find_update_first edge_inv_def)
next
  fix e :: Edge and i c
  assume "edge_inv e" "lookup_connector e i = Some c" "registered c"
  then show "lastPing c \<noteq> None"
    by (auto simp: edge_inv_def lookup_connector_def find_Some_iff)
qed

section \<open>Runs of the edge\<close>

inductive edge_step :: "Edge \<Rightarrow> Edge \<Rightarrow> bool" where
  accept: "can_add conn e \<Longrightarrow> edge_step e (addConnector conn e)"
| message: "edge_step e (control_message now i m e)"
| failed: "edge_step e (control_failed i e)"
| lost: "edge_step e (watchLost conn e)"
| request: "pickConnector now key e = Done (r, e') \<Longrightarrow> edge_step e e'"

inductive_cases edge_stepE: "edge_step e e'"

definition edge_start :: "Edge \<Rightarrow> bool" where
  "edge_start e \<longleftrightarrow> (\<exists>cfg. e = new_edge cfg)"

lemma keeps_identity_control [simp]: "keeps_identity (control_update now m)"
  by (simp add: keeps_identity_def control_update_def)

lemma keeps_identity_unregister [simp]: "keeps_identity (\<lambda>c. c\<lparr>registered := False\<rparr>)"
  by (simp add: keeps_identity_def)

lemma pickConnector_frame:
  "pickConnector now key e = Done (r, e') \<Longrightarrow> \<exists>c. e' = e\<lparr>rr := c\<rparr>"
  by (auto simp: pickConnector_def Let_def split: if_splits panicking.splits)
    (metis Edge.surjective Edge.update_convs(3))

lemma edge_inv_rr [simp]: "edge_inv (e\<lparr>rr := c\<rparr>) = edge_inv e"
  by (simp add: edge_inv_def)

lemma edge_inv_step: "edge_inv e \<Longrightarrow> edge_step e e' \<Longrightarrow> edge_inv e'"
  by (erule edge_stepE)
    (auto simp: control_message_def control_failed_def
      intro: edge_inv_add edge_inv_upd edge_inv_del dest: pickConnector_frame)

lemma edge_inv_start: "edge_start e \<Longrightarrow> edge_inv e"
  by (auto simp: edge_start_def new_edge_def edge_inv_def)

interpretation edge_sys: transition_system edge_start edge_step edge_inv
  by unfold_locales (auto intro: edge_inv_start edge_inv_step)

definition gone :: "u64 \<Rightarrow> Edge \<Rightarrow> bool" where
  \<comment> \<open>the id was given out and its entry has been removed\<close>
  "gone i e \<longleftrightarrow> i \<le> nextConnectorID e \<and> i \<notin> cr_id ` set (connectors e)"

lemma ids_update_first:
  "keeps_identity fn \<Longrightarrow> cr_id ` set (update_first i fn cs) = cr_id ` set cs"
  using map_update_first [of fn i cs] by (metis list.set_map)

lemma gone_step: "gone i e \<Longrightarrow> edge_step e e' \<Longrightarrow> gone i e'"
proof (erule edge_stepE)
  fix conn
  assume g: "gone i e" and "can_add conn e" and e': "e' = addConnector conn e"
  then have "i < nextConnectorID e + 1"
    by (intro word_less_Suc) (auto simp: gone_def can_add_def)
  then show "gone i e'"
    using g by (auto simp: gone_def e' addConnector_def)
next
  fix conn
  have "set (remove_conn conn cs) \<subseteq> set cs" for cs by (induction cs) auto
  moreover assume "gone i e" "e' = watchLost conn e"
  ultimately show "gone i e'" by (auto simp: gone_def watchLost_def)
qed (auto simp: gone_def control_message_def control_failed_def updateConnector_def
    ids_update_first dest!: pickConnector_frame)

interpretation gone_sys: transition_system "gone i" edge_step "gone i" for i
  by unfold_locales (auto intro: gone_step)

section \<open>Lemmas about the choice\<close>

lemma live_connectors_set:
  "c \<in> set (live_connectors now e) \<longleftrightarrow>
     c \<in> set (connectors e) \<and> live c now (staleAfter (edge_cfg e))"
  by (auto simp: live_connectors_def)

interpretation rr: round_robin rr_pick
proof unfold_locales
  fix n :: nat and c :: u64
  assume "0 < n" "n < 2 ^ 64"
  then show "fst (rr_pick n c) = unat c mod n"
    by (simp add: rr_pick_def unat_mod unat_of_nat take_bit_nat_eq_self)
  show "snd (rr_pick n c) = c + 1" by (simp add: rr_pick_def)
qed

lemma hash_index:
  assumes "0 < n" "n < 2 ^ 32"
  shows "(of_nat n :: u32) \<noteq> 0" "unat (h mod (of_nat n :: u32)) < n"
proof -
  have "unat (of_nat n :: u32) = n"
    using assms by (simp add: unat_of_nat take_bit_nat_eq_self)
  then show "(of_nat n :: u32) \<noteq> 0" "unat (h mod (of_nat n :: u32)) < n"
    using assms by (auto simp: unat_mod)
qed

lemma pickConnectorIndex_hash:
  assumes "0 < n" "n < 2 ^ 32" "key \<noteq> ''''"
  shows "pickConnectorIndex (int n) key ''hash'' c = Done (int (unat (fnv32a key mod of_nat n)), c)"
  using assms hash_index(1) [of n] by (simp add: pickConnectorIndex_def)

lemma pickConnectorIndex_rr:
  assumes "0 < n" "\<not> (mode = ''hash'' \<and> key \<noteq> '''')"
  shows "pickConnectorIndex (int n) key mode c = Done (int (fst (rr_pick n c)), snd (rr_pick n c))"
  using assms by (auto simp: pickConnectorIndex_def)

lemma pickConnectorIndex_ok:
  assumes n: "0 < n" "n < 2 ^ 32"
  shows "\<exists>i c'. pickConnectorIndex (int n) key mode c = Done (int i, c') \<and> i < n"
proof (cases "mode = ''hash'' \<and> key \<noteq> ''''")
  case True
  then show ?thesis
    using hash_index(2) [OF n] pickConnectorIndex_hash [OF n] by blast
next
  case False
  have "fst (rr_pick n c) < n"
    using n rr.pick_index [of n c] by simp
  then show ?thesis using pickConnectorIndex_rr [OF n(1) False] by blast
qed

lemma pickConnector_cases:
  assumes "length (live_connectors now e) < 2 ^ 32"
  shows "(live_connectors now e = [] \<and> pickConnector now key e = Done (None, e)) \<or>
    (\<exists>i c. i < length (live_connectors now e) \<and>
       pickConnectorIndex (int (length (live_connectors now e))) key (tunnelLB (edge_cfg e)) (rr e)
         = Done (int i, c) \<and>
       pickConnector now key e = Done (Some (live_connectors now e ! i), e\<lparr>rr := c\<rparr>))"
  using pickConnectorIndex_ok [OF _ assms, of key "tunnelLB (edge_cfg e)" "rr e"]
  by (cases "live_connectors now e = []") (auto simp: pickConnector_def)

primrec serve_requests :: "(int \<times> string) list \<Rightarrow> Edge \<Rightarrow> (connectorRef option list \<times> Edge) panicking" where
  \<comment> \<open>the picks of consecutive requests, each at its own time and for its own path\<close>
  "serve_requests [] e = Done ([], e)"
| "serve_requests (q # qs) e = (case pickConnector (fst q) (snd q) e of Panic p \<Rightarrow> Panic p
     | Done (r, e1) \<Rightarrow> (case serve_requests qs e1 of Panic p \<Rightarrow> Panic p
         | Done (rs, e2) \<Rightarrow> Done (r # rs, e2)))"

lemma live_connectors_rr [simp]: "live_connectors now (e\<lparr>rr := c\<rparr>) = live_connectors now e"
  by (simp add: live_connectors_def)

lemma serve_requests_rr:
  assumes "tunnelLB (edge_cfg e) \<noteq> ''hash''" "\<forall>q\<in>set qs. live_connectors (fst q) e = lv"
    "lv \<noteq> []" "length lv < 2 ^ 32"
  shows "\<exists>e'. serve_requests qs e
    = Done (map (\<lambda>i. Some (lv ! i)) (picks rr_pick (length qs) (length lv) (rr e)), e')"
  using assms
proof (induction qs arbitrary: e)
  case (Cons q qs)
  have n: "0 < length lv" using Cons.prems by simp
  have i: "fst (rr_pick (length lv) (rr e)) < length lv"
    using rr.pick_index [OF n] Cons.prems(4) n by simp
  define e1 where "e1 = e\<lparr>rr := snd (rr_pick (length lv) (rr e))\<rparr>"
  have "pickConnector (fst q) (snd q) e = Done (Some (lv ! fst (rr_pick (length lv) (rr e))), e1)"
    using Cons.prems i n by (simp add: pickConnector_def pickConnectorIndex_rr e1_def)
  moreover have "\<exists>e'. serve_requests qs e1
      = Done (map (\<lambda>i. Some (lv ! i)) (picks rr_pick (length qs) (length lv) (rr e1)), e')"
    using Cons.prems by (intro Cons.IH) (simp_all add: e1_def)
  ultimately show ?case by (auto simp: e1_def)
qed simp

lemma serve_control_received:
  assumes "received Read s ms"
  shows "serveControl clock k i s e = control_failed i (foldl (\<lambda>e (now, m). control_message now i m e) e
    (zip (map clock [k..<k + length ms]) ms))"
  using assms
proof (induction arbitrary: k e rule: received.induct)
  case (failed s err rest)
  then show ?case by (subst serveControl.simps) simp
next
  case (got s m rest ms)
  have "[k..<k + length (m # ms)] = k # [Suc k..<Suc k + length ms]"
    by (simp add: upt_conv_Cons del: upt_Suc)
  then show ?case using got by (subst serveControl.simps) (simp del: upt_Suc)
qed

lemmas serve_control_lines = serve_control_received [OF control.received_all]

section \<open>Properties\<close>

text \<open>C1: whatever interleaving of accepted connections, control messages, failed control streams,
  lost connections and requests led to a state, the pick for a request never panics there. It finds
  no connector exactly when none is live, and otherwise returns an entry of the table that is
  registered and whose last ping is younger than the staleness bound where there is one; nothing but
  the round-robin counter changes.\<close>

theorem reachable_pick_sound:
  assumes "edge_start e0" "edge_step\<^sup>*\<^sup>* e0 e" "length (connectors e) < 2 ^ 32"
  shows "\<exists>r c. pickConnector now key e = Done (r, e\<lparr>rr := c\<rparr>) \<and>
    (case r of None \<Rightarrow> live_connectors now e = [] \<and> Registered now e = 0
     | Some x \<Rightarrow> x \<in> set (connectors e) \<and> registered x \<and> 0 < Registered now e \<and>
         (staleAfter (edge_cfg e) \<le> 0 \<or>
          (\<exists>p. lastPing x = Some p \<and> time_sub now p < staleAfter (edge_cfg e))))"
proof -
  have inv: "edge_inv e" using assms(1,2) by (rule edge_sys.inv_reachable)
  have len: "length (live_connectors now e) < 2 ^ 32"
    using assms(3) le_less_trans [OF length_filter_le] by (simp add: live_connectors_def)
  from pickConnector_cases [OF len, of key] show ?thesis
  proof (elim disjE conjE exE)
    assume "live_connectors now e = []" "pickConnector now key e = Done (None, e)"
    then show ?thesis
      by (intro exI [of _ None] exI [of _ "rr e"]) (simp add: Registered_def)
  next
    fix i c
    assume i: "i < length (live_connectors now e)"
      and r: "pickConnector now key e = Done (Some (live_connectors now e ! i), e\<lparr>rr := c\<rparr>)"
    let ?x = "live_connectors now e ! i"
    have "?x \<in> set (connectors e)" "live ?x now (staleAfter (edge_cfg e))"
      using nth_mem [OF i] by (simp_all add: live_connectors_set)
    then show ?thesis
      using r i inv
      by (intro exI [of _ "Some ?x"] exI [of _ c])
        (auto simp: live_def edge_inv_def Registered_def split: if_splits option.splits)
  qed
qed

text \<open>C12: a connector whose connection was lost is gone for good: from the moment its watcher has
  removed it, no later request of any run is given its id, even where a register message of its
  control stream is still to be handled.\<close>

theorem lost_never_picked:
  assumes "edge_start e0" "edge_step\<^sup>*\<^sup>* e0 e" "lookup_connector e i = Some c"
    and "edge_step\<^sup>*\<^sup>* (watchLost (cr_conn c) e) e'"
    and "pickConnector now key e' = Done (Some x, e'')"
  shows "cr_id x \<noteq> i"
proof -
  have inv: "edge_inv e" using assms(1,2) by (rule edge_sys.inv_reachable)
  have "lookup_connector (watchLost (cr_conn c) e) i = None"
    using reg.lookup_del [OF inv] assms(3) by simp
  moreover have "c \<in> set (connectors e)" "cr_id c = i"
    using assms(3) by (auto simp: lookup_connector_def find_Some_iff)
  ultimately have "gone i (watchLost (cr_conn c) e)"
    using inv by (auto simp: gone_def lookup_connector_def find_None_iff edge_inv_def watchLost_def)
  then have "gone i e'" using assms(4) by (rule gone_sys.inv_reachable)
  moreover have "x \<in> set (connectors e')"
    using assms(5) nth_mem live_connectors_set
    by (fastforce simp: pickConnector_def Let_def split: if_splits panicking.splits)
  ultimately show ?thesis by (auto simp: gone_def)
qed

text \<open>C27: round robin is fair. While the same \<open>n\<close> connectors stay live and the 64-bit counter does not
  wrap, \<open>n\<close> consecutive requests, whatever their paths, are given each of those connectors exactly
  once, wherever the counter stood.\<close>

theorem round_robin_fair:
  assumes "tunnelLB (edge_cfg e) = ''rr''" "\<forall>q\<in>set qs. live_connectors (fst q) e = lv"
    and "length qs = length lv" "lv \<noteq> []" "length lv < 2 ^ 32" "unat (rr e) + length lv < 2 ^ 64"
  shows "\<exists>rs e'. serve_requests qs e = Done (rs, e') \<and> mset rs = mset (map Some lv)"
proof -
  let ?is = "picks rr_pick (length lv) (length lv) (rr e)"
  have "mset (map (\<lambda>i. Some (lv ! i)) ?is) = mset (map (\<lambda>i. Some (lv ! i)) [0..<length lv])"
    using assms(4-6) by (intro rr.picks_mset) auto
  moreover have "map (\<lambda>i. Some (lv ! i)) [0..<length lv] = map Some lv"
    by (rule nth_equalityI) simp_all
  ultimately have "mset (map (\<lambda>i. Some (lv ! i)) ?is) = mset (map Some lv)"
    by simp
  then show ?thesis
    using serve_requests_rr [of e qs lv] assms by auto
qed

theorem round_robin_fair_witness:
  "\<exists>rs e'. serve_requests [(1, ''a''), (1, ''b'')]
     (control_message 0 2 \<lparr>msg_T = ''register'', msg_Hostname = '''', msg_HAID = 1, msg_Reason = ''''\<rparr>
       (control_message 0 1 \<lparr>msg_T = ''register'', msg_Hostname = '''', msg_HAID = 0, msg_Reason = ''''\<rparr>
         (addConnector 8 (addConnector 7 (new_edge default_edge_config))))) = Done (rs, e') \<and>
     mset rs = mset (map Some
       [\<lparr>cr_id = 1, cr_conn = 7, registered = True, lastPing = Some 0, hostname = '''', haID = 0\<rparr>,
        \<lparr>cr_id = 2, cr_conn = 8, registered = True, lastPing = Some 0, hostname = '''', haID = 1\<rparr>])"
  by (rule round_robin_fair)
    (simp_all add: control_message_def updateConnector_def addConnector_def new_edge_def type_defs
      control_update_def default_edge_config_def live_connectors_def live_def staleAfter_def
      time_sub_def saturate64_def int64_defs)

text \<open>C28: in hash mode a path sticks to its connector: while the same connectors are live, every
  request for a non-empty path is given the same entry, the one its FNV-1a hash selects, however many
  requests came before it, and the round-robin counter is left alone.\<close>

theorem hash_pick_sticky:
  assumes "tunnelLB (edge_cfg e) = ''hash''" "key \<noteq> ''''"
    and "live_connectors now e = lv" "lv \<noteq> []" "length lv < 2 ^ 32"
  shows "pickConnector now key (e\<lparr>rr := c\<rparr>)
    = Done (Some (lv ! unat (fnv32a key mod of_nat (length lv))), e\<lparr>rr := c\<rparr>)"
  using assms hash_index(2) [of "length lv" "fnv32a key"]
  by (simp add: pickConnector_def pickConnectorIndex_hash)

theorem hash_pick_sticky_witness:
  "let e = control_message 0 1
       \<lparr>msg_T = ''register'', msg_Hostname = '''', msg_HAID = 0, msg_Reason = ''''\<rparr>
       (addConnector 7 (new_edge (default_edge_config\<lparr>tunnelLB := ''hash''\<rparr>)))
   in pickConnector 1 ''/delay'' (e\<lparr>rr := 5\<rparr>) = Done (Some \<lparr>cr_id = 1, cr_conn = 7,
     registered = True, lastPing = Some 0, hostname = '''', haID = 0\<rparr>, e\<lparr>rr := 5\<rparr>)"
proof -
  define e where "e = control_message 0 1
       \<lparr>msg_T = ''register'', msg_Hostname = '''', msg_HAID = 0, msg_Reason = ''''\<rparr>
       (addConnector 7 (new_edge (default_edge_config\<lparr>tunnelLB := ''hash''\<rparr>)))"
  let ?c = "\<lparr>cr_id = 1, cr_conn = 7, registered = True, lastPing = Some 0, hostname = '''', haID = 0\<rparr>"
  have "live_connectors 1 e = [?c]" "tunnelLB (edge_cfg e) = ''hash''"
    by (simp_all add: e_def control_message_def updateConnector_def addConnector_def new_edge_def
        type_defs control_update_def default_edge_config_def live_connectors_def live_def
        staleAfter_def time_sub_def saturate64_def int64_defs)
  then show ?thesis
    using hash_pick_sticky [of e "''/delay''" 1 "[?c]" 5] by (simp add: e_def [symmetric])
qed

text \<open>C4: the byte loop of a control stream does what its messages say, wherever the stream ends. When
  the peer writes the messages \<open>ms\<close> and the stream breaks off after any number of bytes, the edge has
  applied the first \<open>k\<close> of them in order, each at the time it was read and none of them twice or in part,
  and finally marked the connector unregistered; when nothing is lost, it has applied all of them.\<close>

theorem serve_control_refines:
  assumes "list_all sendable ms" "prefix s (concat (map Write_line ms))"
  shows "\<exists>k\<le>length ms. (s = concat (map Write_line ms) \<longrightarrow> k = length ms) \<and>
    serveControl clock 0 i s e = control_failed i (foldl (\<lambda>e (now, m). control_message now i m e) e
      (zip (map clock [0..<k]) (take k ms)))"
proof -
  obtain k where k: "k \<le> length ms" "received Read s (take k ms)" using control.received_cut [OF assms] by blast
  then have "serveControl clock 0 i s e = control_failed i (foldl (\<lambda>e (now, m). control_message now i m e) e
      (zip (map clock [0..<k]) (take k ms)))"
    using serve_control_received [OF k(2), of clock 0 i e] by (simp add: min_absorb2)
  moreover have "k = length ms" if "s = concat (map Write_line ms)"
  proof -
    have "take k ms = ms"
      using control.received_unique [OF k(2)] control.received_all [OF assms(1)] that by blast
    then show ?thesis using k(1) by (metis length_take min_absorb2)
  qed
  ultimately show ?thesis using k(1) by blast
qed

theorem serve_control_refines_witness:
  "lookup_connector (serveControl (\<lambda>k. 100) 0 1
     (Write_line \<lparr>msg_T = ''register'', msg_Hostname = ''local'', msg_HAID = 2, msg_Reason = ''''\<rparr>)
     (addConnector 7 (new_edge default_edge_config))) 1
   = Some \<lparr>cr_id = 1, cr_conn = 7, registered = False, lastPing = Some 100, hostname = ''local'', haID = 2\<rparr>"
proof -
  let ?m = "\<lparr>msg_T = ''register'', msg_Hostname = ''local'', msg_HAID = 2, msg_Reason = ''''\<rparr>"
  have "list_all sendable [?m]"
    by (simp add: sendable_def msg_ascii_def byte_of_def int64_defs)
  from serve_control_refines [OF this, of "Write_line ?m" "\<lambda>k. 100" 1 "addConnector 7 (new_edge default_edge_config)"]
  have "serveControl (\<lambda>k. 100) 0 1 (Write_line ?m) (addConnector 7 (new_edge default_edge_config))
      = control_failed 1 (control_message 100 1 ?m (addConnector 7 (new_edge default_edge_config)))"
    by auto
  then show ?thesis
    by (simp add: control_failed_def control_message_def updateConnector_def addConnector_def
        new_edge_def type_defs control_update_def lookup_connector_def)
qed

text \<open>What the control messages mean for traffic. In any reachable state, a connector that
  registers at time \<open>now\<close> is live exactly until the staleness bound after it has passed, a ping
  renews a registered connector and revives nobody else, and a connector that unregisters or whose
  control stream fails is not live until it registers again; no message of one connector touches the
  entry of another.\<close>

lemma control_liveness:
  assumes "edge_start e0" "edge_step\<^sup>*\<^sup>* e0 e" "lookup_connector e i = Some c"
  shows "(msg_T m = TypeRegister \<longrightarrow> (\<exists>c'. lookup_connector (control_message now i m e) i = Some c' \<and>
        (\<forall>now' st. live c' now' st \<longleftrightarrow> st \<le> 0 \<or> time_sub now' now < st)))
    \<and> (msg_T m = TypePing \<longrightarrow> (\<exists>c'. lookup_connector (control_message now i m e) i = Some c' \<and>
        (\<forall>now' st. live c' now' st \<longleftrightarrow> registered c \<and> (st \<le> 0 \<or> time_sub now' now < st))))
    \<and> (msg_T m = TypeUnregister \<longrightarrow> (\<exists>c'. lookup_connector (control_message now i m e) i = Some c' \<and>
        (\<forall>now' st. \<not> live c' now' st)))
    \<and> (\<exists>c'. lookup_connector (control_failed i e) i = Some c' \<and> (\<forall>now' st. \<not> live c' now' st))
    \<and> (j \<noteq> i \<longrightarrow> lookup_connector (control_message now i m e) j = lookup_connector e j
        \<and> lookup_connector (control_failed i e) j = lookup_connector e j)"
proof -
  have inv: "edge_inv e" using assms(1,2) by (rule edge_sys.inv_reachable)
  note upd = reg.lookup_upd [OF inv] assms(3) control_message_def control_failed_def
    control_update_def live_def type_defs
  show ?thesis by (intro conjI impI) (auto simp: upd)
qed

section \<open>A concrete run\<close>

definition demo_edge :: Edge where
  "demo_edge = addConnector 7 (new_edge default_edge_config)"

definition demo_register :: Msg where
  "demo_register = \<lparr>msg_T = ''register'', msg_Hostname = ''local'', msg_HAID = 0, msg_Reason = ''''\<rparr>"

lemma demo_start: "edge_start (new_edge default_edge_config)"
  by (auto simp: edge_start_def)

lemma demo_run: "edge_step\<^sup>*\<^sup>* (new_edge default_edge_config) demo_edge"
  unfolding demo_edge_def
  by (intro r_into_rtranclp edge_step.accept) (simp add: can_add_def new_edge_def)

lemma demo_registered: "edge_step\<^sup>*\<^sup>* (new_edge default_edge_config) (control_message 0 1 demo_register demo_edge)"
  by (rule rtranclp.rtrancl_into_rtrancl [OF demo_run edge_step.message])

lemmas demo_defs = demo_edge_def demo_register_def control_message_def updateConnector_def
  addConnector_def new_edge_def type_defs control_update_def default_edge_config_def
  live_connectors_def live_def staleAfter_def time_sub_def saturate64_def int64_defs
  lookup_connector_def watchLost_def

theorem reachable_pick_sound_witness:
  "\<exists>x c. pickConnector 5 ''/'' (control_message 0 1 demo_register demo_edge)
     = Done (Some x, (control_message 0 1 demo_register demo_edge)\<lparr>rr := c\<rparr>) \<and> registered x"
  using reachable_pick_sound [OF demo_start demo_registered, of 5 "''/''"]
  by (auto simp: demo_defs split: option.splits)

theorem lost_never_picked_witness:
  "let e = watchLost 7 (control_message 0 1 demo_register demo_edge);
       e' = control_message 1 2 demo_register (addConnector 7 e)
   in \<exists>x e''. pickConnector 2 ''/'' e' = Done (Some x, e'') \<and> cr_id x \<noteq> 1"
proof -
  define e where "e = control_message 0 1 demo_register demo_edge"
  define e' where "e' = control_message 1 2 demo_register (addConnector 7 (watchLost 7 e))"
  let ?c = "\<lparr>cr_id = 1, cr_conn = 7, registered = True, lastPing = Some 0, hostname = ''local'', haID = 0\<rparr>"
  have c: "lookup_connector e 1 = Some ?c" by (simp add: e_def demo_defs)
  have "can_add 7 (watchLost 7 e)" by (simp add: e_def can_add_def demo_defs)
  then have "edge_step\<^sup>*\<^sup>* (watchLost 7 e) (addConnector 7 (watchLost 7 e))"
    by (intro r_into_rtranclp edge_step.accept)
  then have run: "edge_step\<^sup>*\<^sup>* (watchLost (cr_conn ?c) e) e'"
    unfolding e'_def connectorRef.select_convs by (rule rtranclp.rtrancl_into_rtrancl) (rule edge_step.message)
  obtain x e'' where "pickConnector 2 ''/'' e' = Done (Some x, e'')"
    by (simp add: e'_def e_def demo_defs pickConnector_def pickConnectorIndex_def rr_pick_def)
  then show ?thesis
    using lost_never_picked [OF demo_start demo_registered [folded e_def] c run]
    by (auto simp: Let_def e_def [symmetric] e'_def [symmetric])
qed

end
