(* ===== verification/Go_Slog.thy ===== *)
theory Go_Slog
  imports Go_Json
begin

text \<open>
  The structured log lines of the program: \<open>slog\<close> with the JSON handler writes one object per record,
  the time, the level, the message and then the attributes, with the handler's own string escaping
  (like \<open>encoding/json\<close> but without HTML escapes). The control panel reads such lines back with
  substring tests and regular expressions. The lemmas show that this is safe: whatever bytes the
  logged strings hold, a key literal \<^verbatim>\<open>"key":\<close> occurs in the line only where the member of that
  name stands.
\<close>

datatype log_level = LevelDebug | LevelInfo | LevelWarn | LevelError

fun level_string :: "log_level \<Rightarrow> string" where
  "level_string LevelDebug = ''DEBUG''"
| "level_string LevelInfo = ''INFO''"
| "level_string LevelWarn = ''WARN''"
| "level_string LevelError = ''ERROR''"

record log_line =
  log_level :: log_level
  log_msg :: string
  log_attrs :: "(string \<times> jenc) list"

definition slog_byte :: "char \<Rightarrow> string" where
  "slog_byte c = (let b = byte_of c in
     if b = 34 \<or> b = 92 then [CHR 0x5C, c]
     else if b = 10 then [CHR 0x5C, CHR ''n''] else if b = 13 then [CHR 0x5C, CHR ''r'']
     else if b = 9 then [CHR 0x5C, CHR ''t'']
     else if b < 32 then u_escape b
     else [c])"

function slog_escape :: "string \<Rightarrow> string" where
  "slog_escape s = (case s of [] \<Rightarrow> []
     | c # r \<Rightarrow>
         if rune_len s = 0 then u_escape 0xFFFD @ slog_escape r
         else if rune_len s = 1 then slog_byte c @ slog_escape r
         else if prefix [CHR 0xE2, CHR 0x80, CHR 0xA8] s then u_escape 0x2028 @ slog_escape (drop 3 s)
         else if prefix [CHR 0xE2, CHR 0x80, CHR 0xA9] s then u_escape 0x2029 @ slog_escape (drop 3 s)
         else take (rune_len s) s @ slog_escape (drop (rune_len s) s))"
  by pat_completeness auto
termination
  by (relation "measure length") (auto split: list.splits)

declare slog_escape.simps [simp del]

abbreviation dquote :: char where "dquote \<equiv> CHR 0x22"
abbreviation backslash :: char where "backslash \<equiv> CHR 0x5C"

definition slog_quote :: "string \<Rightarrow> string" where
  "slog_quote s = dquote # slog_escape s @ [dquote]"

fun slog_value :: "jenc \<Rightarrow> string" where
  "slog_value (EStr s) = slog_quote s"
| "slog_value (EInt i) = itoa i"
| "slog_value (EBool b) = bool_string b"

fun slog_member :: "string \<times> jenc \<Rightarrow> string" where
  "slog_member (k, v) = slog_quote k @ CHR '':'' # slog_value v"

definition slog_members :: "string \<Rightarrow> log_line \<Rightarrow> (string \<times> jenc) list" where
  "slog_members tm l = [(''time'', EStr tm), (''level'', EStr (level_string (log_level l))),
     (''msg'', EStr (log_msg l))] @ log_attrs l"

definition slog_object :: "(string \<times> jenc) list \<Rightarrow> string" where
  "slog_object ms = CHR ''{'' # join_with [CHR '',''] (map slog_member ms) @ [CHR ''}'']"

definition slog_line :: "string \<Rightarrow> log_line \<Rightarrow> string" where
  \<comment> \<open>the line without its newline, with the formatted time as an argument\<close>
  "slog_line tm l = slog_object (slog_members tm l)"

definition key_lit :: "string \<Rightarrow> string" where
  \<comment> \<open>\<^verbatim>\<open>"key":\<close>\<close>
  "key_lit k = dquote # k @ [dquote, CHR '':'']"

section \<open>Quotes inside escaped text\<close>

definition quotes_escaped :: "string \<Rightarrow> bool" where
  "quotes_escaped t \<longleftrightarrow> (\<forall>p q. t = p @ dquote # q \<longrightarrow> p \<noteq> [] \<and> last p = backslash)"

lemma quotes_escaped_free: "dquote \<notin> set t \<Longrightarrow> quotes_escaped t"
  by (auto simp: quotes_escaped_def)

lemma quotes_escaped_append:
  assumes "quotes_escaped s" "quotes_escaped t"
  shows "quotes_escaped (s @ t)"
  unfolding quotes_escaped_def
proof (intro allI impI)
  fix p q assume "s @ t = p @ dquote # q"
  then consider us where "s = p @ us" "us @ t = dquote # q" | us where "s @ us = p" "t = us @ dquote # q"
    by (auto simp: append_eq_append_conv2)
  then show "p \<noteq> [] \<and> last p = backslash"
  proof cases
    case (1 us)
    show ?thesis
    proof (cases us)
      case Nil
      then have "t = [] @ dquote # q" using 1 by simp
      then show ?thesis using assms(2) unfolding quotes_escaped_def by blast
    next
      case (Cons x us')
      then have "s = p @ dquote # us'" using 1 by simp
      then show ?thesis using assms(1) unfolding quotes_escaped_def by blast
    qed
  next
    case (2 us)
    then have "us \<noteq> [] \<and> last us = backslash" using assms(2) by (simp add: quotes_escaped_def)
    then show ?thesis using 2(1) by auto
  qed
qed

lemma hex_char_not_dquote: "n < 16 \<Longrightarrow> hex_char n \<noteq> dquote"
  using byte_of_inj [of "hex_char n" dquote] by (auto simp: hex_char_def byte_of_def split: if_splits)

lemma u_escape_quotes: "quotes_escaped (u_escape n)"
  by (rule quotes_escaped_free) (auto simp: u_escape_def hex_char_not_dquote dest: sym)

lemma slog_byte_quotes: "quotes_escaped (slog_byte c)"
proof (cases "c = dquote")
  case True
  then have "slog_byte c = [backslash, dquote]" by (simp add: slog_byte_def byte_of_def)
  then show ?thesis by (auto simp: quotes_escaped_def Cons_eq_append_conv)
next
  case False
  then show ?thesis
    by (auto simp: slog_byte_def Let_def u_escape_quotes intro!: quotes_escaped_free)
qed

lemma rune_no_quote: "1 < rune_len s \<Longrightarrow> dquote \<notin> set (take (rune_len s) s)"
  using rune_bytes_high [of s dquote] by (auto simp: byte_of_def)

lemma slog_escape_quotes: "quotes_escaped (slog_escape s)"
proof (induction s rule: slog_escape.induct)
  case (1 s)
  show ?case
  proof (cases s)
    case Nil
    then show ?thesis by (simp add: slog_escape.simps quotes_escaped_free)
  next
    case (Cons c r)
    note IH = 1 [OF Cons]
    have "1 < rune_len s \<Longrightarrow> quotes_escaped (take (rune_len s) s)"
      by (simp add: quotes_escaped_free rune_no_quote)
    then show ?thesis
      using IH by (subst slog_escape.simps)
        (auto simp: Cons intro!: quotes_escaped_append u_escape_quotes slog_byte_quotes)
  qed
qed

lemma key_lit_not_in_escaped:
  assumes q: "quotes_escaped t" and k: "dquote \<notin> set k" "backslash \<notin> set k" "k \<noteq> []"
    and t: "t = p @ r" and r: "r \<noteq> []" and c: "c \<noteq> CHR '':''"
  shows "\<not> prefix (key_lit k) (r @ dquote # c # u)"
proof
  assume "prefix (key_lit k) (r @ dquote # c # u)"
  then obtain w where w: "dquote # k @ dquote # CHR '':'' # w = r @ dquote # c # u"
    by (auto simp: key_lit_def prefix_def)
  obtain r' where r': "r = dquote # r'" using r w by (cases r) auto
  with w have eq: "k @ dquote # CHR '':'' # w = r' @ dquote # c # u" by simp
  then consider us where "k = r' @ us" "us @ dquote # CHR '':'' # w = dquote # c # u"
    | us where "k @ us = r'" "dquote # CHR '':'' # w = us @ dquote # c # u"
    by (auto simp: append_eq_append_conv2)
  then show False
  proof cases
    case (1 us)
    then show ?thesis using k c by (cases us) auto
  next
    case (2 us)
    show ?thesis
    proof (cases us)
      case Nil
      then show ?thesis using 2 c by simp
    next
      case (Cons x us')
      with 2 have "t = (p @ dquote # k) @ dquote # us'" by (simp add: t r')
      then have "last (p @ dquote # k) = backslash" using q by (auto simp: quotes_escaped_def)
      then show ?thesis using k last_in_set [of k] by (simp split: if_splits)
    qed
  qed
qed

lemma key_end_not_here:
  assumes "dquote \<notin> set k" "c \<noteq> CHR '':''" "\<And>us. t \<noteq> k @ dquote # us"
  shows "\<not> prefix (k @ [dquote, CHR '':'']) (t @ dquote # c # u)"
proof
  assume "prefix (k @ [dquote, CHR '':'']) (t @ dquote # c # u)"
  then obtain w where "k @ dquote # CHR '':'' # w = t @ dquote # c # u"
    by (auto simp: prefix_def)
  then consider us where "k = t @ us" "us @ dquote # CHR '':'' # w = dquote # c # u"
    | us where "k @ us = t" "dquote # CHR '':'' # w = us @ dquote # c # u"
    by (auto simp: append_eq_append_conv2)
  then show False
  proof cases
    case (1 us)
    then show ?thesis using assms by (cases us) auto
  next
    case (2 us)
    then show ?thesis using assms by (cases us) auto
  qed
qed

definition simple_char :: "char \<Rightarrow> bool" where
  "simple_char c \<longleftrightarrow> byte_of c = 95 \<or> 48 \<le> byte_of c \<and> byte_of c \<le> 57 \<or> 97 \<le> byte_of c \<and> byte_of c \<le> 122"

definition simple_key :: "string \<Rightarrow> bool" where
  \<comment> \<open>the attribute names of the program: lower case letters, digits and underscores\<close>
  "simple_key k \<longleftrightarrow> k \<noteq> [] \<and> list_all simple_char k"

definition plain_char :: "char \<Rightarrow> bool" where
  "plain_char c \<longleftrightarrow> 32 \<le> byte_of c \<and> byte_of c < 128 \<and> byte_of c \<noteq> 34 \<and> byte_of c \<noteq> 92"

definition plain_text :: "string \<Rightarrow> bool" where
  \<comment> \<open>text the handler writes as it is\<close>
  "plain_text t \<longleftrightarrow> list_all plain_char t"

lemma slog_escape_plain: "plain_text t \<Longrightarrow> slog_escape t = t"
proof (induction t)
  case (Cons c t)
  then have c: "plain_char c" by (simp add: plain_text_def)
  then have "slog_byte c = [c]" by (auto simp: plain_char_def slog_byte_def Let_def)
  with Cons c show ?case by (subst slog_escape.simps) (simp add: plain_text_def plain_char_def)
qed (simp add: slog_escape.simps)

lemma char_lits:
  "\<not> plain_char dquote" "\<not> plain_char backslash"
  "\<not> simple_char (CHR '','')" "\<not> simple_char (CHR ''}'')" "\<not> simple_char (CHR '':'')"
  by (simp_all add: plain_char_def simple_char_def byte_of_def)

lemma simple_char_plain: "simple_char c \<Longrightarrow> plain_char c"
  by (auto simp: simple_char_def plain_char_def)

lemma plain_no_quote: "plain_text t \<Longrightarrow> dquote \<notin> set t \<and> backslash \<notin> set t"
  using char_lits by (auto simp: plain_text_def list_all_iff)

lemma simple_key_plain: "simple_key k \<Longrightarrow> plain_text k"
  by (auto simp: simple_key_def plain_text_def list_all_iff simple_char_plain)

lemma simple_key_chars:
  assumes "simple_key k"
  shows "k \<noteq> []" "CHR '','' \<notin> set k" "CHR ''}'' \<notin> set k" "CHR '':'' \<notin> set k"
    "dquote \<notin> set k" "backslash \<notin> set k"
  using assms plain_no_quote [OF simple_key_plain [OF assms]] char_lits
  by (auto simp: simple_key_def list_all_iff)

lemma simple_key_hd:
  assumes "simple_key k" "c = CHR '','' \<or> c = CHR ''}'' \<or> c = CHR '':''"
  shows "hd k \<noteq> c"
  using assms simple_key_chars [OF assms(1)] by (cases k) auto

definition no_key :: "string \<Rightarrow> string \<Rightarrow> string \<Rightarrow> bool" where
  \<comment> \<open>no occurrence of the key literal starts inside \<open>t\<close> when \<open>u\<close> follows\<close>
  "no_key k t u \<longleftrightarrow> (\<forall>p r. t = p @ r \<and> r \<noteq> [] \<longrightarrow> \<not> prefix (key_lit k) (r @ u))"

lemma no_key_Nil [simp]: "no_key k [] u"
  by (simp add: no_key_def)

lemma no_key_append: "no_key k s (t @ u) \<Longrightarrow> no_key k t u \<Longrightarrow> no_key k (s @ t) u"
  unfolding no_key_def
proof (intro allI impI)
  fix p r
  assume s: "\<forall>p r. s = p @ r \<and> r \<noteq> [] \<longrightarrow> \<not> prefix (key_lit k) (r @ t @ u)"
    and t: "\<forall>p r. t = p @ r \<and> r \<noteq> [] \<longrightarrow> \<not> prefix (key_lit k) (r @ u)"
    and eq: "s @ t = p @ r \<and> r \<noteq> []"
  then consider us where "s = p @ us" "us @ t = r" | us where "t = us @ r"
    by (auto simp: append_eq_append_conv2)
  then show "\<not> prefix (key_lit k) (r @ u)"
  proof cases
    case (1 us)
    then show ?thesis using s t eq by (cases "us = []") auto
  qed (use t eq in blast)
qed

lemma no_key_Cons: "c \<noteq> dquote \<Longrightarrow> no_key k t u \<Longrightarrow> no_key k (c # t) u"
proof -
  assume "c \<noteq> dquote" "no_key k t u"
  moreover from this have "no_key k [c] (t @ u)"
    by (auto simp: no_key_def key_lit_def Cons_eq_append_conv)
  ultimately show ?thesis using no_key_append [of k "[c]" t u] by simp
qed

lemma no_key_free: "dquote \<notin> set t \<Longrightarrow> no_key k t u"
  by (induction t) (auto intro: no_key_Cons)

lemma no_key_closing: "hd k \<noteq> c \<Longrightarrow> k \<noteq> [] \<Longrightarrow> no_key k [dquote] (c # u)"
  by (cases k) (auto simp: no_key_def key_lit_def Cons_eq_append_conv)

lemma no_key_opening:
  assumes "\<not> prefix (k @ [dquote, CHR '':'']) u"
  shows "no_key k [dquote] u"
  using assms by (auto simp: no_key_def key_lit_def Cons_eq_append_conv)

lemma no_key_string:
  assumes k: "simple_key k" and c: "c = CHR '','' \<or> c = CHR ''}''"
  shows "no_key k (slog_quote s) (c # u)"
proof -
  have kq: "dquote \<notin> set k" "backslash \<notin> set k" "k \<noteq> []" "hd k \<noteq> c"
    using c simple_key_chars [OF k] simple_key_hd [OF k] by auto
  have "no_key k (slog_escape s) (dquote # c # u)"
    unfolding no_key_def
    using key_lit_not_in_escaped [OF slog_escape_quotes [of s] kq(1-3)] c by auto
  moreover have "slog_escape s \<noteq> k @ dquote # us" for us
    using slog_escape_quotes [of s] kq last_in_set [of k] unfolding quotes_escaped_def by metis
  then have "no_key k [dquote] (slog_escape s @ dquote # c # u)"
    using key_end_not_here [OF kq(1), of c "slog_escape s"] c by (intro no_key_opening) auto
  ultimately show ?thesis
    using no_key_append [of k "[dquote]" "slog_escape s @ [dquote]" "c # u"]
      no_key_append [of k "slog_escape s" "[dquote]" "c # u"] no_key_closing [OF kq(4,3), of u]
    by (simp add: slog_quote_def)
qed

lemma no_key_other_key:
  assumes k: "simple_key k" and k': "simple_key k'" and "k \<noteq> k'"
  shows "no_key k (slog_quote k') (CHR '':'' # u)"
proof -
  have q: "dquote \<notin> set k" "dquote \<notin> set k'" "k \<noteq> []" "hd k \<noteq> CHR '':''"
    using simple_key_chars [OF k] simple_key_chars [OF k'] simple_key_hd [OF k] by auto
  have "\<not> prefix (k @ [dquote, CHR '':'']) (k' @ dquote # CHR '':'' # u)"
    using q(1,2) assms(3) by (auto simp: prefix_def append_eq_append_conv2 Cons_eq_append_conv
        append_eq_Cons_conv)
  then have "no_key k [dquote] ((k' @ [dquote]) @ CHR '':'' # u)" by (simp add: no_key_opening)
  moreover have "no_key k (k' @ [dquote]) (CHR '':'' # u)"
    using q by (intro no_key_append no_key_free no_key_closing) auto
  ultimately have "no_key k ([dquote] @ k' @ [dquote]) (CHR '':'' # u)" by (rule no_key_append)
  then show ?thesis by (simp add: slog_quote_def slog_escape_plain simple_key_plain k')
qed

lemma itoa_no_quote: "dquote \<notin> set (itoa i)"
  using nat_digits_digits by (auto simp: itoa_def list_all_iff is_digit_def byte_of_def) fastforce+

lemma no_key_member:
  assumes "simple_key k" "simple_key k'" "k \<noteq> k'" "c = CHR '','' \<or> c = CHR ''}''"
  shows "no_key k (slog_member (k', v)) (c # u)"
proof -
  have "no_key k (slog_value v) (c # u)"
    using assms no_key_string by (cases v) (auto simp: bool_string_def itoa_no_quote intro!: no_key_free)
  then have "no_key k (CHR '':'' # slog_value v) (c # u)" by (intro no_key_Cons) auto
  then have "no_key k (slog_quote k' @ CHR '':'' # slog_value v) (c # u)"
    using no_key_other_key [OF assms(1-3), of "slog_value v @ c # u"] by (intro no_key_append) auto
  then show ?thesis by simp
qed


section \<open>Searching a line\<close>

lemma no_key_ConsD: "no_key k (c # t) u \<Longrightarrow> \<not> prefix (key_lit k) (c # t @ u) \<and> no_key k t u"
  unfolding no_key_def by (metis append_Cons append_Nil list.distinct(1))

lemma find_digits_skip:
  "no_key k t u \<Longrightarrow> find_digits_after (key_lit k) (t @ u) = find_digits_after (key_lit k) u"
proof (induction t)
  case (Cons c t)
  then show ?case using no_key_ConsD [of k c t u] by (simp add: Let_def)
qed simp

lemma contains_skip:
  assumes "no_key k t u"
  shows "contains (t @ u) (key_lit k @ v) \<longleftrightarrow> contains u (key_lit k @ v)"
  using assms
proof (induction t)
  case (Cons c t)
  have "\<not> prefix (key_lit k @ v) (c # t @ u)"
    using no_key_ConsD [OF Cons.prems] by (auto dest: append_prefixD)
  then show ?case
    using Cons.IH no_key_ConsD [OF Cons.prems] by (simp add: contains_def sublist_Cons_right)
qed simp

lemma contains_key_Nil: "\<not> contains [] (key_lit k @ v)"
  by (simp add: contains_def key_lit_def)

definition before :: "(string \<times> jenc) list \<Rightarrow> string" where
  "before ms = CHR ''{'' # concat (map (\<lambda>m. slog_member m @ [CHR '','']) ms)"

definition after :: "(string \<times> jenc) list \<Rightarrow> string" where
  "after ms = concat (map (\<lambda>m. CHR '','' # slog_member m) ms) @ [CHR ''}'']"

lemma join_Cons: "join_with [s] (x # xs) = x @ concat (map (\<lambda>y. s # y) xs)"
  by (induction xs arbitrary: x) auto

lemma join_split: "join_with [s] (xs @ y # zs) = concat (map (\<lambda>x. x @ [s]) xs) @ y @ concat (map (\<lambda>z. s # z) zs)"
proof (induction xs)
  case (Cons x xs)
  then show ?case by (cases xs) simp_all
qed (simp add: join_Cons)

lemma slog_object_split: "slog_object (ms @ m # ms') = before ms @ slog_member m @ after ms'"
  by (simp add: slog_object_def before_def after_def join_split comp_def)

lemma slog_object_after: "ms \<noteq> [] \<Longrightarrow> slog_object ms = CHR ''{'' # tl (after ms)"
  by (cases ms) (simp_all add: slog_object_def after_def join_Cons comp_def)

definition other_keys :: "string \<Rightarrow> (string \<times> jenc) list \<Rightarrow> bool" where
  "other_keys k ms \<longleftrightarrow> list_all (\<lambda>m. simple_key (fst m) \<and> fst m \<noteq> k) ms"

lemma no_key_members:
  assumes "simple_key k" "other_keys k ms"
  shows "no_key k (concat (map (\<lambda>m. slog_member m @ [CHR '','']) ms)) u"
  using assms(2)
proof (induction ms)
  case (Cons m ms)
  obtain k' v where m: "m = (k', v)" by (cases m)
  have "no_key k (slog_member m) (CHR '','' # w)" for w
    unfolding m using assms(1) Cons.prems
    by (intro no_key_member) (auto simp: other_keys_def m)
  then have "no_key k (slog_member m @ [CHR '','']) w" for w
    by (rule no_key_append [where t = "[CHR '','']", simplified]) (simp add: no_key_free)
  moreover have "no_key k (concat (map (\<lambda>m. slog_member m @ [CHR '','']) ms)) u"
    using Cons by (simp add: other_keys_def)
  ultimately have "no_key k ((slog_member m @ [CHR '','']) @ concat (map (\<lambda>m. slog_member m @ [CHR '','']) ms)) u"
    by (rule no_key_append)
  then show ?case by simp
qed simp

lemma no_key_before: "simple_key k \<Longrightarrow> other_keys k ms \<Longrightarrow> no_key k (before ms) u"
  unfolding before_def by (intro no_key_Cons no_key_members) auto

lemma after_start: "\<exists>c t. after ms = c # t \<and> (c = CHR '','' \<or> c = CHR ''}'')"
  by (cases ms) (auto simp: after_def)

lemma after_Cons: "after (m # ms) = CHR '','' # slog_member m @ after ms"
  by (simp add: after_def)

lemma no_key_after:
  assumes "simple_key k" "other_keys k ms"
  shows "no_key k (after ms) []"
  using assms(2)
proof (induction ms)
  case Nil
  then show ?case by (simp add: after_def no_key_free)
next
  case (Cons m ms)
  obtain k' v where m: "m = (k', v)" by (cases m)
  obtain c t where t: "after ms = c # t" "c = CHR '','' \<or> c = CHR ''}''"
    using after_start by blast
  have "no_key k (slog_member m) (after ms @ [])"
    unfolding m t(1) append_Nil2 using assms(1) Cons.prems t(2)
    by (intro no_key_member) (auto simp: other_keys_def m)
  then show ?case
    unfolding after_Cons using Cons
    by (intro no_key_Cons no_key_append) (auto simp: other_keys_def)
qed

lemma find_digits_present:
  assumes "simple_key k" "other_keys k ms" "0 \<le> i"
  shows "find_digits_after (key_lit k) (slog_object (ms @ (k, EInt i) # ms')) = Some (itoa i)"
proof -
  obtain c t where t: "after ms' = c # t" "c = CHR '','' \<or> c = CHR ''}''"
    using after_start by blast
  have "slog_member (k, EInt i) @ after ms' = key_lit k @ itoa i @ after ms'"
    using assms(1) by (simp add: key_lit_def slog_quote_def slog_escape_plain simple_key_plain)
  moreover have "find_digits_after (key_lit k) (key_lit k @ itoa i @ after ms') = Some (itoa i)"
    using assms(3) t
    by (intro find_digits_after_here)
      (auto simp: key_lit_def itoa_def is_digit_def byte_of_def)
  ultimately show ?thesis
    using find_digits_skip [OF no_key_before [OF assms(1,2)]]
    by (simp only: slog_object_split)
qed

lemma no_key_object:
  assumes "simple_key k" "other_keys k ms"
  shows "no_key k (slog_object ms) []"
proof (cases ms rule: rev_cases)
  case Nil
  then show ?thesis by (simp add: slog_object_def no_key_free)
next
  case (snoc ns m)
  obtain k' v where m: "m = (k', v)" by (cases m)
  have "no_key k (slog_member m) (after [] @ [])"
    unfolding m after_def using assms
    by (simp add: snoc other_keys_def m del: slog_member.simps) (metis no_key_member)
  then show ?thesis
    unfolding snoc slog_object_split using assms
    by (intro no_key_append no_key_before no_key_after) (auto simp: snoc other_keys_def)
qed

lemma find_digits_absent:
  "simple_key k \<Longrightarrow> other_keys k ms \<Longrightarrow> find_digits_after (key_lit k) (slog_object ms) = None"
  using find_digits_skip [OF no_key_object] by (metis append_Nil2 find_digits_after.simps(1))

lemma member_text:
  "simple_key k \<Longrightarrow> slog_member (k, EStr s) = key_lit k @ slog_quote s"
  by (simp add: key_lit_def slog_quote_def slog_escape_plain simple_key_plain)

lemma prefix_quoted:
  assumes "dquote \<notin> set s" "dquote \<notin> set m"
  shows "prefix (m @ [dquote]) (s @ dquote # w) \<longleftrightarrow> s = m"
proof
  have up: "takeWhile (\<lambda>c. c \<noteq> dquote) (t @ dquote # v) = t" if "dquote \<notin> set t" for t v
    using that by (induction t) auto
  assume "prefix (m @ [dquote]) (s @ dquote # w)"
  then obtain v where "m @ dquote # v = s @ dquote # w" by (auto simp: prefix_def)
  then show "s = m" using up [OF assms(1)] up [OF assms(2)] by metis
qed auto

lemma contains_text:
  assumes k: "simple_key k" "other_keys k ms" "other_keys k ms'" and p: "plain_text s" "plain_text m"
  shows "contains (slog_object (ms @ (k, EStr s) # ms')) (key_lit k @ dquote # m @ [dquote]) \<longleftrightarrow> s = m"
proof -
  let ?rest = "k @ [dquote] @ [CHR '':''] @ slog_quote s @ after ms'"
  obtain c t where t: "after ms' = c # t" "c = CHR '','' \<or> c = CHR ''}''"
    using after_start by blast
  have line: "slog_member (k, EStr s) @ after ms' = dquote # ?rest"
    by (simp only: member_text [OF k(1)]) (simp add: key_lit_def)
  have "no_key k (slog_quote s) (after ms' @ [])"
    unfolding t(1) append_Nil2 append_Cons by (rule no_key_string [OF k(1) t(2)])
  then have "no_key k (slog_quote s @ after ms') []"
    using no_key_after [OF k(1,3)] by (rule no_key_append)
  then have "no_key k (CHR '':'' # slog_quote s @ after ms') []"
    by (rule no_key_Cons [rotated]) simp
  then have "no_key k ([dquote] @ CHR '':'' # slog_quote s @ after ms') []"
    using simple_key_chars(1) [OF k(1)] simple_key_hd [OF k(1)]
    by (intro no_key_append) (auto intro: no_key_closing)
  then have "no_key k (k @ [dquote] @ CHR '':'' # slog_quote s @ after ms') []"
    by (rule no_key_append [OF no_key_free [OF simple_key_chars(5) [OF k(1)]]])
  then have rest: "no_key k ?rest []" by simp
  have "\<not> contains ?rest (key_lit k @ dquote # m @ [dquote])"
    using contains_skip [OF rest] contains_key_Nil by (metis append_Nil2)
  moreover have "prefix (key_lit k @ dquote # m @ [dquote]) (dquote # ?rest) \<longleftrightarrow> s = m"
    using plain_no_quote [OF p(1)] plain_no_quote [OF p(2)]
    by (simp add: key_lit_def slog_quote_def slog_escape_plain [OF p(1)] prefix_quoted)
  ultimately have "contains (dquote # ?rest) (key_lit k @ dquote # m @ [dquote]) \<longleftrightarrow> s = m"
    by (simp add: contains_def sublist_Cons_right)
  then show ?thesis
    by (simp only: slog_object_split contains_skip [OF no_key_before [OF k(1,2)]] line)
qed

lemma not_contains_key:
  "simple_key k \<Longrightarrow> other_keys k ms \<Longrightarrow> \<not> contains (slog_object ms) (key_lit k @ v)"
  using contains_skip [OF no_key_object] contains_key_Nil by (metis append_Nil2)

end
