(* ===== verification/Go_Http.thy ===== *)
theory Go_Http
  imports Go_Errors
begin

text \<open>
  What the handlers use of \<open>net/http\<close>: a header map with canonical keys, and a response writer that
  records what was sent. The first status that is not an informational one is final, and a body
  written before any status sends 200.
\<close>

type_synonym http_header = "string \<Rightarrow> string list"

definition token_char :: "char \<Rightarrow> bool" where
  "token_char c \<longleftrightarrow> (let b = byte_of c in
     48 \<le> b \<and> b \<le> 57 \<or> 65 \<le> b \<and> b \<le> 90 \<or> 97 \<le> b \<and> b \<le> 122 \<or> c \<in> set ''!#$%&*+-.^_|~'' \<or> b = 39 \<or> b = 96)"

definition upper_char :: "char \<Rightarrow> char" where
  "upper_char c = (if 97 \<le> byte_of c \<and> byte_of c \<le> 122 then char_of (byte_of c - 32) else c)"

definition lower_char :: "char \<Rightarrow> char" where
  "lower_char c = (if 65 \<le> byte_of c \<and> byte_of c \<le> 90 then char_of (byte_of c + 32) else c)"

fun canon_from :: "bool \<Rightarrow> string \<Rightarrow> string" where
  "canon_from up [] = []"
| "canon_from up (c # s) = (if up then upper_char c else lower_char c) # canon_from (c = CHR ''-'') s"

definition canonical_key :: "string \<Rightarrow> string" where
  \<comment> \<open>\<open>textproto.CanonicalMIMEHeaderKey\<close>\<close>
  "canonical_key k = (if list_all token_char k then canon_from True k else k)"

definition header_set :: "http_header \<Rightarrow> string \<Rightarrow> string \<Rightarrow> http_header" where
  "header_set h k v = h(canonical_key k := [v])"

definition header_add :: "http_header \<Rightarrow> string \<Rightarrow> string \<Rightarrow> http_header" where
  "header_add h k v = h(canonical_key k := h (canonical_key k) @ [v])"

definition header_get :: "http_header \<Rightarrow> string \<Rightarrow> string" where
  "header_get h k = (case h (canonical_key k) of [] \<Rightarrow> '''' | v # _ \<Rightarrow> v)"

definition add_header_line :: "http_header \<Rightarrow> string \<Rightarrow> http_header" where
  \<comment> \<open>a header flag, \<^verbatim>\<open>Key: Value\<close>; a line without a colon is ignored\<close>
  "add_header_line h line = (case cut_on (CHR '':'') line of None \<Rightarrow> h
     | Some (k, v) \<Rightarrow> header_add h (trim_space k) (trim_space v))"

record response =
  resp_header :: http_header
  resp_status :: "int option"
  resp_body :: string

definition no_response :: response where
  "no_response = \<lparr>resp_header = (\<lambda>_. []), resp_status = None, resp_body = ''''\<rparr>"

definition set_header :: "string \<Rightarrow> string \<Rightarrow> response \<Rightarrow> response" where
  "set_header k v w = w\<lparr>resp_header := header_set (resp_header w) k v\<rparr>"

definition add_header :: "string \<Rightarrow> string \<Rightarrow> response \<Rightarrow> response" where
  "add_header k v w = w\<lparr>resp_header := header_add (resp_header w) k v\<rparr>"

definition write_header :: "int \<Rightarrow> response \<Rightarrow> response" where
  "write_header code w =
     (if resp_status w \<noteq> None \<or> (100 \<le> code \<and> code \<le> 199 \<and> code \<noteq> 101) then w
      else w\<lparr>resp_status := Some code\<rparr>)"

definition write_body :: "string \<Rightarrow> response \<Rightarrow> response" where
  "write_body s w = (let w' = write_header 200 w in w'\<lparr>resp_body := resp_body w' @ s\<rparr>)"

lemmas response_defs = no_response_def set_header_def add_header_def write_header_def write_body_def

end
