(* ===== verification/Udpsock.thy ===== *)
theory Udpsock
  imports Go_Errors
begin

text \<open>
  \<^verbatim>\<open>internal/udpsock/udpsock.go\<close>: binding a UDP socket with explicit buffer sizes, and the UDP
  counters of the kernel read from \<^verbatim>\<open>/proc/net/snmp\<close>. The system calls of \<open>Listen\<close> are arguments that
  return their error, and the function returns the calls it made, in order, beside its result.
  \<open>bufio.Scanner\<close> is modelled with its limit of 64 KiB per line. Counters are 64-bit words, so the
  difference of two readings wraps exactly as in Go.
\<close>

section \<open>Binding a socket\<close>

datatype sock_call =
  ResolveUDPAddr string | ListenUDP | SetReadBuffer int | SetWriteBuffer int | CloseSock

record sock_env =
  env_resolve :: "string \<Rightarrow> goerr option"
  env_listen :: "string \<Rightarrow> goerr option"
  env_set_read :: "int \<Rightarrow> goerr option"
  env_set_write :: "int \<Rightarrow> goerr option"

definition set_write_step :: "sock_env \<Rightarrow> int \<Rightarrow> goerr option \<times> sock_call list" where
  "set_write_step env sendBuf =
     (if sendBuf > 0 then
        (case env_set_write env sendBuf of
           Some e \<Rightarrow> (Some (wrap_error (''set write buffer '' @ itoa sendBuf @ '': '') e),
             [SetWriteBuffer sendBuf, CloseSock])
         | None \<Rightarrow> (None, [SetWriteBuffer sendBuf]))
      else (None, []))"

definition set_read_step :: "sock_env \<Rightarrow> int \<Rightarrow> int \<Rightarrow> goerr option \<times> sock_call list" where
  "set_read_step env recvBuf sendBuf =
     (if recvBuf > 0 then
        (case env_set_read env recvBuf of
           Some e \<Rightarrow> (Some (wrap_error (''set read buffer '' @ itoa recvBuf @ '': '') e),
             [SetReadBuffer recvBuf, CloseSock])
         | None \<Rightarrow> (let (r, cs) = set_write_step env sendBuf in (r, SetReadBuffer recvBuf # cs)))
      else set_write_step env sendBuf)"

definition Listen :: "sock_env \<Rightarrow> string \<Rightarrow> int \<Rightarrow> int \<Rightarrow> goerr option \<times> sock_call list" where
  \<comment> \<open>\<open>None\<close>: the bound connection is returned\<close>
  "Listen env addr recvBuf sendBuf =
     (case env_resolve env addr of Some e \<Rightarrow> (Some e, [ResolveUDPAddr addr])
      | None \<Rightarrow> (case env_listen env addr of
           Some e \<Rightarrow> (Some e, [ResolveUDPAddr addr, ListenUDP])
         | None \<Rightarrow> (let (r, cs) = set_read_step env recvBuf sendBuf
             in (r, [ResolveUDPAddr addr, ListenUDP] @ cs))))"

lemmas listen_defs = Listen_def set_read_step_def set_write_step_def

text \<open>\<open>Listen\<close> never leaks a socket: once the socket is bound, it is closed exactly once when an
  error is returned and not at all when the connection is handed to the caller.\<close>

lemma listen_closes_on_error:
  assumes "env_resolve env addr = None" "env_listen env addr = None"
  shows "count_list (snd (Listen env addr recvBuf sendBuf)) CloseSock =
    (if fst (Listen env addr recvBuf sendBuf) = None then 0 else 1)"
  using assms by (auto simp: listen_defs split: option.splits)

section \<open>The kernel's counters\<close>

record Counters =
  InDatagrams :: u64
  NoPorts :: u64
  InErrors :: u64
  OutDatagrams :: u64
  RcvbufErrors :: u64
  SndbufErrors :: u64
  InCsumErrors :: u64

definition zero_counters :: Counters where
  "zero_counters = \<lparr>InDatagrams = 0, NoPorts = 0, InErrors = 0, OutDatagrams = 0,
     RcvbufErrors = 0, SndbufErrors = 0, InCsumErrors = 0\<rparr>"

definition counters_string :: "Counters \<Rightarrow> string" where
  "counters_string c = ''in='' @ nat_digits (unat (InDatagrams c)) @ '' out='' @ nat_digits (unat (OutDatagrams c))
     @ '' in_errors='' @ nat_digits (unat (InErrors c)) @ '' rcvbuf_errors='' @ nat_digits (unat (RcvbufErrors c))
     @ '' sndbuf_errors='' @ nat_digits (unat (SndbufErrors c))"

definition Sub :: "Counters \<Rightarrow> Counters \<Rightarrow> Counters" where
  "Sub c prev = \<lparr>InDatagrams = InDatagrams c - InDatagrams prev, NoPorts = NoPorts c - NoPorts prev,
     InErrors = InErrors c - InErrors prev, OutDatagrams = OutDatagrams c - OutDatagrams prev,
     RcvbufErrors = RcvbufErrors c - RcvbufErrors prev, SndbufErrors = SndbufErrors c - SndbufErrors prev,
     InCsumErrors = InCsumErrors c - InCsumErrors prev\<rparr>"

definition drop_cr :: "string \<Rightarrow> string" where
  "drop_cr l = (if l \<noteq> [] \<and> last l = CHR 0x0D then butlast l else l)"

function scan_lines :: "nat \<Rightarrow> string \<Rightarrow> string list" where
  \<comment> \<open>the lines a \<open>bufio.Scanner\<close> delivers; it stops at a line that does not fit its buffer\<close>
  "scan_lines mx s =
     (if s = [] then []
      else let line = takeWhile (\<lambda>c. c \<noteq> CHR 0x0A) s in
        if mx \<le> length line then []
        else drop_cr line # scan_lines mx (drop (Suc (length line)) s))"
  by pat_completeness auto
termination
  by (relation "measure (\<lambda>(mx, s). length s)") auto

declare scan_lines.simps [simp del]

definition max_scan_token :: nat where
  "max_scan_token = 64 * 1024"

fun store_value :: "(string \<rightharpoonup> u64) \<Rightarrow> string \<times> string \<Rightarrow> (string \<rightharpoonup> u64)" where
  "store_value m (name, f) =
     (case parse_uint64 f of (n, None) \<Rightarrow> m(name \<mapsto> n) | (_, Some _) \<Rightarrow> m)"

definition row_values :: "string list \<Rightarrow> string list \<Rightarrow> (string \<rightharpoonup> u64)" where
  \<comment> \<open>the loop from 1 to the shorter of the two lengths, names from the header\<close>
  "row_values header fs = foldl store_value Map.empty (zip (tl header) (tl fs))"

definition map_get :: "(string \<rightharpoonup> u64) \<Rightarrow> string \<Rightarrow> u64" where
  "map_get m k = (case m k of None \<Rightarrow> 0 | Some v \<Rightarrow> v)"

definition counters_of :: "(string \<rightharpoonup> u64) \<Rightarrow> Counters" where
  "counters_of v = \<lparr>InDatagrams = map_get v ''InDatagrams'', NoPorts = map_get v ''NoPorts'',
     InErrors = map_get v ''InErrors'', OutDatagrams = map_get v ''OutDatagrams'',
     RcvbufErrors = map_get v ''RcvbufErrors'', SndbufErrors = map_get v ''SndbufErrors'',
     InCsumErrors = map_get v ''InCsumErrors''\<rparr>"

fun parse_lines :: "string list option \<Rightarrow> string list \<Rightarrow> Counters \<times> bool" where
  "parse_lines header [] = (zero_counters, False)"
| "parse_lines header (line # ls) =
     (if \<not> prefix ''Udp:'' line then parse_lines header ls
      else (case header of None \<Rightarrow> parse_lines (Some (str_fields line)) ls
        | Some h \<Rightarrow> (counters_of (row_values h (str_fields line)), True)))"

definition parseCounters :: "string \<Rightarrow> Counters \<times> bool" where
  "parseCounters r = parse_lines None (scan_lines max_scan_token r)"

definition ReadCounters :: "string option \<Rightarrow> Counters \<times> bool" where
  \<comment> \<open>the argument is the content of \<^verbatim>\<open>/proc/net/snmp\<close>, \<open>None\<close> where it cannot be opened\<close>
  "ReadCounters f = (case f of None \<Rightarrow> (zero_counters, False) | Some r \<Rightarrow> parseCounters r)"

section \<open>Lemmas\<close>

lemma parse_lines_skip:
  "list_all (\<lambda>l. \<not> prefix ''Udp:'' l) pre \<Longrightarrow> parse_lines h (pre @ ls) = parse_lines h ls"
  by (induction pre) auto

lemma parse_lines_table:
  assumes "list_all (\<lambda>l. \<not> prefix ''Udp:'' l) pre" "list_all (\<lambda>l. \<not> prefix ''Udp:'' l) mid"
    and "prefix ''Udp:'' hdr" "prefix ''Udp:'' row"
  shows "parse_lines None (pre @ hdr # mid @ row # rest)
    = (counters_of (row_values (str_fields hdr) (str_fields row)), True)"
  using assms by (simp add: parse_lines_skip)

lemma foldl_store_other:
  "name \<notin> fst ` set ps \<Longrightarrow> foldl store_value m ps name = m name"
  by (induction ps arbitrary: m) (auto split: prod.splits option.splits)

lemma foldl_store_at:
  assumes "distinct (map fst ps)" "(name, f) \<in> set ps" "parse_uint64 f = (n, None)"
  shows "foldl store_value m ps name = Some n"
  using assms
proof (induction ps arbitrary: m)
  case (Cons p ps)
  show ?case
  proof (cases "p = (name, f)")
    case True
    with Cons.prems show ?thesis by (simp add: foldl_store_other)
  next
    case False
    with Cons show ?thesis by (cases p) auto
  qed
qed simp

lemma row_values_at:
  assumes "distinct (tl header)" "i < length (tl header)" "i < length (tl fs)"
    and "parse_uint64 (tl fs ! i) = (n, None)"
  shows "row_values header fs (tl header ! i) = Some n"
proof -
  let ?ps = "zip (tl header) (tl fs)"
  have "distinct (map fst ?ps)" using assms(1) by (simp add: map_fst_zip_take distinct_take)
  moreover have "(tl header ! i, tl fs ! i) \<in> set ?ps"
    using assms(2,3) by (force simp: set_zip)
  ultimately show ?thesis
    unfolding row_values_def using assms(4) by (rule foldl_store_at)
qed

lemma row_values_absent:
  "name \<notin> set (tl header) \<Longrightarrow> row_values header fs name = None"
  unfolding row_values_def by (subst foldl_store_other) (auto dest: set_zip_leftD)

lemma scan_lines_Cons:
  assumes "CHR 0x0A \<notin> set l" "length l < mx"
  shows "scan_lines mx (l @ CHR 0x0A # s) = drop_cr l # scan_lines mx s"
proof -
  have "takeWhile (\<lambda>c. c \<noteq> CHR 0x0A) (l @ CHR 0x0A # s) = l"
    using assms(1) by (auto simp: takeWhile_append)
  then show ?thesis
    using assms(2) by (simp add: scan_lines.simps [of mx "l @ CHR 0x0A # s"] Let_def)
qed

lemma scan_lines_Nil [simp]: "scan_lines mx [] = []"
  by (simp add: scan_lines.simps)

definition plain_line :: "nat \<Rightarrow> string \<Rightarrow> bool" where
  \<comment> \<open>a line without line breaks that fits the scanner's buffer\<close>
  "plain_line mx l \<longleftrightarrow> CHR 0x0A \<notin> set l \<and> CHR 0x0D \<notin> set l \<and> length l < mx"

lemma scan_lines_table:
  assumes "list_all (plain_line mx) ls"
  shows "scan_lines mx (concat (map (\<lambda>l. l @ [CHR 0x0A]) ls)) = ls"
  using assms
proof (induction ls)
  case (Cons l ls)
  have "l \<noteq> [] \<Longrightarrow> last l \<noteq> CHR 0x0D" using Cons.prems last_in_set [of l] by (force simp: plain_line_def)
  then have "drop_cr l = l" by (auto simp: drop_cr_def)
  then show ?case using Cons by (simp add: scan_lines_Cons plain_line_def)
qed simp

section \<open>Properties\<close>

text \<open>The counters are read by name, not by position: in a file whose first \<open>Udp:\<close> line is the
  header and whose second is the row, every well-formed value of the row is stored under the name
  its column has in the header, whatever the order and number of the columns; a counter whose
  name the header does not list reads as zero, and the read succeeds.\<close>

lemma parse_counters_by_name:
  assumes lines: "list_all (plain_line max_scan_token) (pre @ hdr # mid @ row # rest)"
    and other: "list_all (\<lambda>l. \<not> prefix ''Udp:'' l) pre" "list_all (\<lambda>l. \<not> prefix ''Udp:'' l) mid"
    and udp: "prefix ''Udp:'' hdr" "prefix ''Udp:'' row"
    and names: "distinct (tl (str_fields hdr))"
  shows "\<exists>v. parseCounters (concat (map (\<lambda>l. l @ [CHR 0x0A]) (pre @ hdr # mid @ row # rest)))
      = (counters_of v, True)
    \<and> (\<forall>i n. i < length (tl (str_fields hdr)) \<longrightarrow> i < length (tl (str_fields row)) \<longrightarrow>
         parse_uint64 (tl (str_fields row) ! i) = (n, None) \<longrightarrow> v (tl (str_fields hdr) ! i) = Some n)
    \<and> (\<forall>name. name \<notin> set (tl (str_fields hdr)) \<longrightarrow> map_get v name = 0)"
proof (intro exI conjI allI impI)
  let ?v = "row_values (str_fields hdr) (str_fields row)"
  show "parseCounters (concat (map (\<lambda>l. l @ [CHR 0x0A]) (pre @ hdr # mid @ row # rest)))
      = (counters_of ?v, True)"
    unfolding parseCounters_def
    by (simp only: scan_lines_table [OF lines] parse_lines_table [OF other udp])
  show "?v (tl (str_fields hdr) ! i) = Some n"
    if "i < length (tl (str_fields hdr))" "i < length (tl (str_fields row))"
      "parse_uint64 (tl (str_fields row) ! i) = (n, None)" for i n
    using row_values_at names that by blast
  show "map_get ?v name = 0" if "name \<notin> set (tl (str_fields hdr))" for name
    using that by (simp add: map_get_def row_values_absent)
qed

definition counters_add :: "Counters \<Rightarrow> Counters \<Rightarrow> Counters" where
  \<comment> \<open>what a reader of the reports does with them\<close>
  "counters_add c d = \<lparr>InDatagrams = InDatagrams c + InDatagrams d, NoPorts = NoPorts c + NoPorts d,
     InErrors = InErrors c + InErrors d, OutDatagrams = OutDatagrams c + OutDatagrams d,
     RcvbufErrors = RcvbufErrors c + RcvbufErrors d, SndbufErrors = SndbufErrors c + SndbufErrors d,
     InCsumErrors = InCsumErrors c + InCsumErrors d\<rparr>"

interpretation counters: delta_reports Sub counters_add
  by unfold_locales (simp add: Sub_def counters_add_def)

lemma Sub_self [simp]: "Sub c c = zero_counters"
  by (simp add: Sub_def zero_counters_def)

end
