(* ===== verification/Quiccfg.thy ===== *)
theory Quiccfg
  imports Go_Errors
begin

text \<open>
  \<^verbatim>\<open>internal/quiccfg/quiccfg.go\<close> and \<^verbatim>\<open>internal/qlogtrace/qlogtrace.go\<close>: the QUIC configuration
  of every hop and the switch that turns qlog tracing on. The fields are those of \<open>quic.Config\<close> that
  the program sets. The two system calls of \<open>Configure\<close> are arguments that return their error.
\<close>

datatype quic_version = Version1 | Version2

record quic_config =
  HandshakeIdleTimeout :: duration
  MaxIdleTimeout :: duration
  KeepAlivePeriod :: duration
  EnableDatagrams :: bool
  Versions :: "quic_version list"
  Allow0RTT :: bool
  MaxIncomingStreams :: int
  Tracer :: bool \<comment> \<open>whether the default qlog tracer is installed\<close>

definition zero_config :: quic_config where
  "zero_config = \<lparr>HandshakeIdleTimeout = 0, MaxIdleTimeout = 0, KeepAlivePeriod = 0,
     EnableDatagrams = False, Versions = [], Allow0RTT = False, MaxIncomingStreams = 0,
     Tracer = False\<rparr>"

definition base_config :: "duration \<Rightarrow> duration \<Rightarrow> quic_config" where
  "base_config maxIdle keepAlive = zero_config
     \<lparr>MaxIdleTimeout := maxIdle, KeepAlivePeriod := keepAlive, EnableDatagrams := True,
      Versions := [Version1, Version2]\<rparr>"

definition Client :: "duration \<Rightarrow> duration \<Rightarrow> quic_config" where
  "Client maxIdle keepAlive = (base_config maxIdle keepAlive)\<lparr>Versions := [Version1]\<rparr>"

definition Server :: "duration \<Rightarrow> duration \<Rightarrow> quic_config" where
  "Server maxIdle keepAlive = (base_config maxIdle keepAlive)\<lparr>Allow0RTT := True\<rparr>"

lemmas quic_config_defs = zero_config_def base_config_def Client_def Server_def

definition Configure ::
  "(string \<Rightarrow> goerr option) \<Rightarrow> (string \<Rightarrow> goerr option) \<Rightarrow> quic_config \<Rightarrow> string \<Rightarrow> goerr + quic_config"
  where
  \<comment> \<open>\<open>os.MkdirAll\<close> and \<open>os.Setenv\<close> on QLOGDIR come first; the configuration is the one after the call\<close>
  "Configure mkdir setenv conf dir =
     (if dir = '''' then Inr conf
      else case mkdir dir of Some e \<Rightarrow> Inl (wrap_error ''create qlog dir: '' e)
        | None \<Rightarrow> (case setenv dir of Some e \<Rightarrow> Inl (wrap_error ''set QLOGDIR: '' e)
            | None \<Rightarrow> Inr (conf\<lparr>Tracer := True\<rparr>)))"

text \<open>The two ends of every hop can talk: for any timeouts the single version a dialling client
  offers is one the server accepts, both enable datagrams, only the server allows 0-RTT, and
  turning tracing on changes nothing of the configuration but the tracer.\<close>

lemma client_server_compatible:
  "set (Versions (Client i k)) \<subseteq> set (Versions (Server j l)) \<and> length (Versions (Client i k)) = 1
   \<and> EnableDatagrams (Client i k) \<and> EnableDatagrams (Server j l)
   \<and> \<not> Allow0RTT (Client i k) \<and> Allow0RTT (Server j l)
   \<and> (\<forall>c. Configure mkdir setenv conf dir = Inr c \<longrightarrow>
        c\<lparr>Tracer := False\<rparr> = conf\<lparr>Tracer := False\<rparr> \<and> (Tracer c \<longleftrightarrow> Tracer conf \<or> dir \<noteq> ''''))"
  by (auto simp: quic_config_defs Configure_def split: option.splits if_splits)

end
