(* ===== verification/Edge_Http.thy ===== *)
theory Edge_Http
  imports Edge_Registry Go_Slog Go_Http Udpsock Quiccfg
begin

text \<open>
  The public side of \<^verbatim>\<open>internal/edge/edge.go\<close>: \<open>ServeHTTP\<close> and what it calls, the listeners, and the
  log of kernel counters. What the network does to one request is the record \<open>exchange\<close>: the error of
  each call on the tunnel stream, the state of the two contexts where the code looks at them, and
  the origin's response. The result of a request is the response the client sees, the log lines and
  the calls made on the tunnel stream.
\<close>

section \<open>Errors to the client\<close>

definition statusOriginTimeout :: int where "statusOriginTimeout = 524"
definition StatusBadGateway :: int where "StatusBadGateway = 502"

definition isTimeout :: "goerr \<Rightarrow> bool" where
  \<comment> \<open>\<open>errors.As\<close> to an interface with \<open>Timeout() bool\<close>\<close>
  "isTimeout err \<longleftrightarrow> (case errors_as (\<lambda>e. err_timeout e \<noteq> NoTimeout) err of
     None \<Rightarrow> False | Some e \<Rightarrow> timeout_of e)"

definition classifyOriginFailure :: "goerr \<Rightarrow> ctx_err \<Rightarrow> int \<times> int \<times> string" where
  "classifyOriginFailure err ctx =
     (if ctx = Some DeadlineExceeded \<or> errors_is err DeadlineExceeded \<or> isTimeout err
      then (statusOriginTimeout, 524, ''origin did not respond in time'')
      else (StatusBadGateway, 1014, ''origin connection error''))"

definition clientGone :: "ctx_err \<Rightarrow> bool" where
  \<comment> \<open>on the error of the request's own context\<close>
  "clientGone r \<longleftrightarrow> r = Some Canceled"

definition cf_body :: "int \<Rightarrow> string \<Rightarrow> string" where
  "cf_body cfCode detail = ''error code: '' @ itoa cfCode @ [CHR 0x0A] @ detail @ [CHR 0x0A]"

definition writeCFError :: "int \<Rightarrow> int \<Rightarrow> string \<Rightarrow> response \<Rightarrow> response" where
  "writeCFError status cfCode detail w =
     write_body (cf_body cfCode detail) (write_header status
       (set_header ''cf-error-code'' (itoa cfCode)
         (set_header ''content-type'' ''text/plain; charset=utf-8'' w)))"

definition newRay :: "nat list option \<Rightarrow> int \<Rightarrow> string" where
  \<comment> \<open>eight random bytes, or the clock where the random source fails\<close>
  "newRay rand nano = (case rand of
     Some bs \<Rightarrow> concat (map (\<lambda>b. [hex_char (b div 16 mod 16), hex_char (b mod 16)]) bs)
   | None \<Rightarrow> if nano < 0 then CHR ''-'' # nat_hex (nat (- nano)) else nat_hex (nat nano))"

section \<open>One request\<close>

record exchange =
  ex_ray :: string
  ex_path :: string
  ex_proto :: string
  ex_remote :: string \<comment> \<open>\<open>connector.conn.RemoteAddr().String()\<close>\<close>
  ex_open :: "goerr option" \<comment> \<open>the error of \<open>OpenStreamSync\<close>\<close>
  ex_gone_open :: ctx_err \<comment> \<open>\<open>r.Context().Err()\<close> after it failed\<close>
  ex_write :: "goerr option" \<comment> \<open>the error of \<open>outbound.Write\<close>\<close>
  ex_read :: "goerr + response" \<comment> \<open>\<open>http.ReadResponse\<close>: an error, or status, header and full body\<close>
  ex_gone_read :: ctx_err
  ex_ctx :: ctx_err \<comment> \<open>\<open>ctx.Err()\<close> of the context with the origin timeout\<close>
  ex_copied :: nat \<comment> \<open>the bytes \<open>io.Copy\<close> got through\<close>
  ex_copy :: "goerr option"
  ex_elapsed :: int

datatype stream_call = OpenStreamSync | SetDeadline | SendRequest | CloseWrite | CancelRead

record served =
  sv_response :: response
  sv_log :: "log_line list"
  sv_calls :: "stream_call list"

definition status_of :: "response \<Rightarrow> int" where
  "status_of r = (case resp_status r of None \<Rightarrow> 0 | Some s \<Rightarrow> s)"

definition base_attrs :: "exchange \<Rightarrow> (string \<times> jenc) list" where
  "base_attrs x = [(''role'', EStr ''edge''), (''ray'', EStr (ex_ray x)), (''path'', EStr (ex_path x)),
     (''proto'', EStr (ex_proto x))]"

definition conn_attrs :: "exchange \<Rightarrow> connectorRef \<Rightarrow> (string \<times> jenc) list" where
  "conn_attrs x c = base_attrs x @ [(''connector_id'', EInt (uint (cr_id c))),
     (''connector_remote'', EStr (ex_remote x))]"

definition kind_attrs :: "goerr \<Rightarrow> (string \<times> jenc) list" where
  "kind_attrs err = [(''err_kind'', EStr (kind_string (fst (Classify (Some err))))),
     (''err_detail'', EStr (snd (Classify (Some err))))]"

definition start_response :: "exchange \<Rightarrow> response" where
  "start_response x = set_header ''server'' ''quicshot-edge'' (set_header ''cf-ray'' (ex_ray x) no_response)"

definition merge_headers :: "http_header \<Rightarrow> response \<Rightarrow> response" where
  \<comment> \<open>\<open>Header().Add\<close> of every value; the origin's keys are canonical, so the order of keys is immaterial\<close>
  "merge_headers h w = w\<lparr>resp_header := (\<lambda>k. resp_header w k @ h k)\<rparr>"

definition forward_response :: "exchange \<Rightarrow> connectorRef \<Rightarrow> response \<Rightarrow> served" where
  \<comment> \<open>\<open>ServeHTTP\<close> from the response's header on\<close>
  "forward_response x c r =
     (let w = write_header (status_of r) (merge_headers (resp_header r) (start_response x));
          w' = (if 0 < ex_copied x then write_body (take (ex_copied x) (resp_body r)) w else w);
          attrs = conn_attrs x c @ [(''status'', EInt (status_of r)),
            (''bytes'', EInt (int (ex_copied x))), (''elapsed_ms'', EInt (ex_elapsed x))]
      in \<lparr>sv_response = w',
          sv_log = [(case ex_copy x of
              Some err \<Rightarrow> \<lparr>log_level = LevelWarn, log_msg = ''body copy interrupted'',
                log_attrs = attrs @ kind_attrs err\<rparr>
            | None \<Rightarrow> \<lparr>log_level = LevelInfo, log_msg = ''proxied'', log_attrs = attrs\<rparr>)],
          sv_calls = [OpenStreamSync, SetDeadline, SendRequest, CloseWrite, CancelRead]\<rparr>)"

definition read_failed :: "exchange \<Rightarrow> connectorRef \<Rightarrow> goerr \<Rightarrow> served" where
  "read_failed x c err =
     (let calls = [OpenStreamSync, SetDeadline, SendRequest, CloseWrite, CancelRead] in
      if clientGone (ex_gone_read x)
      then \<lparr>sv_response = start_response x,
            sv_log = [\<lparr>log_level = LevelDebug, log_msg = ''client gave up before the origin responded'',
              log_attrs = conn_attrs x c @ [(''elapsed_ms'', EInt (ex_elapsed x))]\<rparr>],
            sv_calls = calls\<rparr>
      else case classifyOriginFailure err (ex_ctx x) of (status, code, label) \<Rightarrow>
           \<lparr>sv_response = writeCFError status code label (start_response x),
            sv_log = [\<lparr>log_level = LevelError, log_msg = ''origin failure'',
              log_attrs = conn_attrs x c @ [(''status'', EInt status), (''cf_code'', EInt code)]
                @ kind_attrs err @ [(''elapsed_ms'', EInt (ex_elapsed x))]\<rparr>],
            sv_calls = calls\<rparr>)"

definition serve_on :: "exchange \<Rightarrow> connectorRef \<Rightarrow> served" where
  \<comment> \<open>\<open>ServeHTTP\<close> once a connector is picked\<close>
  "serve_on x c =
     (case ex_open x of
        Some err \<Rightarrow>
          if clientGone (ex_gone_open x)
          then \<lparr>sv_response = start_response x,
                sv_log = [\<lparr>log_level = LevelDebug,
                  log_msg = ''client gave up before the tunnel stream opened'', log_attrs = conn_attrs x c\<rparr>],
                sv_calls = [OpenStreamSync]\<rparr>
          else \<lparr>sv_response = writeCFError StatusBadGateway 1033 ''tunnel stream unavailable'' (start_response x),
                sv_log = [\<lparr>log_level = LevelError, log_msg = ''open tunnel stream'',
                  log_attrs = conn_attrs x c @ [(''status'', EInt 502)] @ kind_attrs err\<rparr>],
                sv_calls = [OpenStreamSync]\<rparr>
      | None \<Rightarrow>
       (case ex_write x of
          Some err \<Rightarrow>
            \<lparr>sv_response = writeCFError StatusBadGateway 1033 ''failed to forward request'' (start_response x),
             sv_log = [\<lparr>log_level = LevelError, log_msg = ''write tunnel request'',
               log_attrs = conn_attrs x c @ [(''status'', EInt 502)] @ kind_attrs err\<rparr>],
             sv_calls = [OpenStreamSync, SetDeadline, SendRequest, CancelRead]\<rparr>
        | None \<Rightarrow> (case ex_read x of Inl err \<Rightarrow> read_failed x c err | Inr r \<Rightarrow> forward_response x c r)))"

definition ServeHTTP :: "int \<Rightarrow> exchange \<Rightarrow> Edge \<Rightarrow> (served \<times> Edge) panicking" where
  "ServeHTTP now x e =
     (case pickConnector now (ex_path x) e of
        Panic p \<Rightarrow> Panic p
      | Done (None, e') \<Rightarrow>
          Done (\<lparr>sv_response = writeCFError StatusBadGateway 1033 ''no connector registered'' (start_response x),
                 sv_log = [\<lparr>log_level = LevelError, log_msg = ''no connector'',
                   log_attrs = base_attrs x @ [(''status'', EInt 502), (''cf_code'', EInt 1033)]\<rparr>],
                 sv_calls = []\<rparr>, e')
      | Done (Some c, e') \<Rightarrow> Done (serve_on x c, e'))"

section \<open>Log lines of the tunnel side\<close>

definition connected_line :: "u64 \<Rightarrow> string \<Rightarrow> int \<Rightarrow> log_line" where
  "connected_line i remote n = \<lparr>log_level = LevelInfo, log_msg = ''connector connected'',
     log_attrs = [(''role'', EStr ''edge''), (''connector_id'', EInt (uint i)), (''remote'', EStr remote),
       (''connectors'', EInt n), (''registered'', EInt 0)]\<rparr>"

definition registered_line :: "u64 \<Rightarrow> Msg \<Rightarrow> int \<Rightarrow> log_line" where
  "registered_line i m n = \<lparr>log_level = LevelInfo, log_msg = ''connector registered'',
     log_attrs = [(''role'', EStr ''edge''), (''connector_id'', EInt (uint i)), (''ha_id'', EInt (msg_HAID m)),
       (''hostname'', EStr (msg_Hostname m)), (''registered'', EInt n)]\<rparr>"

definition unregistered_line :: "u64 \<Rightarrow> Msg \<Rightarrow> int \<Rightarrow> log_line" where
  "unregistered_line i m n = \<lparr>log_level = LevelInfo, log_msg = ''connector unregistered'',
     log_attrs = [(''role'', EStr ''edge''), (''connector_id'', EInt (uint i)), (''reason'', EStr (msg_Reason m)),
       (''registered'', EInt n)]\<rparr>"

definition lost_line :: "u64 \<Rightarrow> string \<Rightarrow> int \<Rightarrow> int \<Rightarrow> goerr option \<Rightarrow> log_line" where
  "lost_line i remote n lv cause = \<lparr>log_level = LevelWarn, log_msg = ''connector lost'',
     log_attrs = [(''role'', EStr ''edge''), (''connector_id'', EInt (uint i)), (''remote'', EStr remote),
       (''connectors'', EInt n), (''registered'', EInt lv),
       (''close_kind'', EStr (kind_string (fst (CloseReason cause)))),
       (''close_detail'', EStr (snd (CloseReason cause)))]\<rparr>"

definition control_log :: "int \<Rightarrow> u64 \<Rightarrow> Msg \<Rightarrow> Edge \<Rightarrow> log_line list" where
  \<comment> \<open>what \<open>serveControl\<close> logs for a message, given the state after it was applied\<close>
  "control_log now i m e =
     (if msg_T m = TypeRegister then [registered_line i m (Registered now e)]
      else if msg_T m = TypeUnregister then [unregistered_line i m (Registered now e)] else [])"

section \<open>Listeners and counters\<close>

datatype net_addr =
    UDPAddr "(string \<times> bool) option" int \<comment> \<open>the IP's text and whether it is unspecified; the port\<close>
  | OtherAddr string

fun tcpAddrForUDP :: "net_addr \<Rightarrow> string" where
  "tcpAddrForUDP (OtherAddr s) = s"
| "tcpAddrForUDP (UDPAddr ip port) = join_host_port
     (case ip of Some (text, unspecified) \<Rightarrow> if unspecified then '''' else text | None \<Rightarrow> '''') (itoa port)"

datatype public_event = PublicDone | ServeError goerr

definition servePublic ::
  "edge_config \<Rightarrow> (string \<Rightarrow> goerr option) \<Rightarrow> (string \<Rightarrow> goerr option) \<Rightarrow> sock_env \<Rightarrow> public_event \<Rightarrow>
     goerr option \<times> sock_call list" where
  \<comment> \<open>the event is what the final \<open>select\<close> sees first: the context done or a server's error\<close>
  "servePublic cfg mkdir setenv env ev =
     (case Configure mkdir setenv (Server (maxIdle cfg) (keepAlive cfg)) (edge_qlogDir cfg) of
        Inl err \<Rightarrow> (Some err, [])
      | Inr conf \<Rightarrow>
       (case Listen env (publicAddr cfg) (edge_recvBuf cfg) (edge_sendBuf cfg) of
          (Some err, calls) \<Rightarrow> (Some (wrap_error ''public udp socket: '' err), calls)
        | (None, calls) \<Rightarrow>
           ((case ev of PublicDone \<Rightarrow> None | ServeError err \<Rightarrow> Some err), calls @ [CloseSock])))"

datatype accept_event = Accepted nat | AcceptFailed

fun accept_loop :: "accept_event list \<Rightarrow> Edge \<Rightarrow> Edge" where
  \<comment> \<open>the goroutine of \<open>serveTunnel\<close>, up to the end of the context: an error is logged and the loop goes on\<close>
  "accept_loop [] e = e"
| "accept_loop (Accepted conn # evs) e = accept_loop evs (addConnector conn e)"
| "accept_loop (AcceptFailed # evs) e = accept_loop evs e"

definition tunnel_quic :: "edge_config \<Rightarrow> quic_config" where
  "tunnel_quic cfg = (Server (tunnelMaxIdle cfg) (tunnelKeepAlive cfg))\<lparr>MaxIncomingStreams := 16384\<rparr>"

definition serveTunnel ::
  "(string \<Rightarrow> goerr option) \<Rightarrow> (string \<Rightarrow> goerr option) \<Rightarrow> goerr option \<Rightarrow> accept_event list \<Rightarrow> Edge \<Rightarrow> goerr option \<times> Edge" where
  \<comment> \<open>\<open>quic.ListenAddr\<close>'s error and what \<open>Accept\<close> gives are arguments\<close>
  "serveTunnel mkdir setenv listen evs e =
     (case Configure mkdir setenv (tunnel_quic (edge_cfg e)) (edge_qlogDir (edge_cfg e)) of
        Inl err \<Rightarrow> (Some err, e)
      | Inr _ \<Rightarrow> (case listen of Some err \<Rightarrow> (Some (wrap_error ''listen for connectors: '' err), e)
          | None \<Rightarrow> (None, accept_loop evs e)))"

definition edge_start_up ::
  "(string \<Rightarrow> goerr option) \<Rightarrow> (string \<Rightarrow> goerr option) \<Rightarrow> goerr option \<Rightarrow> accept_event list \<Rightarrow>
     sock_env \<Rightarrow> public_event \<Rightarrow> Edge \<Rightarrow> goerr option \<times> Edge" where
  \<comment> \<open>\<open>Start\<close>: the tunnel side first, then the public side until it ends\<close>
  "edge_start_up mkdir setenv listen evs sock ev e =
     (case serveTunnel mkdir setenv listen evs e of
        (Some err, e') \<Rightarrow> (Some err, e')
      | (None, e') \<Rightarrow> (fst (servePublic (edge_cfg e') mkdir setenv sock ev), e'))"

fun StartLocal :: "((string \<times> string) \<times> goerr option option) list \<Rightarrow> goerr option" where
  \<comment> \<open>the polls before the deadline: the two bound addresses, then what the select receives
    (\<open>Some\<close>: the result of \<open>Start\<close>); \<open>None\<close> is the started edge\<close>
  "StartLocal [] = Some (new_error ''edge did not bind public/tunnel listeners'')"
| "StartLocal (((pub, tun), ev) # polls) =
     (if pub \<noteq> '''' \<and> tun \<noteq> '''' then None
      else case ev of Some (Some err) \<Rightarrow> Some err | _ \<Rightarrow> StartLocal polls)"

definition local_config :: "string \<Rightarrow> string \<Rightarrow> string \<Rightarrow> duration \<Rightarrow> edge_config" where
  "local_config dir pub tun timeout = \<lparr>publicAddr = pub, tunnelAddr = tun, certDir = dir,
     originTimeout = timeout, maxIdle = 30 * second, keepAlive = 0, tunnelMaxIdle = 30 * second,
     tunnelKeepAlive = 5 * second, tunnelLB = ''rr'', edge_recvBuf = 0, edge_sendBuf = 0,
     edge_statsEvery = 0, edge_qlogDir = ''''\<rparr>"

definition counter_line :: "Counters \<Rightarrow> Counters \<Rightarrow> log_level \<times> Counters" where
  \<comment> \<open>the level and the deltas of one tick\<close>
  "counter_line prev cur = (let d = Sub cur prev in
     (if RcvbufErrors d > 0 \<or> SndbufErrors d > 0 \<or> InErrors d > 0 then LevelWarn else LevelInfo, d))"

fun counter_ticks :: "Counters \<Rightarrow> string option list \<Rightarrow> (log_level \<times> Counters) list" where
  "counter_ticks prev [] = []"
| "counter_ticks prev (f # fs) =
     (let cur = fst (ReadCounters f) in counter_line prev cur # counter_ticks cur fs)"

definition logUDPCounters :: "edge_config \<Rightarrow> string option list \<Rightarrow> (log_level \<times> Counters) list" where
  \<comment> \<open>the content of the counter file at the start and at every tick\<close>
  "logUDPCounters cfg fs =
     (if edge_statsEvery cfg \<le> 0 then []
      else case fs of [] \<Rightarrow> []
        | f # fs' \<Rightarrow> (case ReadCounters f of (prev, True) \<Rightarrow> counter_ticks prev fs' | (_, False) \<Rightarrow> []))"

section \<open>Lemmas\<close>

lemma writeCFError_simps [simp]:
  assumes "resp_status w = None" "200 \<le> status"
  shows "resp_status (writeCFError status code detail w) = Some status"
    "resp_body (writeCFError status code detail w) = resp_body w @ cf_body code detail"
    "resp_header (writeCFError status code detail w) (canonical_key ''cf-error-code'') = [itoa code]"
  using assms by (simp_all add: writeCFError_def response_defs header_set_def)

lemma start_response_simps [simp]:
  "resp_status (start_response x) = None" "resp_body (start_response x) = ''''"
  by (simp_all add: start_response_def response_defs)

lemmas serve_defs = serve_on_def read_failed_def forward_response_def Let_def

lemma ServeHTTP_cases:
  assumes "ServeHTTP now x e = Done (sv, e')"
  shows "(\<exists>c. pickConnector now (ex_path x) e = Done (Some c, e') \<and> sv = serve_on x c) \<or>
    (pickConnector now (ex_path x) e = Done (None, e') \<and>
      resp_status (sv_response sv) = Some 502 \<and> sv_calls sv = [] \<and>
      sv_log sv = [\<lparr>log_level = LevelError, log_msg = ''no connector'',
        log_attrs = base_attrs x @ [(''status'', EInt 502), (''cf_code'', EInt 1033)]\<rparr>])"
  using assms by (auto simp: ServeHTTP_def StatusBadGateway_def split: panicking.splits option.splits)

lemma status_attrs [simp]:
  "(''status'', v) \<notin> set (base_attrs x)" "(''status'', v) \<notin> set (conn_attrs x c)"
  "(''status'', v) \<notin> set (kind_attrs err)"
  by (simp_all add: base_attrs_def conn_attrs_def kind_attrs_def)

lemma classifyOriginFailure_status:
  "classifyOriginFailure err ctx = (status, code, label) \<Longrightarrow> 200 \<le> status"
  by (auto simp: classifyOriginFailure_def statusOriginTimeout_def StatusBadGateway_def split: if_splits)

definition final_status :: "exchange \<Rightarrow> bool" where
  \<comment> \<open>the origin's response, where there is one, has a final status\<close>
  "final_status x \<longleftrightarrow> (case ex_read x of Inr r \<Rightarrow> 200 \<le> status_of r | Inl _ \<Rightarrow> True)"

lemma forward_status:
  "200 \<le> status_of r \<Longrightarrow> resp_status (sv_response (forward_response x c r)) = Some (status_of r)"
  by (simp add: forward_response_def Let_def merge_headers_def write_header_def write_body_def)

lemma forward_body:
  "200 \<le> status_of r \<Longrightarrow>
     resp_body (sv_response (forward_response x c r)) = take (ex_copied x) (resp_body r)"
  by (simp add: forward_response_def Let_def merge_headers_def write_header_def write_body_def)

lemma forward_header:
  "resp_header (sv_response (forward_response x c r)) k = resp_header (start_response x) k @ resp_header r k"
  by (simp add: forward_response_def Let_def merge_headers_def write_header_def write_body_def)

lemma serve_on_read:
  "ex_open x = None \<Longrightarrow> ex_write x = None \<Longrightarrow> serve_on x c =
     (case ex_read x of Inl err \<Rightarrow> read_failed x c err | Inr r \<Rightarrow> forward_response x c r)"
  by (simp add: serve_on_def)

lemma serve_on_log_one: "\<exists>l. sv_log (serve_on x c) = [l]"
  by (simp add: serve_defs split: option.split sum.split prod.split)

lemma serve_on_calls:
  "sv_calls (serve_on x c) = (if ex_open x \<noteq> None then [OpenStreamSync]
     else if ex_write x \<noteq> None then [OpenStreamSync, SetDeadline, SendRequest, CancelRead]
     else [OpenStreamSync, SetDeadline, SendRequest, CloseWrite, CancelRead])"
  by (simp add: serve_defs split: option.split sum.split prod.split)

lemma serve_on_logged:
  assumes "final_status x" "l \<in> set (sv_log (serve_on x c))" "(''status'', EInt s) \<in> set (log_attrs l)"
  shows "resp_status (sv_response (serve_on x c)) = Some s"
proof (cases "ex_open x = None \<and> ex_write x = None")
  case True
  show ?thesis
  proof (cases "ex_read x")
    case (Inl err)
    then show ?thesis
      using assms(2,3) True classifyOriginFailure_status
      by (auto simp: serve_on_read read_failed_def Let_def split: if_splits prod.splits)
  next
    case (Inr r)
    then have "resp_status (sv_response (serve_on x c)) = Some (status_of r)"
      using assms(1) True by (simp add: serve_on_read forward_status final_status_def)
    moreover have "s = status_of r"
      using assms(2,3) True Inr
      by (auto simp: serve_on_read forward_response_def Let_def split: option.splits)
    ultimately show ?thesis by simp
  qed
next
  case False
  then show ?thesis
    using assms(2,3)
    by (auto simp: serve_on_def StatusBadGateway_def split: if_splits option.splits)
qed

section \<open>Properties\<close>

text \<open>C3: the edge's verdict on an origin that fails to answer. When the request went out whole, the
  client is still there and reading the response failed, the client gets a 524 with error code 524
  exactly where the origin timeout expired or the error is a timeout, and otherwise a 502 with error
  code 1014; in both cases the code is in the header and in the body.\<close>

theorem origin_failure_verdict:
  assumes "pickConnector now (ex_path x) e = Done (Some c, e')"
    and "ex_open x = None" "ex_write x = None" "ex_read x = Inl err" "\<not> clientGone (ex_gone_read x)"
  shows "let late = (ex_ctx x = Some DeadlineExceeded \<or> errors_is err DeadlineExceeded \<or> isTimeout err)
    in \<exists>sv. ServeHTTP now x e = Done (sv, e') \<and>
    resp_status (sv_response sv) = Some (if late then 524 else 502) \<and>
    header_get (resp_header (sv_response sv)) ''cf-error-code'' = (if late then ''524'' else ''1014'') \<and>
    resp_body (sv_response sv) = (if late then cf_body 524 ''origin did not respond in time''
      else cf_body 1014 ''origin connection error'')"
proof -
  define late where "late \<longleftrightarrow> ex_ctx x = Some DeadlineExceeded \<or> errors_is err DeadlineExceeded \<or> isTimeout err"
  have codes: "itoa 524 = ''524''" "itoa 1014 = ''1014''" by (code_simp, code_simp)
  have "ServeHTTP now x e = Done (read_failed x c err, e')"
    using assms(1-4) by (simp add: ServeHTTP_def serve_on_read)
  moreover have "classifyOriginFailure err (ex_ctx x) =
      (if late then (524, 524, ''origin did not respond in time'') else (502, 1014, ''origin connection error''))"
    by (simp add: classifyOriginFailure_def late_def statusOriginTimeout_def StatusBadGateway_def)
  ultimately show ?thesis
    using assms(5) codes unfolding late_def [symmetric] Let_def
    by (cases late) (simp_all add: read_failed_def header_get_def)
qed

text \<open>The log tells the truth. Every request leaves exactly one log line; where that line gives a
  status, it is the status the client was sent, on the error branches as on the proxied one.\<close>

lemma logged_status_sent:
  assumes "ServeHTTP now x e = Done (sv, e')" "final_status x"
  shows "\<exists>l. sv_log sv = [l] \<and>
    (\<forall>s. (''status'', EInt s) \<in> set (log_attrs l) \<longrightarrow> resp_status (sv_response sv) = Some s)"
  using ServeHTTP_cases [OF assms(1)]
proof (elim disjE exE conjE)
  fix c assume sv: "sv = serve_on x c"
  obtain l where "sv_log sv = [l]" using serve_on_log_one sv by blast
  then show ?thesis using serve_on_logged [OF assms(2), of l c] by (auto simp: sv)
qed auto

text \<open>C25: a proxied response reaches the client as the origin sent it: the same status, the origin's
  header values after the edge's own, and the first \<open>n\<close> bytes of its body, where \<open>n\<close> is what was
  copied; a cut-off copy is logged as interrupted and never turned into an error status.\<close>

theorem proxied_faithful:
  assumes "pickConnector now (ex_path x) e = Done (Some c, e')"
    and "ex_open x = None" "ex_write x = None" "ex_read x = Inr r" "200 \<le> status_of r"
  shows "\<exists>sv l. ServeHTTP now x e = Done (sv, e') \<and> sv_log sv = [l] \<and>
    resp_status (sv_response sv) = Some (status_of r) \<and>
    resp_body (sv_response sv) = take (ex_copied x) (resp_body r) \<and>
    (\<forall>k. \<exists>own. resp_header (sv_response sv) k = own @ resp_header r k \<and> length own \<le> 1) \<and>
    log_msg l = (if ex_copy x = None then ''proxied'' else ''body copy interrupted'')"
proof -
  have "ServeHTTP now x e = Done (forward_response x c r, e')"
    using assms(1-4) by (simp add: ServeHTTP_def serve_on_read)
  moreover have "length (resp_header (start_response x) k) \<le> 1" for k
    by (simp add: start_response_def response_defs header_set_def)
  moreover have "sv_log (forward_response x c r) = [l] \<Longrightarrow>
      log_msg l = (if ex_copy x = None then ''proxied'' else ''body copy interrupted'')" for l
    by (auto simp: forward_response_def Let_def split: option.splits)
  moreover obtain l where "sv_log (forward_response x c r) = [l]"
    by (simp add: forward_response_def Let_def)
  ultimately show ?thesis
    using assms(5) by (auto simp: forward_status forward_body forward_header)
qed


text \<open>The counter log adds up: whatever the counter file holds at the ticks, even where it cannot be
  read, the deltas logged from the first tick on sum, modulo 2 to the 64 in every counter, to the last
  reading minus the first.\<close>

lemma counter_ticks_deltas: "map snd (counter_ticks prev fs) = deltas Sub prev (map (fst \<circ> ReadCounters) fs)"
  by (induction fs arbitrary: prev) (simp_all add: Let_def counter_line_def)

lemma counter_deltas_telescope:
  assumes "0 < edge_statsEvery cfg" "ReadCounters f = (prev, True)"
  shows "foldl counters_add zero_counters (map snd (logUDPCounters cfg (f # fs)))
    = Sub (last (prev # map (fst \<circ> ReadCounters) fs)) prev"
  using assms counters.telescope [of prev "map (fst \<circ> ReadCounters) fs"]
  by (simp add: logUDPCounters_def counter_ticks_deltas)

text \<open>
  A failed write of the request is answered with a 502 and logged as an error even where the client
  has gone away: unlike the two other error branches, this one does not look at the client's context.
\<close>

lemma write_failure_ignores_client:
  assumes "pickConnector now (ex_path x) e = Done (Some c, e')" "ex_open x = None" "ex_write x = Some err"
    and "ex_gone_read x = Some Canceled"
  shows "\<exists>sv l. ServeHTTP now x e = Done (sv, e') \<and> resp_status (sv_response sv) = Some 502 \<and>
    sv_log sv = [l] \<and> log_level l = LevelError"
  using assms by (simp add: ServeHTTP_def serve_on_def StatusBadGateway_def)

text \<open>
  The ticks do not look at the result of reading the counters: where the file cannot be read, the
  tick after a count of \<open>n\<close> dropped datagrams reports \<open>2 ^ 64 - n\<close> of them.
\<close>

lemma unreadable_counters_wrap:
  assumes "0 < RcvbufErrors prev"
  shows "counter_ticks prev [None] = [counter_line prev zero_counters] \<and>
    fst (counter_line prev zero_counters) = LevelWarn \<and>
    unat (RcvbufErrors (snd (counter_line prev zero_counters))) = 2 ^ 64 - unat (RcvbufErrors prev)"
proof -
  have "RcvbufErrors (Sub zero_counters prev) = - RcvbufErrors prev"
    by (simp add: Sub_def zero_counters_def)
  moreover have "unat (- RcvbufErrors prev) = 2 ^ 64 - unat (RcvbufErrors prev)"
    using assms by (rule unat_minus_pos)
  moreover have "0 < - RcvbufErrors prev" using assms by (simp add: word_gt_0)
  ultimately show ?thesis by (simp add: counter_line_def Let_def ReadCounters_def)
qed

section \<open>A concrete request\<close>

definition demo_live :: Edge where
  "demo_live = control_message 0 1 demo_register demo_edge"

definition demo_exchange :: exchange where
  "demo_exchange = \<lparr>ex_ray = ''0011223344556677'', ex_path = ''/delay'', ex_proto = ''HTTP/3.0'',
     ex_remote = ''10.0.0.2:4433'', ex_open = None, ex_gone_open = None, ex_write = None,
     ex_read = Inr \<lparr>resp_header = (\<lambda>_. []), resp_status = Some 200, resp_body = ''ok''\<rparr>,
     ex_gone_read = None, ex_ctx = None, ex_copied = 2, ex_copy = None, ex_elapsed = 7\<rparr>"

definition demo_entry :: connectorRef where
  "demo_entry = \<lparr>cr_id = 1, cr_conn = 7, registered = True, lastPing = Some 0, hostname = ''local'', haID = 0\<rparr>"

lemma demo_pick: "pickConnector 5 path demo_live = Done (Some demo_entry, demo_live\<lparr>rr := 1\<rparr>)"
  by (simp add: demo_live_def demo_entry_def demo_defs pickConnector_def pickConnectorIndex_def rr_pick_def)

theorem origin_failure_verdict_witness:
  "let x = demo_exchange\<lparr>ex_read := Inl (new_error ''EOF''), ex_ctx := Some DeadlineExceeded\<rparr>
   in \<exists>sv e'. ServeHTTP 5 x demo_live = Done (sv, e') \<and> resp_status (sv_response sv) = Some 524"
proof -
  let ?x = "demo_exchange\<lparr>ex_read := Inl (new_error ''EOF''), ex_ctx := Some DeadlineExceeded\<rparr>"
  show ?thesis
    using origin_failure_verdict [OF demo_pick, of ?x "new_error ''EOF''"]
    by (auto simp: demo_exchange_def clientGone_def)
qed

theorem proxied_faithful_witness:
  "\<exists>sv e'. ServeHTTP 5 demo_exchange demo_live = Done (sv, e') \<and> resp_body (sv_response sv) = ''ok''"
  using proxied_faithful [OF demo_pick, of demo_exchange]
  by (auto simp: demo_exchange_def status_of_def)


definition demo_snmp :: string where
  "demo_snmp = concat (map (\<lambda>l. l @ [CHR 0x0A]) [''Udp: RcvbufErrors'', ''Udp: 3''])"

lemma demo_snmp_read: "ReadCounters (Some demo_snmp) = (zero_counters\<lparr>RcvbufErrors := 3\<rparr>, True)"
proof -
  have "list_all (plain_line max_scan_token) [''Udp: RcvbufErrors'', ''Udp: 3'']"
    by (simp add: plain_line_def max_scan_token_def)
  then have "parseCounters demo_snmp = parse_lines None [''Udp: RcvbufErrors'', ''Udp: 3'']"
    by (simp only: parseCounters_def demo_snmp_def scan_lines_table)
  also have "\<dots> = (counters_of (row_values [''Udp:'', ''RcvbufErrors''] [''Udp:'', ''3'']), True)"
  proof -
    have "str_fields ''Udp: RcvbufErrors'' = [''Udp:'', ''RcvbufErrors'']" by code_simp
    moreover have "str_fields ''Udp: 3'' = [''Udp:'', ''3'']" by code_simp
    ultimately show ?thesis by simp
  qed
  also have "\<dots> = (zero_counters\<lparr>RcvbufErrors := 3\<rparr>, True)"
    by (simp add: row_values_def counters_of_def map_get_def zero_counters_def parse_uint64_def
        all_digits_def digits_nat_def is_digit_def digit_val_def byte_of_def)
  finally show ?thesis by (simp add: ReadCounters_def)
qed

end
