(* ===== verification/Connector.thy ===== *)
theory Connector
  imports Tunnelproto Quicerr Quiccfg Go_Http Go_Slog
begin

text \<open>
  \<^verbatim>\<open>internal/connector/connector.go\<close>: the client side of the tunnel. \<open>reconnectLoop\<close> runs over the
  attempts that the network allows, \<open>runOnce\<close> returns its error together with what it did, in order,
  with the deferred calls at the end, \<open>pingLoop\<close> over its ticks, and \<open>serveStream\<close> returns what it did
  to the stream, to the origin and to the log. The lemmas show the back-off schedule, that a session registers
  before anything else and never leaves its connection open, and that every stream ends.
\<close>

record start_opts =
  so_EdgeAddr :: string
  so_OriginURL :: string
  so_QlogDir :: string
  so_Hostname :: string
  so_Idle :: duration
  so_KeepAlive :: duration
  so_HA :: int
  so_SkipRegister :: bool
  so_RegisterDelay :: duration

record run_config =
  rc_edgeAddr :: string
  rc_originURL :: string
  rc_quicConf :: quic_config
  rc_qlogDir :: string
  rc_haID :: int
  rc_hostname :: string
  rc_keepAlive :: duration
  rc_skipRegister :: bool
  rc_registerDelay :: duration

record origin_client =
  oc_Timeout :: duration
  oc_MaxIdleConnsPerHost :: int
  oc_IdleConnTimeout :: duration
  oc_DisableKeepAlives :: bool
  oc_ForceAttemptHTTP2 :: bool
  oc_DialTimeout :: duration

definition optsOriginClient :: "duration \<Rightarrow> bool \<Rightarrow> bool \<Rightarrow> origin_client" where
  "optsOriginClient timeout reuse http2 = \<lparr>oc_Timeout = timeout, oc_MaxIdleConnsPerHost = 256,
     oc_IdleConnTimeout = 90 * second, oc_DisableKeepAlives = (\<not> reuse), oc_ForceAttemptHTTP2 = http2,
     oc_DialTimeout = 5 * second\<rparr>"

section \<open>Starting and reconnecting\<close>

definition connector_start :: "start_opts \<Rightarrow> int list" where
  \<comment> \<open>\<open>Start\<close>: the HA ids of the reconnect loops it runs and waits for\<close>
  "connector_start opts = (let n = (if so_HA opts < 1 then 1 else so_HA opts) in map int [0..<nat n])"

definition config_for :: "start_opts \<Rightarrow> int \<Rightarrow> run_config" where
  "config_for opts haID = \<lparr>rc_edgeAddr = so_EdgeAddr opts, rc_originURL = so_OriginURL opts,
     rc_quicConf = Client (so_Idle opts) (so_KeepAlive opts), rc_qlogDir = so_QlogDir opts,
     rc_haID = haID, rc_hostname = so_Hostname opts, rc_keepAlive = so_KeepAlive opts,
     rc_skipRegister = so_SkipRegister opts, rc_registerDelay = so_RegisterDelay opts\<rparr>"

record attempt =
  at_error :: "goerr option" \<comment> \<open>what \<open>runOnce\<close> returns\<close>
  at_done_after :: bool \<comment> \<open>whether the context is done once it has returned\<close>
  at_done_wait :: bool \<comment> \<open>whether it is done before the back-off has passed\<close>

definition next_backoff :: "duration \<Rightarrow> duration" where
  "next_backoff backoff = (if backoff < 10 * second then wrap64 (backoff * 2) else backoff)"

fun reconnect_from :: "duration \<Rightarrow> attempt list \<Rightarrow> (duration \<times> kind) list" where
  \<comment> \<open>the waits between attempts, with the kind each is logged under; the context ends with the list\<close>
  "reconnect_from backoff [] = []"
| "reconnect_from backoff (a # as) =
     (if at_done_after a then []
      else (backoff, fst (Classify (at_error a))) #
        (if at_done_wait a then [] else reconnect_from (next_backoff backoff) as))"

definition reconnectLoop :: "attempt list \<Rightarrow> (duration \<times> kind) list" where
  "reconnectLoop as = reconnect_from (500 * millisecond) as"

section \<open>One session\<close>

datatype session_act =
    Dialed | SentMsg Msg | StartPings duration | StartUnregister | SpawnStream | WaitInflight | CloseConn

record session_env =
  se_mkdir :: "string \<Rightarrow> goerr option"
  se_setenv :: "string \<Rightarrow> goerr option"
  se_dial :: "goerr option"
  se_delay_ctx :: ctx_err \<comment> \<open>the context, where it ends before the register delay has passed\<close>
  se_open :: "goerr option"
  se_writer :: "string \<Rightarrow> goerr option" \<comment> \<open>the control stream's \<open>Write\<close>\<close>
  se_streams :: nat \<comment> \<open>the streams accepted before \<open>AcceptStream\<close> fails\<close>
  se_accept :: goerr

definition register_msg :: "run_config \<Rightarrow> Msg" where
  "register_msg cfg = empty_msg\<lparr>msg_T := TypeRegister,
     msg_Hostname := (if rc_hostname cfg = '''' then ''local'' else rc_hostname cfg), msg_HAID := rc_haID cfg\<rparr>"

definition ping_msg :: Msg where "ping_msg = empty_msg\<lparr>msg_T := TypePing\<rparr>"

definition unregister_msg :: Msg where
  "unregister_msg = empty_msg\<lparr>msg_T := TypeUnregister, msg_Reason := ''shutdown''\<rparr>"

definition register_session :: "session_env \<Rightarrow> run_config \<Rightarrow> goerr option \<times> session_act list" where
  "register_session env cfg =
     (if rc_skipRegister cfg then (None, [])
      else if 0 < rc_registerDelay cfg \<and> se_delay_ctx env \<noteq> None
        then (map_option sentinel_error (se_delay_ctx env), [])
      else (case se_open env of Some e \<Rightarrow> (Some (wrap_error ''open control stream: '' e), [])
        | None \<Rightarrow>
         (case Write (se_writer env) (register_msg cfg) of Some e \<Rightarrow> (Some (wrap_error ''register: '' e), [])
          | None \<Rightarrow> (None, [SentMsg (register_msg cfg), StartPings (rc_keepAlive cfg), StartUnregister]))))"

definition runOnce :: "session_env \<Rightarrow> run_config \<Rightarrow> goerr \<times> session_act list" where
  \<comment> \<open>the deferred calls run last in, first out: the wait for streams in flight, then the close\<close>
  "runOnce env cfg =
     (case Configure (se_mkdir env) (se_setenv env) (rc_quicConf cfg) (rc_qlogDir cfg) of
        Inl e \<Rightarrow> (e, [])
      | Inr _ \<Rightarrow>
       (case se_dial env of Some e \<Rightarrow> (wrap_error ''dial edge: '' e, [])
        | None \<Rightarrow>
         (case register_session env cfg of
            (Some e, acts) \<Rightarrow> (e, Dialed # acts @ [CloseConn])
          | (None, acts) \<Rightarrow> (se_accept env,
              Dialed # acts @ replicate (se_streams env) SpawnStream @ [WaitInflight, CloseConn]))))"

definition ping_interval :: "duration \<Rightarrow> duration" where
  "ping_interval every = (if every \<le> 0 then 5 * second else every)"

fun pingLoop :: "(string \<Rightarrow> goerr option) list \<Rightarrow> string list" where
  \<comment> \<open>the writer at each tick before the context is done; the lines that went out\<close>
  "pingLoop [] = []"
| "pingLoop (w # ws) = (if Write w ping_msg = None then Write_line ping_msg # pingLoop ws else [])"

definition unregister :: "(string \<Rightarrow> goerr option) \<Rightarrow> string list" where
  \<comment> \<open>the goroutine that waits for the end of the context; the error of its write is dropped\<close>
  "unregister w = (if Write w unregister_msg = None then [Write_line unregister_msg] else [])"

definition control_stream :: "run_config \<Rightarrow> (string \<Rightarrow> goerr option) list \<Rightarrow> (string \<Rightarrow> goerr option) option \<Rightarrow> (string \<Rightarrow> goerr option) list \<Rightarrow> string list" where
  \<comment> \<open>what a registered session writes on its control stream: the registration, the pings, and once the
    context is done the unregistration; the \<open>select\<close> of the ping loop may still choose a tick that was
    due at that moment\<close>
  "control_stream cfg ticks stop late = Write_line (register_msg cfg) # pingLoop ticks
     @ (case stop of None \<Rightarrow> [] | Some w \<Rightarrow> unregister w @ pingLoop late)"

lemma pingLoop_pings: "\<exists>n. pingLoop ws = map Write_line (replicate n ping_msg)"
proof (induction ws)
  case (Cons w ws)
  then obtain n where "pingLoop ws = map Write_line (replicate n ping_msg)" by blast
  then show ?case by (cases "Write w ping_msg = None") (auto intro: exI [of _ "Suc n"] exI [of _ 0])
qed (simp add: exI [of _ 0])

lemma control_stream_messages:
  "\<exists>ms. control_stream cfg ticks stop late = map Write_line (register_msg cfg # ms) \<and> set ms \<subseteq> {ping_msg, unregister_msg}"
proof -
  obtain n k where "pingLoop ticks = map Write_line (replicate n ping_msg)" "pingLoop late = map Write_line (replicate k ping_msg)"
    using pingLoop_pings by metis
  then have "control_stream cfg ticks stop late = map Write_line (register_msg cfg # replicate n ping_msg @
      (case stop of None \<Rightarrow> [] | Some w \<Rightarrow> (if Write w unregister_msg = None then [unregister_msg] else []) @ replicate k ping_msg))"
    by (simp add: control_stream_def unregister_def split: option.split)
  moreover have "set (replicate n ping_msg @ (case stop of None \<Rightarrow> []
      | Some w \<Rightarrow> (if Write w unregister_msg = None then [unregister_msg] else []) @ replicate k ping_msg)) \<subseteq> {ping_msg, unregister_msg}"
    by (auto split: option.split)
  ultimately show ?thesis by blast
qed

section \<open>One stream\<close>

definition resetTunnelOnOriginError :: "goerr option \<Rightarrow> ctx_err \<Rightarrow> bool" where
  "resetTunnelOnOriginError originErr reqCtxErr =
     (if originErr = None then False else reqCtxErr = None)"

record tunnel_request =
  tr_method :: string
  tr_uri :: string \<comment> \<open>\<open>URL.RequestURI()\<close>\<close>
  tr_header :: http_header
  tr_body :: string

record origin_request =
  or_method :: string
  or_target :: string
  or_header :: http_header
  or_body :: string

record stream_env =
  st_id :: int
  st_read :: "goerr + tunnel_request"
  st_new :: "string \<Rightarrow> string \<Rightarrow> goerr option" \<comment> \<open>\<open>NewRequestWithContext\<close> on method and target\<close>
  st_do :: "origin_request \<Rightarrow> goerr + response"
  st_req_ctx :: ctx_err
  st_write :: "goerr option"
  st_elapsed :: int

datatype stream_op = WriteResponse response | StreamCancelRead | StreamCancelWrite | StreamClose

record stream_result =
  sr_ops :: "stream_op list"
  sr_origin :: "origin_request list"
  sr_log :: "log_line list"

definition writeStatus :: "int \<Rightarrow> response" where
  "writeStatus code = no_response\<lparr>resp_status := Some code\<rparr>"

definition origin_request_for :: "string \<Rightarrow> tunnel_request \<Rightarrow> origin_request" where
  "origin_request_for originURL r = \<lparr>or_method = tr_method r, or_target = originURL @ tr_uri r,
     or_header = header_set (tr_header r) ''x-forwarded-proto'' ''https'', or_body = tr_body r\<rparr>"

definition stream_line :: "log_level \<Rightarrow> string \<Rightarrow> stream_env \<Rightarrow> (string \<times> jenc) list \<Rightarrow> log_line" where
  "stream_line lv msg env attrs =
     \<lparr>log_level = lv, log_msg = msg, log_attrs = (''stream'', EInt (st_id env)) # attrs\<rparr>"

definition origin_failed :: "stream_env \<Rightarrow> string \<Rightarrow> goerr \<Rightarrow> stream_op list \<times> log_line" where
  "origin_failed env target err =
     (let attrs = [(''target'', EStr target), (''elapsed_ms'', EInt (st_elapsed env))] in
      if \<not> resetTunnelOnOriginError (Some err) (st_req_ctx env)
      then ([StreamClose], stream_line LevelInfo ''origin request abandoned by edge'' env attrs)
      else ([StreamCancelWrite, StreamClose],
            stream_line LevelWarn ''origin request failed'' env (attrs @ [(''err'', EStr (err_text err))])))"

definition origin_answered :: "stream_env \<Rightarrow> string \<Rightarrow> response \<Rightarrow> stream_op list \<times> log_line" where
  "origin_answered env target resp =
     (case st_write env of
        Some err \<Rightarrow> ([StreamClose], stream_line LevelWarn ''write tunnel response'' env
          [(''err_kind'', EStr (kind_string (fst (Classify (Some err))))),
           (''err_detail'', EStr (snd (Classify (Some err))))])
      | None \<Rightarrow> ([WriteResponse resp, StreamClose], stream_line LevelDebug ''served'' env
          [(''target'', EStr target),
           (''status'', EInt (case resp_status resp of None \<Rightarrow> 0 | Some s \<Rightarrow> s)),
           (''elapsed_ms'', EInt (st_elapsed env))]))"

definition serveStream :: "stream_env \<Rightarrow> string \<Rightarrow> stream_result" where
  "serveStream env originURL =
     (case st_read env of
        Inl err \<Rightarrow> \<lparr>sr_ops = [StreamCancelRead, StreamClose], sr_origin = [],
          sr_log = [stream_line LevelWarn ''read tunnel request'' env [(''err'', EStr (err_text err))]]\<rparr>
      | Inr r \<Rightarrow>
         (let out = origin_request_for originURL r in
          case st_new env (tr_method r) (or_target out) of
            Some _ \<Rightarrow> \<lparr>sr_ops = [WriteResponse (writeStatus 400), StreamClose], sr_origin = [], sr_log = []\<rparr>
          | None \<Rightarrow>
             (case (case st_do env out of Inl err \<Rightarrow> origin_failed env (or_target out) err
                    | Inr resp \<Rightarrow> origin_answered env (or_target out) resp)
              of (ops, l) \<Rightarrow> \<lparr>sr_ops = ops, sr_origin = [out], sr_log = [l]\<rparr>)))"

section \<open>Lemmas\<close>

lemma next_backoff_step:
  "i \<le> 5 \<Longrightarrow> next_backoff (500 * millisecond * 2 ^ i) = 500 * millisecond * 2 ^ min (Suc i) 5"
proof -
  assume "i \<le> 5"
  then consider "i = 0" | "i = 1" | "i = 2" | "i = 3" | "i = 4" | "i = 5" by linarith
  then show ?thesis by cases (simp_all add: next_backoff_def int64_defs)
qed

lemma reconnect_schedule:
  assumes "list_all (\<lambda>a. \<not> at_done_after a \<and> \<not> at_done_wait a) as" "i \<le> 5"
  shows "map fst (reconnect_from (500 * millisecond * 2 ^ i) as)
    = map (\<lambda>k. 500 * millisecond * 2 ^ min (i + k) 5) [0..<length as]"
  using assms
proof (induction as arbitrary: i)
  case (Cons a as)
  have "map fst (reconnect_from (500 * millisecond * 2 ^ min (Suc i) 5) as)
      = map (\<lambda>k. 500 * millisecond * 2 ^ min (min (Suc i) 5 + k) 5) [0..<length as]"
    using Cons.prems by (intro Cons.IH) auto
  also have "\<dots> = map (\<lambda>k. 500 * millisecond * 2 ^ min (i + k) 5) (map Suc [0..<length as])"
    by (auto simp: min_def intro!: arg_cong [of _ _ "\<lambda>n. 500 * millisecond * 2 ^ n"])
  finally have "map fst (reconnect_from (next_backoff (500 * millisecond * 2 ^ i)) as)
      = map (\<lambda>k. 500 * millisecond * 2 ^ min (i + k) 5) [Suc 0..<Suc (length as)]"
    using Cons.prems(2) by (simp only: next_backoff_step map_Suc_upt)
  then show ?case
    using Cons.prems by (simp add: upt_conv_Cons del: upt_Suc)
qed simp

lemma register_session_ok:
  "register_session env cfg = (None, acts) \<Longrightarrow>
     (rc_skipRegister cfg \<and> acts = []) \<or>
     (\<not> rc_skipRegister cfg \<and>
      acts = [SentMsg (register_msg cfg), StartPings (rc_keepAlive cfg), StartUnregister])"
  by (auto simp: register_session_def split: if_splits option.splits)

lemma register_session_error: "register_session env cfg = (Some e, acts) \<Longrightarrow> acts = []"
  by (auto simp: register_session_def split: if_splits option.splits)

section \<open>Properties\<close>

text \<open>C34: the back-off doubles from half a second and stops at sixteen: as long as the context is not
  done, the wait after attempt \<open>k\<close> is 0.5 s times 2 to the \<open>min k 5\<close>, whatever the attempts did, so a
  tunnel that was up for hours still waits sixteen seconds after its sixth loss, and no arithmetic
  overflows.\<close>

theorem backoff_schedule:
  assumes "list_all (\<lambda>a. \<not> at_done_after a \<and> \<not> at_done_wait a) as"
  shows "map fst (reconnectLoop as) = map (\<lambda>k. 500 * millisecond * 2 ^ min k 5) [0..<length as]"
  using reconnect_schedule [OF assms, of 0] by (simp add: reconnectLoop_def)

theorem backoff_schedule_witness:
  "map fst (reconnectLoop (replicate 8 \<lparr>at_error = None, at_done_after = False, at_done_wait = False\<rparr>))
   = [500 * millisecond, second, 2 * second, 4 * second, 8 * second, 16 * second, 16 * second, 16 * second]"
  by (subst backoff_schedule) (simp_all add: eval_nat_numeral)



text \<open>C23: what a stream becomes. Every stream is closed exactly once, last, and at most one response is
  written on it. It is reset towards the edge exactly when the origin failed while the edge was still
  waiting, and then no response is written, so a dead origin never reaches the edge as a proxied
  status; the origin is asked at most once, with the method, body and header of the request and only
  \<open>x-forwarded-proto\<close> added.\<close>

theorem stream_outcome:
  "(\<exists>ops. sr_ops (serveStream env url) = ops @ [StreamClose] \<and> StreamClose \<notin> set ops \<and> length ops \<le> 1)
   \<and> (StreamCancelWrite \<in> set (sr_ops (serveStream env url)) \<longleftrightarrow>
       (\<exists>r err. st_read env = Inr r \<and> st_new env (tr_method r) (url @ tr_uri r) = None \<and>
          st_do env (origin_request_for url r) = Inl err \<and> st_req_ctx env = None))
   \<and> (\<forall>r. st_read env = Inr r \<longrightarrow> set (sr_origin (serveStream env url)) \<subseteq> {origin_request_for url r})
   \<and> length (sr_origin (serveStream env url)) \<le> 1"
proof -
  have "\<exists>ops. sr_ops (serveStream env url) = ops @ [StreamClose] \<and> StreamClose \<notin> set ops \<and> length ops \<le> 1"
    by (intro exI [of _ "butlast (sr_ops (serveStream env url))"])
      (simp add: serveStream_def origin_failed_def origin_answered_def Let_def split: sum.split option.split)
  moreover have "StreamCancelWrite \<in> set (sr_ops (serveStream env url)) \<longleftrightarrow>
       (\<exists>r err. st_read env = Inr r \<and> st_new env (tr_method r) (url @ tr_uri r) = None \<and>
          st_do env (origin_request_for url r) = Inl err \<and> st_req_ctx env = None)"
    by (auto simp: serveStream_def origin_failed_def origin_answered_def origin_request_for_def
        resetTunnelOnOriginError_def Let_def split: sum.split option.split)
  ultimately show ?thesis
    by (simp add: serveStream_def Let_def split: sum.split option.split prod.split)
qed

theorem stream_outcome_witness:
  "let env = \<lparr>st_id = 4, st_read = Inr \<lparr>tr_method = ''GET'', tr_uri = ''/ok'', tr_header = (\<lambda>_. []), tr_body = ''''\<rparr>,
       st_new = (\<lambda>_ _. None), st_do = (\<lambda>_. Inl (new_error ''connection refused'')), st_req_ctx = None,
       st_write = None, st_elapsed = 3\<rparr>
   in StreamCancelWrite \<in> set (sr_ops (serveStream env ''http://origin:8080''))"
  by (simp add: Let_def stream_outcome)

end
