(* ===== verification/Origin.thy ===== *)
theory Origin
  imports Go_Http
begin

text \<open>
  \<^verbatim>\<open>internal/origin/origin.go\<close> and \<^verbatim>\<open>internal/origin/handlers.go\<close>: the test application behind the
  tunnel, whose latency and failures are driven by the URL. A handler is a function of the request and
  of what the run decides: whether a timer fires before the request's context is done, whether a
  write succeeds, the random number of \<open>/flaky\<close>, what hijacking gives. Its outcome is a response (a
  handler that returns without a status sends 200), a hijacked connection with the raw bytes sent on
  it, or a panic of the runtime.
\<close>

record origin_req =
  oq_path :: string
  oq_query :: "string \<Rightarrow> string" \<comment> \<open>\<open>URL.Query().Get\<close>, empty for a missing parameter\<close>
  oq_header :: http_header
  oq_body :: "goerr + string" \<comment> \<open>what reading the body to its end gives\<close>
  oq_timer :: "duration \<Rightarrow> bool" \<comment> \<open>whether \<open>time.After\<close> fires before the context is done\<close>
  oq_writes :: "nat \<Rightarrow> goerr option" \<comment> \<open>the error of the write with this number\<close>
  oq_gap :: "nat \<Rightarrow> bool" \<comment> \<open>whether the gap after this chunk passes before the context is done\<close>
  oq_random :: int \<comment> \<open>\<open>rand.Intn(100)\<close>\<close>
  oq_hijack :: "bool option" \<comment> \<open>\<open>None\<close>: no \<open>Hijacker\<close>; otherwise whether \<open>Hijack\<close> succeeds\<close>

datatype outcome =
    Reply response
  | HijackFailed
  | Hijacked string bool \<comment> \<open>the raw bytes sent, and whether the connection is reset instead of closed\<close>

definition finish :: "response \<Rightarrow> response" where
  \<comment> \<open>the server's implicit 200 when a handler returns\<close>
  "finish w = write_header 200 w"

section \<open>Parameters\<close>

definition intParam :: "origin_req \<Rightarrow> string \<Rightarrow> int \<Rightarrow> int" where
  "intParam r name def = (case atoi (oq_query r name) of Some v \<Rightarrow> v | None \<Rightarrow> def)"

definition durationParam :: "origin_req \<Rightarrow> string \<Rightarrow> duration \<Rightarrow> duration" where
  "durationParam r name def =
     (let ms = intParam r name (- 1) in if 0 \<le> ms then wrap64 (ms * millisecond) else def)"

section \<open>Handlers\<close>

definition handleHealthz :: "origin_req \<Rightarrow> outcome panicking" where
  "handleHealthz r = Done (Reply (finish (write_body (''ok'' @ [CHR 0x0A]) no_response)))"

definition handleFast :: "origin_req \<Rightarrow> outcome panicking" where
  "handleFast r = Done (Reply (finish (write_body (''fast'' @ [CHR 0x0A])
     (set_header ''x-origin'' ''fast'' no_response))))"

definition handleSlow :: "origin_req \<Rightarrow> outcome panicking" where
  "handleSlow r = (let d = durationParam r ''ms'' (5 * second) in
     if oq_timer r d
     then Done (Reply (finish (write_body (''slept '' @ duration_string d @ [CHR 0x0A])
       (set_header ''x-origin-delay'' (duration_string d) no_response))))
     else Done (Reply (finish no_response)))"

definition handleHang :: "origin_req \<Rightarrow> outcome panicking" where
  \<comment> \<open>returns, with nothing written, only once the context is done\<close>
  "handleHang r = Done (Reply (finish no_response))"

fun drip_loop :: "origin_req \<Rightarrow> nat \<Rightarrow> nat \<Rightarrow> nat \<Rightarrow> response \<Rightarrow> response" where
  "drip_loop r sz i 0 w = w"
| "drip_loop r sz i (Suc left) w =
     (if oq_writes r i \<noteq> None then w
      else let w' = write_body (replicate sz (CHR 0x00)) w in
        if oq_gap r i then drip_loop r sz (Suc i) left w' else w')"

definition handleDrip :: "origin_req \<Rightarrow> outcome panicking" where
  \<comment> \<open>\<open>make\<close> refuses a negative length and one beyond the address space, 2 to the 48 bytes\<close>
  "handleDrip r =
     (let chunks = intParam r ''chunks'' 10; sz = intParam r ''size'' 1024;
          w = write_header 200 (set_header ''content-type'' ''application/octet-stream'' no_response) in
      if sz < 0 \<or> 2 ^ 48 < sz then Panic ''makeslice: len out of range''
      else Done (Reply (finish (drip_loop r (nat sz) 0 (nat chunks) w))))"

function bytes_loop :: "origin_req \<Rightarrow> nat \<Rightarrow> int \<Rightarrow> int \<Rightarrow> response \<Rightarrow> response" where
  \<comment> \<open>a write without an error takes the whole chunk\<close>
  "bytes_loop r i n written w =
     (if written < n
      then let chunk = min 32768 (n - written) in
        if oq_writes r i \<noteq> None then w
        else bytes_loop r (Suc i) n (written + chunk) (write_body (replicate (nat chunk) (CHR 0x00)) w)
      else w)"
  by pat_completeness auto
termination
  by (relation "measure (\<lambda>(r, i, n, written, w). nat (n - written))") auto

declare bytes_loop.simps [simp del]

definition handleBytes :: "origin_req \<Rightarrow> outcome panicking" where
  "handleBytes r = (let n = intParam r ''n'' 1048576 in
     Done (Reply (finish (bytes_loop r 0 n 0 (set_header ''content-length'' (itoa n)
       (set_header ''content-type'' ''application/octet-stream'' no_response))))))"

definition hijack_or :: "origin_req \<Rightarrow> outcome \<Rightarrow> outcome panicking" where
  "hijack_or r out = (case oq_hijack r of
     None \<Rightarrow> Done (Reply (finish (write_body (''hijack unsupported'' @ [CHR 0x0A]) (write_header 500
       (set_header ''content-type'' ''text/plain; charset=utf-8'' no_response)))))
   | Some False \<Rightarrow> Done HijackFailed
   | Some True \<Rightarrow> Done out)"

definition handleReset :: "origin_req \<Rightarrow> outcome panicking" where
  "handleReset r = hijack_or r (Hijacked '''' True)"

definition handleStatus :: "origin_req \<Rightarrow> outcome panicking" where
  \<comment> \<open>\<open>WriteHeader\<close> panics on a code that has not three digits\<close>
  "handleStatus r = (let code = intParam r ''code'' 200 in
     if code < 100 \<or> 999 < code then Panic ''invalid WriteHeader code''
     else Done (Reply (finish (write_header code no_response))))"

definition handleFlaky :: "origin_req \<Rightarrow> outcome panicking" where
  "handleFlaky r = (if oq_random r < intParam r ''pct'' 10
     then Done (Reply (finish (write_header 502 no_response)))
     else Done (Reply (finish (write_body (''ok'' @ [CHR 0x0A]) no_response))))"

definition handleEcho :: "origin_req \<Rightarrow> outcome panicking" where
  "handleEcho r = (case oq_body r of
     Inl err \<Rightarrow> Done (Reply (finish (write_body (err_text err @ [CHR 0x0A]) (write_header 400
       (set_header ''content-type'' ''text/plain; charset=utf-8'' no_response)))))
   | Inr body \<Rightarrow> (let b = take 8388608 body in
       Done (Reply (finish (write_body b (set_header ''x-echo-bytes'' (itoa (int (length b)))
         (set_header ''content-type'' (header_get (oq_header r) ''content-type'') no_response)))))))"

primrec stress_headers :: "string \<Rightarrow> nat \<Rightarrow> response \<Rightarrow> response" where
  "stress_headers pad 0 w = w"
| "stress_headers pad (Suc i) w =
     set_header (''x-stress-'' @ itoa (int i)) pad (stress_headers pad i w)"

definition handleHeaders :: "origin_req \<Rightarrow> outcome panicking" where
  "handleHeaders r =
     (let n = min (intParam r ''n'' 32) 256; sz = min (intParam r ''size'' 64) 2048 in
      if sz < 0 then Panic ''strings: negative Repeat count''
      else Done (Reply (finish (write_body (''headers='' @ itoa n @ '' size='' @ itoa sz @ [CHR 0x0A])
        (stress_headers (replicate (nat sz) (CHR ''x'')) (nat n) no_response)))))"

definition handleStall :: "origin_req \<Rightarrow> outcome panicking" where
  \<comment> \<open>\<open>slowReadBody\<close> reads one byte per gap to the body's end or the context's\<close>
  "handleStall r = Done (Reply (finish (write_body (''stalled'' @ [CHR 0x0A]) no_response)))"

fun slowReadBody :: "bool list \<Rightarrow> nat \<Rightarrow> nat" where
  \<comment> \<open>the gaps taken: whether the context is done before each read, and the bytes of the body left\<close>
  "slowReadBody [] left = 0"
| "slowReadBody (dn # ds) left =
     (if dn then 0 else case left of 0 \<Rightarrow> 0 | Suc n \<Rightarrow> Suc (slowReadBody ds n))"

definition handleHeadersThenHang :: "origin_req \<Rightarrow> outcome panicking" where
  "handleHeadersThenHang r =
     (let w = write_header 200 (set_header ''x-origin'' ''headers-then-hang'' no_response) in
      if oq_timer r (durationParam r ''ms'' (30 * second))
      then Done (Reply (finish (write_body (''late'' @ [CHR 0x0A]) w))) else Done (Reply (finish w)))"

definition handleAcceptHang :: "origin_req \<Rightarrow> outcome panicking" where
  \<comment> \<open>no bytes; the connection is closed once the context is done\<close>
  "handleAcceptHang r = hijack_or r (Hijacked '''' False)"

definition crlf :: string where "crlf = [CHR 0x0D, CHR 0x0A]"

definition handleCloseAfterHeaders :: "origin_req \<Rightarrow> outcome panicking" where
  "handleCloseAfterHeaders r = hijack_or r
     (Hijacked (''HTTP/1.1 200 OK'' @ crlf @ ''Content-Length: 5'' @ crlf @ crlf) False)"

definition origin_routes :: "(string \<times> (origin_req \<Rightarrow> outcome panicking)) list" where
  "origin_routes = [(''/healthz'', handleHealthz), (''/fast'', handleFast), (''/slow'', handleSlow),
     (''/hang'', handleHang), (''/drip'', handleDrip), (''/bytes'', handleBytes), (''/reset'', handleReset),
     (''/status'', handleStatus), (''/flaky'', handleFlaky), (''/echo'', handleEcho),
     (''/headers'', handleHeaders), (''/stall'', handleStall),
     (''/headers-then-hang'', handleHeadersThenHang), (''/accept-hang'', handleAcceptHang),
     (''/close-after-headers'', handleCloseAfterHeaders)]"

definition newMux :: "origin_req \<Rightarrow> outcome panicking" where
  \<comment> \<open>the patterns have no trailing slash, so only the exact path matches; the rest is a 404\<close>
  "newMux r = (case map_of origin_routes (oq_path r) of Some h \<Rightarrow> h r
     | None \<Rightarrow> Done (Reply (finish (write_body (''404 page not found'' @ [CHR 0x0A]) (write_header 404
         (set_header ''content-type'' ''text/plain; charset=utf-8'' no_response))))))"


section \<open>Lemmas\<close>

lemma write_body_body [simp]: "resp_body (write_body s w) = resp_body w @ s"
  by (simp add: write_body_def write_header_def Let_def)

lemma write_body_header [simp]: "resp_header (write_body s w) = resp_header w"
  by (simp add: write_body_def write_header_def Let_def)

lemma write_header_frame [simp]:
  "resp_body (write_header c w) = resp_body w" "resp_header (write_header c w) = resp_header w"
  by (simp_all add: write_header_def)

lemma finish_frame [simp]: "resp_body (finish w) = resp_body w" "resp_header (finish w) = resp_header w"
  by (simp_all add: finish_def)

lemma bytes_loop_body:
  assumes "\<forall>i. oq_writes r i = None" "written \<le> n"
  shows "resp_body (bytes_loop r i n written w) = resp_body w @ replicate (nat (n - written)) (CHR 0x00)"
  using assms
proof (induction r i n written w rule: bytes_loop.induct)
  case (1 r i n written w)
  show ?case
  proof (cases "written < n")
    case True
    let ?chunk = "min 32768 (n - written)"
    have "resp_body (bytes_loop r i n written w)
        = resp_body w @ replicate (nat ?chunk) (CHR 0x00) @ replicate (nat (n - (written + ?chunk))) (CHR 0x00)"
      using 1 True by (subst bytes_loop.simps) (simp add: Let_def)
    also have "\<dots> = resp_body w @ replicate (nat ?chunk + nat (n - (written + ?chunk))) (CHR 0x00)"
      by (simp add: replicate_add)
    also have "nat ?chunk + nat (n - (written + ?chunk)) = nat (n - written)"
      using True by linarith
    finally show ?thesis .
  qed (use 1 in \<open>simp add: bytes_loop.simps\<close>)
qed

lemma bytes_loop_header: "resp_header (bytes_loop r i n written w) = resp_header w"
  by (induction r i n written w rule: bytes_loop.induct) (subst bytes_loop.simps, auto simp: Let_def)

lemma drip_loop_body:
  assumes "\<forall>i. oq_writes r i = None \<and> oq_gap r i"
  shows "resp_body (drip_loop r sz i k w) = resp_body w @ replicate (k * sz) (CHR 0x00)"
  using assms by (induction r sz i k w rule: drip_loop.induct) (simp_all add: Let_def replicate_add)

lemma atoi_range: "atoi s = Some v \<Longrightarrow> in_int64 v"
  using parse_int64_range [of s] by (auto simp: atoi_def split: prod.splits option.splits)

section \<open>Properties\<close>

text \<open>C39: exactly these requests make the origin's runtime panic: \<open>/status\<close> with a code that has not
  three digits, \<open>/headers\<close> and \<open>/drip\<close> with a negative size, and \<open>/drip\<close> with a size that no slice
  can have. Every other request of every path,
  known or not, whatever its query, gets an outcome.\<close>

theorem origin_panics_iff:
  "(\<exists>p. newMux r = Panic p) \<longleftrightarrow>
     (oq_path r = ''/status'' \<and> (intParam r ''code'' 200 < 100 \<or> 999 < intParam r ''code'' 200))
     \<or> (oq_path r = ''/headers'' \<and> intParam r ''size'' 64 < 0)
     \<or> (oq_path r = ''/drip'' \<and> (intParam r ''size'' 1024 < 0 \<or> 2 ^ 48 < intParam r ''size'' 1024))"
proof -
  have "\<exists>out. h r = Done out" if "h \<in> {handleHealthz, handleFast, handleSlow, handleHang, handleBytes, handleReset,
      handleFlaky, handleEcho, handleStall, handleHeadersThenHang, handleAcceptHang, handleCloseAfterHeaders}" for h
    using that by (auto simp: handleHealthz_def handleFast_def handleSlow_def handleHang_def handleBytes_def
        handleReset_def handleFlaky_def handleEcho_def handleStall_def handleHeadersThenHang_def
        handleAcceptHang_def handleCloseAfterHeaders_def hijack_or_def Let_def
        split: option.split sum.split bool.split)
  then have total: "h r \<noteq> Panic p" if "h \<in> {handleHealthz, handleFast, handleSlow, handleHang, handleBytes,
      handleReset, handleFlaky, handleEcho, handleStall, handleHeadersThenHang, handleAcceptHang,
      handleCloseAfterHeaders}" for h p
    using that by fastforce
  have "(\<exists>p. handleStatus r = Panic p) \<longleftrightarrow> intParam r ''code'' 200 < 100 \<or> 999 < intParam r ''code'' 200"
    "(\<exists>p. handleHeaders r = Panic p) \<longleftrightarrow> intParam r ''size'' 64 < 0"
    "(\<exists>p. handleDrip r = Panic p) \<longleftrightarrow> intParam r ''size'' 1024 < 0 \<or> 2 ^ 48 < intParam r ''size'' 1024"
    by (auto simp: handleStatus_def handleHeaders_def handleDrip_def Let_def)
  then show ?thesis by (auto simp: newMux_def origin_routes_def total split: if_splits)
qed

text \<open>The volume levers are exact. With writes that succeed, \<open>/bytes?n=N\<close> sends a body of exactly
  \<open>N\<close> bytes under a content length that says so, in chunks, however large \<open>N\<close> is, and \<open>/drip\<close> sends
  exactly chunks times size bytes when no gap is cut short.\<close>

lemma origin_volume_exact:
  assumes "\<forall>i. oq_writes r i = None" "\<forall>i. oq_gap r i"
  shows "(0 \<le> intParam r ''n'' 1048576 \<longrightarrow> (\<exists>w. handleBytes r = Done (Reply w) \<and>
      resp_body w = replicate (nat (intParam r ''n'' 1048576)) (CHR 0x00) \<and>
      resp_header w (canonical_key ''content-length'') = [itoa (intParam r ''n'' 1048576)]))
    \<and> (0 \<le> intParam r ''size'' 1024 \<and> intParam r ''size'' 1024 \<le> 2 ^ 48 \<longrightarrow>
      (\<exists>w. handleDrip r = Done (Reply w) \<and>
        resp_body w = replicate (nat (intParam r ''chunks'' 10) * nat (intParam r ''size'' 1024)) (CHR 0x00)))"
  using assms
  by (simp add: handleBytes_def handleDrip_def Let_def bytes_loop_body bytes_loop_header drip_loop_body
      set_header_def header_set_def no_response_def)

text \<open>\<open>/flaky?pct=N\<close> fails for exactly \<open>N\<close> of the hundred values the random source can take (none
  for a negative \<open>N\<close>, all above 100), and answers ok for the others.\<close>

lemma flaky_percentage:
  "card {k \<in> {0..<100}. \<exists>w. handleFlaky (r\<lparr>oq_random := k\<rparr>) = Done (Reply w) \<and> resp_status w = Some 502}
   = nat (min 100 (max 0 (intParam r ''pct'' 10)))"
proof -
  have "(\<exists>w. handleFlaky (r\<lparr>oq_random := k\<rparr>) = Done (Reply w) \<and> resp_status w = Some 502)
      \<longleftrightarrow> k < intParam r ''pct'' 10" for k
    by (simp add: handleFlaky_def intParam_def finish_def response_defs Let_def)
  then have "{k \<in> {0..<100}. \<exists>w. handleFlaky (r\<lparr>oq_random := k\<rparr>) = Done (Reply w) \<and> resp_status w = Some 502}
      = {0..<min 100 (max 0 (intParam r ''pct'' 10))}" by auto
  then show ?thesis by simp
qed

text \<open>A delay in the query is taken in milliseconds exactly up to 9223372036854; the next value
  overflows the 64-bit nanoseconds to a negative delay, which does not wait at all.\<close>

lemma duration_param_range:
  "(\<forall>ms. 0 \<le> ms \<and> ms \<le> 9223372036854 \<longrightarrow>
      durationParam (r\<lparr>oq_query := (\<lambda>_. itoa ms)\<rparr>) name def = ms * millisecond)
   \<and> durationParam (r\<lparr>oq_query := (\<lambda>_. itoa 9223372036855)\<rparr>) name def < 0"
  by (simp add: durationParam_def intParam_def atoi_itoa int64_defs)

end
