(* ===== verification/Go_Flags.thy ===== *)
theory Go_Flags
  imports Complex_Main Go_Http
begin

text \<open>
  What the sub-commands use of Go's \<open>flag\<close> package, with the parsers of the flag values: integers in
  the base their prefix gives (\<open>strconv.ParseInt\<close> with base 0), booleans and durations
  (\<open>time.ParseDuration\<close>). A flag set is an association list from names to typed setters on the
  configuration it fills. Two things of the floating point unit are arguments, in a \<open>flag_env\<close>: the
  parser of a decimal fraction, and the nanoseconds the fraction of a duration comes to.
\<close>

section \<open>Integers\<close>

definition base_digit :: "char \<Rightarrow> nat option" where
  "base_digit c = (let l = byte_of (lower_char c) in
     if is_digit c then Some (digit_val c) else if 97 \<le> l \<and> l \<le> 122 then Some (l - 87) else None)"

fun uint_from :: "nat \<Rightarrow> string \<Rightarrow> nat \<Rightarrow> nat option" where
  \<comment> \<open>the digits in a base up to 64 bits; an underscore is skipped\<close>
  "uint_from base [] n = Some n"
| "uint_from base (c # s) n =
     (if c = CHR ''_'' then uint_from base s n
      else case base_digit c of None \<Rightarrow> None
        | Some d \<Rightarrow> (if base \<le> d \<or> 2 ^ 64 \<le> n * base + d then None else uint_from base s (n * base + d)))"

definition base_prefix :: "string \<Rightarrow> nat \<times> string" where
  \<comment> \<open>the base and what follows its prefix\<close>
  "base_prefix s =
     (if s = [] \<or> hd s \<noteq> CHR ''0'' then (10, s)
      else if 3 \<le> length s \<and> lower_char (s ! 1) = CHR ''b'' then (2, drop 2 s)
      else if 3 \<le> length s \<and> lower_char (s ! 1) = CHR ''o'' then (8, drop 2 s)
      else if 3 \<le> length s \<and> lower_char (s ! 1) = CHR ''x'' then (16, drop 2 s)
      else (8, tl s))"

datatype saw = SawStart | SawDigit | SawUnderscore | SawOther

fun underscores_from :: "bool \<Rightarrow> saw \<Rightarrow> string \<Rightarrow> bool" where
  "underscores_from hex w [] = (w \<noteq> SawUnderscore)"
| "underscores_from hex w (c # s) =
     (if is_digit c \<or> hex \<and> 97 \<le> byte_of (lower_char c) \<and> byte_of (lower_char c) \<le> 102
        then underscores_from hex SawDigit s
      else if c = CHR ''_'' then w = SawDigit \<and> underscores_from hex SawUnderscore s
      else w \<noteq> SawUnderscore \<and> underscores_from hex SawOther s)"

definition underscoreOK :: "string \<Rightarrow> bool" where
  \<comment> \<open>on the text without its sign\<close>
  "underscoreOK s = (if 2 \<le> length s \<and> hd s = CHR ''0'' \<and> lower_char (s ! 1) \<in> set ''box''
     then underscores_from (lower_char (s ! 1) = CHR ''x'') SawDigit (drop 2 s)
     else underscores_from False SawStart s)"

definition parse_uint_base0 :: "string \<Rightarrow> nat option" where
  "parse_uint_base0 s =
     (if s = [] then None
      else case base_prefix s of (base, r) \<Rightarrow>
        (case uint_from base r 0 of None \<Rightarrow> None
         | Some n \<Rightarrow> if CHR ''_'' \<in> set r \<and> \<not> underscoreOK s then None else Some n))"

definition parse_int_base0 :: "string \<Rightarrow> int option" where
  \<comment> \<open>\<open>strconv.ParseInt(s, 0, 64)\<close>, without the value of an error\<close>
  "parse_int_base0 s =
     (let neg = (s \<noteq> [] \<and> hd s = CHR ''-''); r = (if s \<noteq> [] \<and> hd s \<in> set ''+-'' then tl s else s)
      in case parse_uint_base0 r of None \<Rightarrow> None
         | Some n \<Rightarrow> let v = (if neg then - int n else int n) in if in_int64 v then Some v else None)"

definition parse_bool :: "string \<Rightarrow> bool option" where
  "parse_bool s =
     (if s \<in> set [''1'', ''t'', ''T'', ''TRUE'', ''true'', ''True''] then Some True
      else if s \<in> set [''0'', ''f'', ''F'', ''FALSE'', ''false'', ''False''] then Some False
      else None)"

section \<open>Durations\<close>

definition unit_map :: "(string \<times> nat) list" where
  "unit_map = [(''ns'', 1), (''us'', 1000), ([CHR 0xC2, CHR 0xB5, CHR ''s''], 1000),
     ([CHR 0xCE, CHR 0xBC, CHR ''s''], 1000), (''ms'', 1000000), (''s'', 1000000000),
     (''m'', 60000000000), (''h'', 3600000000000)]"

fun leading_int :: "string \<Rightarrow> nat \<Rightarrow> (nat \<times> string) option" where
  "leading_int [] x = Some (x, [])"
| "leading_int (c # s) x =
     (if \<not> is_digit c then Some (x, c # s)
      else if 2 ^ 63 div 10 < x \<or> 2 ^ 63 < x * 10 + digit_val c then None
      else leading_int s (x * 10 + digit_val c))"

fun leading_fraction :: "string \<Rightarrow> nat \<Rightarrow> nat \<Rightarrow> bool \<Rightarrow> nat \<times> nat \<times> string" where
  \<comment> \<open>the value, how many digits it counts, and the rest\<close>
  "leading_fraction [] x k over = (x, k, [])"
| "leading_fraction (c # s) x k over =
     (if \<not> is_digit c then (x, k, c # s)
      else if over then leading_fraction s x k True
      else if (2 ^ 63 - 1) div 10 < x \<or> 2 ^ 63 < x * 10 + digit_val c then leading_fraction s x k True
      else leading_fraction s (x * 10 + digit_val c) (Suc k) False)"

definition opt_fraction :: "string \<Rightarrow> (nat \<times> nat \<times> string) \<times> bool" where
  \<comment> \<open>a fraction where there is a point, and whether it had a digit\<close>
  "opt_fraction s = (if s \<noteq> [] \<and> hd s = CHR ''.''
     then (leading_fraction (tl s) 0 0 False, tl s \<noteq> [] \<and> is_digit (hd (tl s)))
     else ((0, 0, s), False))"

definition number_char :: "char \<Rightarrow> bool" where
  "number_char c \<longleftrightarrow> c = CHR ''.'' \<or> is_digit c"

record flag_env =
  fe_float :: "string \<Rightarrow> rat option" \<comment> \<open>\<open>strconv.ParseFloat\<close>\<close>
  fe_fraction :: "nat \<Rightarrow> nat \<Rightarrow> nat \<Rightarrow> nat" \<comment> \<open>the value, its digits and the unit, as nanoseconds\<close>

definition duration_term :: "flag_env \<Rightarrow> string \<Rightarrow> (nat \<times> string) option" where
  \<comment> \<open>one number with its unit, in nanoseconds, and the rest\<close>
  "duration_term env s =
     (if s = [] \<or> \<not> number_char (hd s) then None
      else case leading_int s 0 of None \<Rightarrow> None
        | Some (v, s1) \<Rightarrow>
          (case opt_fraction s1 of ((f, k, s2), post) \<Rightarrow>
            (if \<not> is_digit (hd s) \<and> \<not> post then None
             else case map_of unit_map (takeWhile (\<lambda>c. \<not> number_char c) s2) of None \<Rightarrow> None
               | Some unit \<Rightarrow>
                 (if 2 ^ 63 div unit < v then None
                  else let w = (if 0 < f then v * unit + fe_fraction env f k unit else v * unit)
                    in if 2 ^ 63 < w then None else Some (w, dropWhile (\<lambda>c. \<not> number_char c) s2)))))"

lemma leading_int_len: "leading_int s x = Some (y, t) \<Longrightarrow> length t \<le> length s"
  by (induction s x rule: leading_int.induct) (auto split: if_splits)

lemma leading_fraction_len: "length (snd (snd (leading_fraction s x k over))) \<le> length s"
proof (induction s x k over rule: leading_fraction.induct)
  case (2 c s x k over)
  then show ?case by (cases over) (auto intro: le_SucI)
qed simp

lemma opt_fraction_len: "opt_fraction s = ((f, k, t), post) \<Longrightarrow> length t \<le> length s"
  using leading_fraction_len [of "tl s" 0 0 False]
  by (cases s) (auto simp: opt_fraction_def split: if_splits)

lemma unit_map_nonempty: "map_of unit_map [] = None"
  by (simp add: unit_map_def)

lemma duration_term_len: "duration_term env s = Some (w, t) \<Longrightarrow> length t < length s"
proof -
  assume t: "duration_term env s = Some (w, t)"
  then obtain v s1 f k s2 post where
    s1: "leading_int s 0 = Some (v, s1)" and s2: "opt_fraction s1 = ((f, k, s2), post)"
    and u: "map_of unit_map (takeWhile (\<lambda>c. \<not> number_char c) s2) \<noteq> None"
    and t': "t = dropWhile (\<lambda>c. \<not> number_char c) s2"
    by (auto simp: duration_term_def Let_def split: if_splits option.splits prod.splits)
  have "takeWhile (\<lambda>c. \<not> number_char c) s2 \<noteq> []" using u unit_map_nonempty by (metis)
  then have "length t < length s2"
    unfolding t' by (metis append_Nil append_self_conv2 length_append length_greater_0_conv less_add_same_cancel2 takeWhile_dropWhile_id)
  then show ?thesis using leading_int_len [OF s1] opt_fraction_len [OF s2] by linarith
qed

function duration_sum :: "flag_env \<Rightarrow> string \<Rightarrow> nat \<Rightarrow> nat option" where
  "duration_sum env s d =
     (if s = [] then Some d
      else case duration_term env s of None \<Rightarrow> None
        | Some (w, t) \<Rightarrow> (let d' = (d + w) mod 2 ^ 64 in if 2 ^ 63 < d' then None else duration_sum env t d'))"
  by pat_completeness auto

termination
  by (relation "measure (\<lambda>(env, s, d). length s)") (auto dest: duration_term_len)

declare duration_sum.simps [simp del]

definition parse_duration :: "flag_env \<Rightarrow> string \<Rightarrow> duration option" where
  \<comment> \<open>\<open>time.ParseDuration\<close>, without the error's text\<close>
  "parse_duration env s =
     (let neg = (s \<noteq> [] \<and> hd s = CHR ''-''); r = (if s \<noteq> [] \<and> hd s \<in> set ''+-'' then tl s else s)
      in if r = ''0'' then Some 0 else if r = [] then None
         else case duration_sum env r 0 of None \<Rightarrow> None
           | Some d \<Rightarrow> (if neg then Some (- int d) else if 2 ^ 63 - 1 < d then None else Some (int d)))"

section \<open>Flag sets\<close>

datatype 'c flag_value =
    BoolFlag "bool \<Rightarrow> 'c \<Rightarrow> 'c"
  | StringFlag "string \<Rightarrow> 'c \<Rightarrow> 'c"
  | IntFlag "int \<Rightarrow> 'c \<Rightarrow> 'c"
  | DurationFlag "duration \<Rightarrow> 'c \<Rightarrow> 'c"
  | FloatFlag "rat \<Rightarrow> 'c \<Rightarrow> 'c"

type_synonym 'c flag_set = "(string \<times> 'c flag_value) list"

datatype flag_error =
    BadSyntax string | NotDefined string | HelpRequested | InvalidValue string string | NeedsArgument string

datatype flag_token = NoFlag | Terminator | Malformed | FlagToken string "string option"

definition token_of :: "string \<Rightarrow> flag_token" where
  \<comment> \<open>the first half of \<open>parseOne\<close>: is the argument a flag, and does it carry a value\<close>
  "token_of s =
     (if length s < 2 \<or> hd s \<noteq> CHR ''-'' then NoFlag
      else if s = ''--'' then Terminator
      else let name = (if s ! 1 = CHR ''-'' then drop 2 s else tl s) in
        if hd name = CHR ''-'' \<or> hd name = CHR ''='' then Malformed
        else let key = takeWhile (\<lambda>c. c \<noteq> CHR ''='') name in
          FlagToken key (if key = name then None else Some (drop (Suc (length key)) name)))"

fun flag_set_value :: "flag_env \<Rightarrow> 'c flag_value \<Rightarrow> string \<Rightarrow> 'c \<Rightarrow> 'c option" where
  \<comment> \<open>\<open>Value.Set\<close>; \<open>None\<close> is its error\<close>
  "flag_set_value env (BoolFlag upd) v c = map_option (\<lambda>b. upd b c) (parse_bool v)"
| "flag_set_value env (StringFlag upd) v c = Some (upd v c)"
| "flag_set_value env (IntFlag upd) v c = map_option (\<lambda>i. upd i c) (parse_int_base0 v)"
| "flag_set_value env (DurationFlag upd) v c = map_option (\<lambda>d. upd d c) (parse_duration env v)"
| "flag_set_value env (FloatFlag upd) v c = map_option (\<lambda>x. upd x c) (fe_float env v)"

fun is_bool_flag :: "'c flag_value \<Rightarrow> bool" where
  "is_bool_flag (BoolFlag _) = True"
| "is_bool_flag _ = False"

fun parse_flags :: "flag_env \<Rightarrow> 'c flag_set \<Rightarrow> string list \<Rightarrow> 'c \<Rightarrow> flag_error + 'c \<times> string list" where
  \<comment> \<open>\<open>FlagSet.Parse\<close>: the filled configuration and the arguments left over\<close>
  "parse_flags env fs [] c = Inr (c, [])"
| "parse_flags env fs (s # args) c =
     (case token_of s of NoFlag \<Rightarrow> Inr (c, s # args) | Terminator \<Rightarrow> Inr (c, args) | Malformed \<Rightarrow> Inl (BadSyntax s)
      | FlagToken name v \<Rightarrow>
        (case map_of fs name of
           None \<Rightarrow> Inl (if name = ''help'' \<or> name = ''h'' then HelpRequested else NotDefined name)
         | Some fv \<Rightarrow>
           (case (if v = None \<and> is_bool_flag fv then Some ''true'' else v) of
              Some x \<Rightarrow> (case flag_set_value env fv x c of None \<Rightarrow> Inl (InvalidValue name x)
                | Some c' \<Rightarrow> parse_flags env fs args c')
            | None \<Rightarrow>
              (case args of [] \<Rightarrow> Inl (NeedsArgument name)
               | x # args' \<Rightarrow> (case flag_set_value env fv x c of None \<Rightarrow> Inl (InvalidValue name x)
                   | Some c' \<Rightarrow> parse_flags env fs args' c')))))"

definition flag_exit :: "flag_error \<Rightarrow> int" where
  \<comment> \<open>\<open>ExitOnError\<close>: the status the process ends with\<close>
  "flag_exit e = (if e = HelpRequested then 0 else 2)"

section \<open>Reading back what was printed\<close>

lemma digits_nat_Cons: "digits_nat (c # s) = digit_val c * 10 ^ length s + digits_nat s"
proof (induction s rule: rev_induct)
  case (snoc d t)
  have "digits_nat (c # t @ [d]) = 10 * digits_nat (c # t) + digit_val d"
    using digits_nat_snoc [of "c # t" d] by simp
  then show ?case using snoc by (simp add: algebra_simps)
qed (simp add: digits_nat_def)

lemma uint_from_digits:
  assumes "list_all is_digit s" "n * 10 ^ length s + digits_nat s < 2 ^ 64"
  shows "uint_from 10 s n = Some (n * 10 ^ length s + digits_nat s)"
  using assms
proof (induction s arbitrary: n)
  case (Cons c s)
  have c: "is_digit c" "c \<noteq> CHR ''_''" "base_digit c = Some (digit_val c)" "digit_val c < 10"
    using Cons.prems(1) by (auto simp: is_digit_def base_digit_def digit_val_def byte_of_def)
  have sum: "n * 10 ^ length (c # s) + digits_nat (c # s) = (n * 10 + digit_val c) * 10 ^ length s + digits_nat s"
    by (simp add: digits_nat_Cons algebra_simps)
  then have "(n * 10 + digit_val c) * 10 ^ length s + digits_nat s < 2 ^ 64" using Cons.prems(2) by simp
  moreover have "n * 10 + digit_val c \<le> (n * 10 + digit_val c) * 10 ^ length s"
    using mult_le_mono2 [of 1 "10 ^ length s" "n * 10 + digit_val c"] by simp
  ultimately have "n * 10 + digit_val c < 2 ^ 64"
    "uint_from 10 s (n * 10 + digit_val c) = Some ((n * 10 + digit_val c) * 10 ^ length s + digits_nat s)"
    using Cons.IH [of "n * 10 + digit_val c"] Cons.prems(1) by (linarith, simp)
  then show ?case unfolding sum using c by simp
qed (simp add: digits_nat_def)

lemma digits_no_underscore: "list_all is_digit s \<Longrightarrow> CHR ''_'' \<notin> set s"
  by (auto simp: list_all_iff is_digit_def byte_of_def)

lemma nat_digits_head: "hd (nat_digits n) = CHR ''0'' \<longleftrightarrow> n = 0"
proof (induction n rule: nat_digits.induct)
  case (1 n)
  show ?case
  proof (cases "n < 10")
    case True
    have "CHR ''0'' = digit_char 0" by code_simp
    moreover have "digit_char n = digit_char 0 \<longleftrightarrow> n = 0"
      using True byte_digit_char [of n] byte_digit_char [of 0] by (metis add_left_cancel zero_less_numeral)
    ultimately show ?thesis using True by (simp add: nat_digits.simps [of n])
  next
    case False
    then have "n div 10 \<noteq> 0" by simp
    then show ?thesis using 1 False by (simp add: nat_digits.simps [of n] hd_append)
  qed
qed

lemma parse_uint_nat_digits: "n < 2 ^ 63 \<Longrightarrow> parse_uint_base0 (nat_digits n) = Some n"
proof (cases "n = 0")
  case True
  have "parse_uint_base0 (nat_digits 0) = Some 0" by code_simp
  then show ?thesis using True by simp
next
  case False
  assume n: "n < 2 ^ 63"
  have "base_prefix (nat_digits n) = (10, nat_digits n)"
    using False by (simp add: base_prefix_def nat_digits_head)
  moreover have "uint_from 10 (nat_digits n) 0 = Some n"
    using uint_from_digits [of "nat_digits n" 0] nat_digits_digits [of n] n by simp
  ultimately show ?thesis
    by (simp add: parse_uint_base0_def digits_no_underscore [OF nat_digits_digits])
qed

lemma parse_itoa_base0: "0 \<le> i \<Longrightarrow> in_int64 i \<Longrightarrow> parse_int_base0 (itoa i) = Some i"
proof -
  assume i: "0 \<le> i" "in_int64 i"
  have "is_digit (hd (nat_digits (nat i)))"
    using nat_digits_digits [of "nat i"] by (metis list.pred_set list.set_sel(1) nat_digits_nonempty)
  then have "hd (nat_digits (nat i)) \<noteq> CHR ''-''" "hd (nat_digits (nat i)) \<noteq> CHR ''+''"
    using digit_not_sign by blast+
  then show ?thesis
    using i by (simp add: parse_int_base0_def digits_of_itoa parse_uint_nat_digits int64_defs)
qed

lemma parse_bool_string: "parse_bool (bool_string b) = Some b"
  by (cases b) (simp_all add: parse_bool_def bool_string_def)

section \<open>Durations with one whole number\<close>

lemma leading_int_digits:
  assumes "list_all is_digit d" "t = [] \<or> \<not> is_digit (hd t)"
  shows "leading_int (d @ t) x = (if x * 10 ^ length d + digits_nat d \<le> 2 ^ 63
    then Some (x * 10 ^ length d + digits_nat d, t) else None) \<or> (d = [] \<and> leading_int (d @ t) x = Some (x, t))"
  using assms
proof (induction d arbitrary: x)
  case Nil
  then show ?case by (cases t) auto
next
  case (Cons c d)
  let ?y = "x * 10 + digit_val c"
  have sum: "x * 10 ^ length (c # d) + digits_nat (c # d) = ?y * 10 ^ length d + digits_nat d"
    by (simp add: digits_nat_Cons algebra_simps)
  have le: "?y \<le> ?y * 10 ^ length d" using mult_le_mono2 [of 1 "10 ^ length d" ?y] by simp
  have over: "2 ^ 63 div 10 < x \<Longrightarrow> 2 ^ 63 < ?y" by simp
  show ?case
  proof (cases "2 ^ 63 < ?y")
    case True
    then have "\<not> ?y * 10 ^ length d + digits_nat d \<le> 2 ^ 63" using le by linarith
    then show ?thesis unfolding sum using True Cons.prems by simp
  next
    case False
    then have "leading_int ((c # d) @ t) x = leading_int (d @ t) ?y"
      using over Cons.prems by auto
    moreover have "d = [] \<Longrightarrow> ?y \<le> 2 ^ 63" using False by simp
    ultimately show ?thesis unfolding sum using Cons.IH [of ?y] Cons.prems by (auto simp: digits_nat_def)
  qed
qed

lemma duration_one:
  assumes "all_digits d" "u \<noteq> []" "list_all (\<lambda>c. \<not> number_char c) u" "map_of unit_map u = Some unit" "0 < unit"
  shows "parse_duration env (d @ u) = (if digits_nat d * unit \<le> 2 ^ 63 - 1 then Some (int (digits_nat d * unit)) else None)"
proof -
  have d: "d \<noteq> []" "list_all is_digit d" "is_digit (hd d)"
    using assms(1) by (auto simp: all_digits_def list_all_iff)
  have u: "\<not> is_digit (hd u)" "hd u \<noteq> CHR ''.''"
    using assms(2,3) by (cases u; auto simp: number_char_def)+
  have hd: "hd (d @ u) = hd d" "d @ u \<noteq> []" using d by simp_all
  have sign: "hd d \<noteq> CHR ''-''" "hd d \<noteq> CHR ''+''" using digit_not_sign [OF d(3)] by blast+
  have not0: "d @ u \<noteq> ''0''" using d(1) assms(2) by (cases d) auto
  have li: "leading_int (d @ u) 0 = (if digits_nat d \<le> 2 ^ 63 then Some (digits_nat d, u) else None)"
    using leading_int_digits [OF d(2), of u 0] u(1) d(1) by simp
  have fr: "opt_fraction u = ((0, 0, u), False)" using u(2) by (simp add: opt_fraction_def)
  have tw: "takeWhile (\<lambda>c. \<not> number_char c) u = u" "dropWhile (\<lambda>c. \<not> number_char c) u = []"
    using assms(3) by (auto simp: list_all_iff)
  have le: "digits_nat d \<le> digits_nat d * unit" using assms(5) by simp
  have dv: "(2::nat) ^ 63 div unit < digits_nat d \<longleftrightarrow> 2 ^ 63 < digits_nat d * unit"
    using assms(5) by (metis div_less_iff_less_mult not_less_eq_eq less_Suc_eq_le leD leI le_div_geq less_mult_imp_div_less)
  have "duration_term env (d @ u) = (if digits_nat d * unit \<le> 2 ^ 63 then Some (digits_nat d * unit, []) else None)"
  proof (cases "digits_nat d \<le> 2 ^ 63")
    case True
    have "number_char (hd d)" using d(3) by (simp add: number_char_def)
    then show ?thesis
      unfolding duration_term_def hd(1) li using True d hd(2) assms(4) dv by (simp add: not_less fr tw)
  next
    case False
    then have "\<not> digits_nat d * unit \<le> 2 ^ 63" using le by linarith
    then show ?thesis using li False by (simp add: duration_term_def)
  qed
  then have "duration_sum env (d @ u) 0 = (if digits_nat d * unit \<le> 2 ^ 63 then Some (digits_nat d * unit) else None)"
    using d(1) by (simp add: duration_sum.simps [of env "d @ u"] duration_sum.simps [of env "[]"] Let_def)
  then show ?thesis
    using hd(1) d(1) sign not0 by (simp add: parse_duration_def Let_def)
qed

section \<open>Arguments of the form -name=value\<close>

definition flag_name :: "string \<Rightarrow> bool" where
  "flag_name n \<longleftrightarrow> n \<noteq> [] \<and> hd n \<noteq> CHR ''-'' \<and> CHR ''='' \<notin> set n"

lemma token_of_value: "flag_name n \<Longrightarrow> token_of (CHR ''-'' # n @ CHR ''='' # v) = FlagToken n (Some v)"
proof -
  assume n: "flag_name n"
  then obtain c m where cm: "n = c # m" "c \<noteq> CHR ''-''" "c \<noteq> CHR ''=''" by (cases n) (auto simp: flag_name_def)
  have "takeWhile (\<lambda>c. c \<noteq> CHR ''='') (n @ CHR ''='' # v) = n"
    using n by (auto simp: flag_name_def takeWhile_append)
  then show ?thesis using cm by (simp add: token_of_def Let_def)
qed

lemma token_of_switch: "flag_name n \<Longrightarrow> token_of (CHR ''-'' # n) = FlagToken n None"
proof -
  assume n: "flag_name n"
  then obtain c m where cm: "n = c # m" "c \<noteq> CHR ''-''" "c \<noteq> CHR ''=''" by (cases n) (auto simp: flag_name_def)
  have "takeWhile (\<lambda>c. c \<noteq> CHR ''='') n = n" using n by (auto simp: flag_name_def takeWhile_eq_all_conv)
  then show ?thesis using cm by (simp add: token_of_def Let_def)
qed

lemma parse_flags_value:
  assumes "flag_name n" "map_of fs n = Some fv" "flag_set_value env fv v c = Some c'"
  shows "parse_flags env fs ((CHR ''-'' # n @ CHR ''='' # v) # args) c = parse_flags env fs args c'"
  using assms by (simp add: token_of_value)

lemma parse_flags_switch:
  assumes "flag_name n" "map_of fs n = Some (BoolFlag upd)"
  shows "parse_flags env fs ((CHR ''-'' # n) # args) c = parse_flags env fs args (upd True c)"
  using assms by (simp add: token_of_switch parse_bool_def)

lemma parse_flags_undefined:
  assumes "flag_name n" "map_of fs n = None" "n \<noteq> ''help''" "n \<noteq> ''h''"
  shows "parse_flags env fs ((CHR ''-'' # n @ CHR ''='' # v) # args) c = Inl (NotDefined n)"
  using assms by (simp add: token_of_value)

lemma parse_flags_optional:
  assumes "P \<Longrightarrow> parse_flags env fs (xs @ args) c = parse_flags env fs args c'"
  shows "parse_flags env fs ((if P then xs else []) @ args) c = parse_flags env fs args (if P then c' else c)"
  using assms by simp

end
