(* ===== verification/Blast_Config.thy ===== *)
theory Blast_Config
  imports Go_Flags Udpsock Quiccfg
begin

text \<open>
  The set-up of a load run in \<^verbatim>\<open>internal/blast/blast.go\<close>: the flags and their checks, the request body
  and the list of targets, the shape of every request (\<open>reqSpec\<close>), the round robin over the targets and
  the bound on requests in flight. The two files that can be read are arguments. \<open>rps\<close> and
  \<open>max-failure-pct\<close> are rational numbers.
\<close>

record blast_config =
  bc_target :: string
  bc_urls :: string
  bc_urlsFile :: string
  bc_targets :: "string list"
  bc_conns :: int
  bc_workers :: int
  bc_duration :: duration
  bc_warmup :: duration
  bc_requests :: int
  bc_timeout :: duration
  bc_maxIdle :: duration
  bc_keepAlive :: duration
  bc_recvBuf :: int
  bc_certDir :: string
  bc_serverName :: string
  bc_insecure :: bool
  bc_logPath :: string
  bc_statsEvery :: duration
  bc_readBody :: bool
  bc_method :: string
  bc_hostHdr :: string
  bc_headers :: "string list"
  bc_bodyStr :: string
  bc_bodyFile :: string
  bc_body :: string
  bc_contentType :: string
  bc_rps :: rat
  bc_mode :: string
  bc_maxInflight :: int
  bc_probe0RTT :: bool
  bc_maxFailPct :: rat
  bc_maxDrops :: int
  bc_qlogDir :: string

definition parseConfig_defaults :: blast_config where
  \<comment> \<open>what \<open>parseConfig\<close> returns without arguments\<close>
  "parseConfig_defaults = \<lparr>bc_target = ''https://edge:8443/fast'', bc_urls = '''', bc_urlsFile = '''',
     bc_targets = [], bc_conns = 4, bc_workers = 8, bc_duration = 30 * second, bc_warmup = 0,
     bc_requests = 0, bc_timeout = 30 * second, bc_maxIdle = 30 * second, bc_keepAlive = 0,
     bc_recvBuf = 0, bc_certDir = '''', bc_serverName = '''', bc_insecure = False, bc_logPath = '''',
     bc_statsEvery = 5 * second, bc_readBody = True, bc_method = ''GET'', bc_hostHdr = '''',
     bc_headers = [], bc_bodyStr = '''', bc_bodyFile = '''', bc_body = '''', bc_contentType = '''',
     bc_rps = 0, bc_mode = ''closed'', bc_maxInflight = 0, bc_probe0RTT = False, bc_maxFailPct = - 1,
     bc_maxDrops = - 1, bc_qlogDir = ''''\<rparr>"

definition blast_flags :: "blast_config flag_set" where
  "blast_flags = [
     (''url'', StringFlag (\<lambda>v. bc_target_update (\<lambda>_. v))),
     (''urls'', StringFlag (\<lambda>v. bc_urls_update (\<lambda>_. v))),
     (''urls-file'', StringFlag (\<lambda>v. bc_urlsFile_update (\<lambda>_. v))),
     (''conns'', IntFlag (\<lambda>v. bc_conns_update (\<lambda>_. v))),
     (''workers'', IntFlag (\<lambda>v. bc_workers_update (\<lambda>_. v))),
     (''duration'', DurationFlag (\<lambda>v. bc_duration_update (\<lambda>_. v))),
     (''warmup'', DurationFlag (\<lambda>v. bc_warmup_update (\<lambda>_. v))),
     (''requests'', IntFlag (\<lambda>v. bc_requests_update (\<lambda>_. v))),
     (''timeout'', DurationFlag (\<lambda>v. bc_timeout_update (\<lambda>_. v))),
     (''max-idle-timeout'', DurationFlag (\<lambda>v. bc_maxIdle_update (\<lambda>_. v))),
     (''keepalive'', DurationFlag (\<lambda>v. bc_keepAlive_update (\<lambda>_. v))),
     (''udp-recv-buffer'', IntFlag (\<lambda>v. bc_recvBuf_update (\<lambda>_. v))),
     (''certs'', StringFlag (\<lambda>v. bc_certDir_update (\<lambda>_. v))),
     (''server-name'', StringFlag (\<lambda>v. bc_serverName_update (\<lambda>_. v))),
     (''insecure'', BoolFlag (\<lambda>v. bc_insecure_update (\<lambda>_. v))),
     (''log'', StringFlag (\<lambda>v. bc_logPath_update (\<lambda>_. v))),
     (''stats-every'', DurationFlag (\<lambda>v. bc_statsEvery_update (\<lambda>_. v))),
     (''read-body'', BoolFlag (\<lambda>v. bc_readBody_update (\<lambda>_. v))),
     (''method'', StringFlag (\<lambda>v. bc_method_update (\<lambda>_. v))),
     (''host'', StringFlag (\<lambda>v. bc_hostHdr_update (\<lambda>_. v))),
     (''header'', StringFlag (\<lambda>v. bc_headers_update (\<lambda>hs. hs @ [v]))),
     (''body'', StringFlag (\<lambda>v. bc_bodyStr_update (\<lambda>_. v))),
     (''body-file'', StringFlag (\<lambda>v. bc_bodyFile_update (\<lambda>_. v))),
     (''content-type'', StringFlag (\<lambda>v. bc_contentType_update (\<lambda>_. v))),
     (''rps'', FloatFlag (\<lambda>v. bc_rps_update (\<lambda>_. v))),
     (''mode'', StringFlag (\<lambda>v. bc_mode_update (\<lambda>_. v))),
     (''max-inflight'', IntFlag (\<lambda>v. bc_maxInflight_update (\<lambda>_. v))),
     (''probe-0rtt'', BoolFlag (\<lambda>v. bc_probe0RTT_update (\<lambda>_. v))),
     (''max-failure-pct'', FloatFlag (\<lambda>v. bc_maxFailPct_update (\<lambda>_. v))),
     (''max-conn-drops'', IntFlag (\<lambda>v. bc_maxDrops_update (\<lambda>_. v))),
     (''qlog-dir'', StringFlag (\<lambda>v. bc_qlogDir_update (\<lambda>_. v)))]"

definition parseConfig :: "flag_env \<Rightarrow> string list \<Rightarrow> flag_error + blast_config" where
  \<comment> \<open>arguments left over after the flags are ignored\<close>
  "parseConfig env args = map_sum id fst (parse_flags env blast_flags args parseConfig_defaults)"

definition validate :: "blast_config \<Rightarrow> goerr option" where
  "validate c =
     (if bc_mode c \<noteq> ''closed'' \<and> bc_mode c \<noteq> ''open'' then Some (new_error ''-mode must be closed or open'')
      else if bc_mode c = ''open'' \<and> bc_rps c \<le> 0
        then Some (new_error ''-mode=open requires -rps > 0 so offered load does not depend on latency'')
      else if bc_conns c < 1 \<or> bc_workers c < 1
        then Some (new_error ''-conns and -workers must be >= 1'')
      else None)"

definition load_body :: "(string \<Rightarrow> goerr + string) \<Rightarrow> blast_config \<Rightarrow> goerr + string" where
  "load_body readFile c =
     (if bc_bodyFile c \<noteq> '''' then
        (case readFile (bc_bodyFile c) of Inl e \<Rightarrow> Inl (wrap_error ''read -body-file: '' e) | Inr b \<Rightarrow> Inr b)
      else if bc_bodyStr c \<noteq> '''' then Inr (bc_bodyStr c) else Inr (bc_body c))"

definition extra_urls :: "string \<Rightarrow> string list" where
  "extra_urls urls = (if urls = '''' then []
     else filter (\<lambda>u. u \<noteq> '''') (map trim_space (split_on (CHR '','') urls)))"

definition file_urls :: "string \<Rightarrow> string list" where
  "file_urls raw = filter (\<lambda>l. \<not> (l = '''' \<or> prefix ''#'' l)) (map trim_space (split_on (CHR 0x0A) raw))"

definition loadPayload :: "(string \<Rightarrow> goerr + string) \<Rightarrow> blast_config \<Rightarrow> goerr + blast_config" where
  "loadPayload readFile c =
     (case load_body readFile c of Inl e \<Rightarrow> Inl e
      | Inr b \<Rightarrow>
        (let base = bc_target c # extra_urls (bc_urls c) in
         if bc_urlsFile c = '''' then Inr (c\<lparr>bc_body := b, bc_targets := base\<rparr>)
         else (case readFile (bc_urlsFile c) of Inl e \<Rightarrow> Inl (wrap_error ''read -urls-file: '' e)
           | Inr raw \<Rightarrow> Inr (c\<lparr>bc_body := b, bc_targets := base @ file_urls raw\<rparr>))))"

definition inflight :: "blast_config \<Rightarrow> int" where
  "inflight c =
     (if 0 < bc_maxInflight c then (if 4096 < bc_maxInflight c then 4096 else bc_maxInflight c)
      else let n = wrap64 (bc_conns c * bc_workers c);
               n' = (if bc_mode c = ''open'' then wrap64 (n * 8) else n)
           in if n' < 1 then 1 else if 4096 < n' then 4096 else n')"

record reqSpec =
  rs_url :: string
  rs_urls :: "string list"
  rs_n :: u64
  rs_method :: string
  rs_hostHdr :: string
  rs_headers :: "string list"
  rs_timeout :: duration
  rs_readBody :: bool
  rs_body :: string
  rs_contentType :: string

definition spec :: "blast_config \<Rightarrow> reqSpec" where
  "spec c = \<lparr>rs_url = bc_target c, rs_urls = bc_targets c, rs_n = 0, rs_method = bc_method c,
     rs_hostHdr = bc_hostHdr c, rs_headers = bc_headers c, rs_timeout = bc_timeout c,
     rs_readBody = bc_readBody c, rs_body = bc_body c, rs_contentType = bc_contentType c\<rparr>"

definition url_pick :: "nat \<Rightarrow> u64 \<Rightarrow> nat \<times> u64" where
  \<comment> \<open>\<open>i := s.n.Add(1) - 1\<close> and \<open>i % uint64(len(s.urls))\<close>\<close>
  "url_pick k n = (unat ((n + 1 - 1) mod of_nat k), n + 1)"

definition nextURL :: "reqSpec \<Rightarrow> string \<times> reqSpec" where
  "nextURL s =
     (if 0 < length (rs_urls s) then
        (if length (rs_urls s) = 1 then (rs_urls s ! 0, s)
         else (rs_urls s ! fst (url_pick (length (rs_urls s)) (rs_n s)),
               s\<lparr>rs_n := snd (url_pick (length (rs_urls s)) (rs_n s))\<rparr>))
      else (rs_url s, s))"

record http_request =
  hr_method :: string
  hr_url :: string
  hr_header :: http_header
  hr_host :: string \<comment> \<open>empty: the host of the URL\<close>
  hr_body :: string
  hr_contentLength :: int

definition applyHeaders :: "reqSpec \<Rightarrow> http_request \<Rightarrow> http_request" where
  "applyHeaders s req =
     (let req1 = (if rs_body s = '''' then req
            else let r = req\<lparr>hr_contentLength := int (length (rs_body s))\<rparr> in
              if rs_contentType s = '''' then r
              else r\<lparr>hr_header := header_set (hr_header r) ''Content-Type'' (rs_contentType s)\<rparr>);
          req2 = req1\<lparr>hr_header := foldl add_header_line (hr_header req1) (rs_headers s)\<rparr>
      in if rs_hostHdr s = '''' then req2 else req2\<lparr>hr_host := rs_hostHdr s\<rparr>)"

definition newRequest :: "(string \<Rightarrow> string \<Rightarrow> goerr option) \<Rightarrow> reqSpec \<Rightarrow> string \<Rightarrow> goerr + http_request" where
  \<comment> \<open>the first argument is the check of method and URL in \<open>http.NewRequestWithContext\<close>\<close>
  "newRequest chk s target =
     (case chk (rs_method s) target of Some e \<Rightarrow> Inl e
      | None \<Rightarrow> Inr (applyHeaders s \<lparr>hr_method = rs_method s, hr_url = target, hr_header = (\<lambda>_. []),
          hr_host = '''', hr_body = rs_body s, hr_contentLength = int (length (rs_body s))\<rparr>))"

definition blast_quicConfig ::
  "(string \<Rightarrow> goerr option) \<Rightarrow> (string \<Rightarrow> goerr option) \<Rightarrow> blast_config \<Rightarrow> goerr + quic_config" where
  "blast_quicConfig mkdir setenv c = Configure mkdir setenv (Client (bc_maxIdle c) (bc_keepAlive c)) (bc_qlogDir c)"

section \<open>Lemmas\<close>

interpretation urls: round_robin url_pick
proof unfold_locales
  fix n :: nat and c :: u64
  assume "0 < n" "n < 2 ^ 64"
  then show "fst (url_pick n c) = unat c mod n"
    by (simp add: url_pick_def unat_mod unat_of_nat take_bit_nat_eq_self)
  show "snd (url_pick n c) = c + 1" by (simp add: url_pick_def)
qed

primrec next_urls :: "nat \<Rightarrow> reqSpec \<Rightarrow> string list" where
  "next_urls 0 s = []"
| "next_urls (Suc k) s = fst (nextURL s) # next_urls k (snd (nextURL s))"

lemma next_urls_picks:
  assumes "2 \<le> length (rs_urls s)"
  shows "next_urls k s = map ((!) (rs_urls s)) (picks url_pick k (length (rs_urls s)) (rs_n s))"
  using assms by (induction k arbitrary: s) (auto simp: nextURL_def)

lemma loadPayload_targets:
  "loadPayload rf c = Inr c' \<Longrightarrow> \<exists>more. bc_targets c' = bc_target c # more \<and>
     (\<forall>u\<in>set more. u \<noteq> '''') \<and> bc_target c' = bc_target c"
  by (auto simp: loadPayload_def Let_def extra_urls_def file_urls_def split: sum.splits if_splits)

section \<open>Properties\<close>

text \<open>The target mix is fair: with \<open>n\<close> targets, \<open>n\<close> consecutive requests go to each of them exactly
  once, as long as the 64-bit counter does not wrap; with a single target every request goes to it.\<close>

lemma url_mix_fair:
  assumes "rs_urls s \<noteq> []" "unat (rs_n s) + length (rs_urls s) < 2 ^ 64"
  shows "mset (next_urls (length (rs_urls s)) s) = mset (rs_urls s)"
proof (cases "length (rs_urls s) = 1")
  case True
  then obtain u where "rs_urls s = [u]" by (auto simp: length_Suc_conv)
  then show ?thesis by (simp add: nextURL_def)
next
  case False
  then have n: "2 \<le> length (rs_urls s)" using assms(1) by (cases "rs_urls s") (auto simp: Suc_le_eq)
  have "mset (map ((!) (rs_urls s)) (picks url_pick (length (rs_urls s)) (length (rs_urls s)) (rs_n s)))
      = mset (map ((!) (rs_urls s)) [0..<length (rs_urls s)])"
    using assms by (intro urls.picks_mset) auto
  then show ?thesis using next_urls_picks [OF n] by (simp add: map_nth)
qed

text \<open>The bound on requests in flight is between 1 and 4096 for every combination of flags, even
  where the product of connections, workers and 8 overflows 64 bits; an explicit bound in that range
  is kept as it is.\<close>

lemma inflight_bounds:
  "1 \<le> inflight c \<and> inflight c \<le> 4096 \<and> (bc_maxInflight c \<in> {1..4096} \<longleftrightarrow>
     0 < bc_maxInflight c \<and> inflight c = bc_maxInflight c)"
  by (auto simp: inflight_def Let_def)

end
