(* ===== verification/Samples.thy ===== *)
theory Samples
  imports Complex_Main Go_Prelude
begin

text \<open>
  What the load harness and the control panel share: a bounded buffer of latency samples and a
  percentile read off the sorted samples. Both are interfaces with two implementations, the ring of
  \<^verbatim>\<open>internal/blast/hist.go\<close> with \<open>percentile\<close> of \<^verbatim>\<open>internal/blast/blast.go\<close> and the sliding slice of
  \<open>appendSample\<close> with \<open>percentileMs\<close> in \<^verbatim>\<open>internal/ui/ui.go\<close>. A \<open>float64\<close> is a rational number here:
  the rounding of the one multiplication in front of the index is not modelled.
\<close>


section \<open>Interfaces\<close>

locale sample_buffer =
  fixes samples :: "'b \<Rightarrow> int list"
    and add :: "int \<Rightarrow> 'b \<Rightarrow> 'b"
    and ok :: "'b \<Rightarrow> bool"
    and capacity :: "'b \<Rightarrow> nat"
  assumes add_ok: "ok b \<Longrightarrow> ok (add x b)"
    and add_capacity: "ok b \<Longrightarrow> capacity (add x b) = capacity b"
    and bounded: "ok b \<Longrightarrow> length (samples b) \<le> capacity b"
    and add_subset: "ok b \<Longrightarrow> set (samples (add x b)) \<subseteq> insert x (set (samples b))"
    and add_kept: "ok b \<Longrightarrow> x \<in> set (samples (add x b))"
    and add_room: "ok b \<Longrightarrow> length (samples b) < capacity b \<Longrightarrow> samples (add x b) = samples b @ [x]"
begin

lemma fold_ok: "ok b \<Longrightarrow> ok (fold add xs b) \<and> capacity (fold add xs b) = capacity b"
  by (induction xs arbitrary: b) (auto simp: add_ok add_capacity)

lemma fold_bounded: "ok b \<Longrightarrow> length (samples (fold add xs b)) \<le> capacity b"
  using fold_ok bounded by metis

lemma fold_subset: "ok b \<Longrightarrow> set (samples (fold add xs b)) \<subseteq> set (samples b) \<union> set xs"
proof (induction xs arbitrary: b)
  case (Cons x xs)
  have "set (samples (fold add xs (add x b))) \<subseteq> set (samples (add x b)) \<union> set xs"
    by (rule Cons.IH [OF add_ok [OF Cons.prems]])
  then show ?case using add_subset [OF Cons.prems, of x] by auto
qed simp

lemma fold_fits:
  "ok b \<Longrightarrow> length (samples b) + length xs \<le> capacity b \<Longrightarrow> samples (fold add xs b) = samples b @ xs"
  by (induction xs arbitrary: b) (simp_all add: add_ok add_capacity add_room)

end

locale percentiles =
  fixes rank :: "rat \<Rightarrow> nat \<Rightarrow> nat"
  assumes rank_less: "0 < n \<Longrightarrow> 0 \<le> p \<Longrightarrow> rank p n < n"
    and rank_mono: "0 < n \<Longrightarrow> 0 \<le> p \<Longrightarrow> p \<le> q \<Longrightarrow> rank p n \<le> rank q n"
begin

lemma in_samples: "xs \<noteq> [] \<Longrightarrow> 0 \<le> p \<Longrightarrow> sort xs ! rank p (length xs) \<in> set xs"
  using rank_less [of "length xs" p] by (metis length_greater_0_conv length_sort nth_mem set_sort)

lemma monotone:
  fixes xs :: "int list"
  assumes "xs \<noteq> []" "0 \<le> p" "p \<le> q"
  shows "sort xs ! rank p (length xs) \<le> sort xs ! rank q (length xs)"
proof (rule sorted_nth_mono)
  show "sorted (sort xs)" by simp
  show "rank p (length xs) \<le> rank q (length xs)" using assms by (intro rank_mono) auto
  show "rank q (length xs) < length (sort xs)" using assms rank_less [of "length xs" q] by simp
qed

lemma below_max:
  fixes xs :: "int list"
  assumes "xs \<noteq> []" "0 \<le> p"
  shows "sort xs ! rank p (length xs) \<le> last (sort xs)"
proof -
  have "last (sort xs) = sort xs ! (length xs - 1)"
    using assms(1) last_conv_nth [of "sort xs"] by (metis length_0_conv length_sort)
  moreover have "rank p (length xs) \<le> length xs - 1" using rank_less [of "length xs" p] assms by simp
  moreover have "sort xs ! rank p (length xs) \<le> sort xs ! (length xs - 1)"
    by (rule sorted_nth_mono) (use calculation(2) assms(1) in auto)
  ultimately show ?thesis by simp
qed

lemma at_least_rank:
  \<comment> \<open>at least \<open>rank + 1\<close> of the samples do not exceed the percentile\<close>
  fixes xs :: "int list"
  assumes "xs \<noteq> []" "0 \<le> p"
  shows "rank p (length xs) < length (filter (\<lambda>x. x \<le> sort xs ! rank p (length xs)) xs)"
proof -
  let ?r = "rank p (length xs)" and ?v = "sort xs ! rank p (length xs)"
  have r: "?r < length (sort xs)" using assms rank_less [of "length xs" p] by simp
  have "\<forall>x \<in> set (take (Suc ?r) (sort xs)). x \<le> ?v"
    using r by (auto simp: in_set_conv_nth intro!: sorted_nth_mono)
  then have "filter (\<lambda>x. x \<le> ?v) (take (Suc ?r) (sort xs)) = take (Suc ?r) (sort xs)"
    by (simp add: filter_id_conv)
  moreover have "length (filter (\<lambda>x. x \<le> ?v) (sort xs))
      = length (filter (\<lambda>x. x \<le> ?v) (take (Suc ?r) (sort xs))) + length (filter (\<lambda>x. x \<le> ?v) (drop (Suc ?r) (sort xs)))"
    by (metis append_take_drop_id filter_append length_append)
  moreover have "length (filter (\<lambda>x. x \<le> ?v) (sort xs)) = length (filter (\<lambda>x. x \<le> ?v) xs)"
    by (metis filter_sort length_sort)
  ultimately show ?thesis using r by simp
qed

end

end
