(* ===== verification/Blast_Hist.thy ===== *)
theory Blast_Hist
  imports Samples
begin

text \<open>
  \<^verbatim>\<open>internal/blast/hist.go\<close> and \<open>percentile\<close> of \<^verbatim>\<open>internal/blast/blast.go\<close>: a ring of latency samples
  and the percentiles printed from it. The main lemma says which samples the ring holds after any
  number of additions.
\<close>

record latencyHist =
  hist_samples :: "duration list"
  hist_cap :: nat
  hist_seen :: nat

definition newLatencyHist :: "int \<Rightarrow> latencyHist" where
  "newLatencyHist mx = \<lparr>hist_samples = [], hist_cap = nat (if mx < 1 then 1 else mx), hist_seen = 0\<rparr>"

definition hist_add :: "duration \<Rightarrow> latencyHist \<Rightarrow> latencyHist" where
  \<comment> \<open>\<open>add\<close> on a receiver that is not nil; the counter is advanced before it is reduced\<close>
  "hist_add d h =
     (let seen = Suc (hist_seen h) in
      if length (hist_samples h) < hist_cap h
      then h\<lparr>hist_seen := seen, hist_samples := hist_samples h @ [d]\<rparr>
      else h\<lparr>hist_seen := seen, hist_samples := (hist_samples h)[seen mod hist_cap h := d]\<rparr>)"

definition hist_sorted :: "latencyHist \<Rightarrow> duration list" where
  "hist_sorted h = sort (hist_samples h)"

definition blast_rank :: "rat \<Rightarrow> nat \<Rightarrow> nat" where
  "blast_rank p n = (let idx = nat \<lfloor>p / 100 * of_nat n\<rfloor> in if n \<le> idx then n - 1 else idx)"

definition percentile :: "duration list \<Rightarrow> rat \<Rightarrow> duration" where
  "percentile srt p = (if srt = [] then 0 else srt ! blast_rank p (length srt))"

definition hist_ok :: "latencyHist \<Rightarrow> bool" where
  "hist_ok h \<longleftrightarrow> 0 < hist_cap h \<and> length (hist_samples h) = min (hist_seen h) (hist_cap h)"

lemma hist_ok_new: "hist_ok (newLatencyHist mx)"
  by (simp add: hist_ok_def newLatencyHist_def)

lemma hist_add_full_nth: "hist_ok h \<Longrightarrow> hist_cap h \<le> hist_seen h \<Longrightarrow> length (hist_samples h) = hist_cap h"
  by (simp add: hist_ok_def)

lemma mod_cap_less: "hist_ok h \<Longrightarrow> Suc (hist_seen h) mod hist_cap h < hist_cap h"
  by (simp add: hist_ok_def)

interpretation ring: sample_buffer hist_samples hist_add hist_ok hist_cap
proof unfold_locales
  fix h :: latencyHist and x
  assume h: "hist_ok h"
  show "hist_ok (hist_add x h)"
    using h by (auto simp: hist_ok_def hist_add_def Let_def)
  show "hist_cap (hist_add x h) = hist_cap h" by (simp add: hist_add_def Let_def)
  show "length (hist_samples h) \<le> hist_cap h" using h by (simp add: hist_ok_def)
  show "set (hist_samples (hist_add x h)) \<subseteq> insert x (set (hist_samples h))"
    by (auto simp: hist_add_def Let_def dest: set_update_subset_insert [THEN subsetD])
  show "x \<in> set (hist_samples (hist_add x h))"
    using h mod_cap_less [OF h] by (auto simp: hist_add_def Let_def hist_ok_def intro!: set_update_memI)
  assume "length (hist_samples h) < hist_cap h"
  then show "hist_samples (hist_add x h) = hist_samples h @ [x]" by (simp add: hist_add_def Let_def)
qed

interpretation blast_pct: percentiles blast_rank
proof unfold_locales
  fix n :: nat and p q :: rat
  assume n: "0 < n" and p: "0 \<le> p"
  show "blast_rank p n < n" using n by (auto simp: blast_rank_def Let_def)
  assume "p \<le> q"
  then have "p / 100 * of_nat n \<le> q / 100 * of_nat n"
    by (intro mult_right_mono divide_right_mono) auto
  then have "nat \<lfloor>p / 100 * of_nat n\<rfloor> \<le> nat \<lfloor>q / 100 * of_nat n\<rfloor>"
    by (intro nat_mono floor_mono)
  then show "blast_rank p n \<le> blast_rank q n"
    by (auto simp: blast_rank_def Let_def)
qed

section \<open>What the ring holds\<close>

definition slot :: "nat \<Rightarrow> nat \<Rightarrow> nat \<Rightarrow> nat" where
  \<comment> \<open>the number of the sample in slot \<open>j\<close> of a full ring of size \<open>n\<close> after \<open>s\<close> samples\<close>
  "slot n s j = (if s < 2 * n then (if j = 0 then 0 else if j \<le> s - n then n + j - 1 else j)
     else s - 1 - ((s - j) mod n))"

lemma slot_less: "0 < n \<Longrightarrow> n \<le> s \<Longrightarrow> j < n \<Longrightarrow> slot n s j < s"
  by (auto simp: slot_def)

lemma slot_new: "0 < n \<Longrightarrow> n \<le> s \<Longrightarrow> slot n (Suc s) (Suc s mod n) = s"
proof (cases "Suc s < 2 * n")
  case True
  assume n: "0 < n" "n \<le> s"
  then have "Suc s mod n = Suc s - n" using True by (simp add: mod_if)
  then show ?thesis using True n by (auto simp: slot_def)
next
  case False
  assume n: "0 < n" "n \<le> s"
  have "(Suc s - Suc s mod n) mod n = 0"
    by (simp add: minus_mod_eq_mult_div)
  then show ?thesis using False by (simp add: slot_def)
qed

lemma mod_Suc_wrap: "0 < n \<Longrightarrow> a mod n \<noteq> n - 1 \<Longrightarrow> Suc a mod n = Suc (a mod n)" for a n :: nat
  by (simp add: mod_Suc)

lemma slot_old:
  assumes n: "0 < n" "n \<le> s" "j < n" "j \<noteq> Suc s mod n"
  shows "slot n (Suc s) j = slot n s j"
proof -
  consider "Suc s < 2 * n" | "Suc s = 2 * n" | "2 * n \<le> s" by linarith
  then show ?thesis
  proof cases
    case 1
    then have "Suc s mod n = Suc s - n" using n by (simp add: mod_if)
    then show ?thesis using 1 n by (auto simp: slot_def)
  next
    case 2
    then have "j \<noteq> 0" using n by auto
    moreover have "(Suc s - j) mod n = n - j"
    proof -
      have "Suc s - j = n + (n - j)" using 2 n by simp
      then show ?thesis using n \<open>j \<noteq> 0\<close> by (simp only: mod_add_self1) simp
    qed
    ultimately show ?thesis using 2 n by (simp add: slot_def)
  next
    case 3
    have "(s - j) mod n \<noteq> n - 1"
    proof
      assume "(s - j) mod n = n - 1"
      then have "Suc (s - j) mod n = 0" using n by (simp add: mod_Suc)
      moreover have "Suc s = Suc (s - j) + j" using 3 n by simp
      ultimately have "Suc s mod n = j mod n" by (metis add.left_neutral mod_add_left_eq)
      then show False using n by simp
    qed
    then have "(Suc s - j) mod n = Suc ((s - j) mod n)"
      using n 3 by (simp add: mod_Suc_wrap Suc_diff_le)
    then show ?thesis using 3 by (simp add: slot_def)
  qed
qed

abbreviation fill :: "int \<Rightarrow> duration list \<Rightarrow> latencyHist" where
  "fill n xs \<equiv> fold hist_add xs (newLatencyHist n)"

lemma fill_frame: "hist_cap (fill n xs) = hist_cap (newLatencyHist n) \<and> hist_ok (fill n xs)"
  using ring.fold_ok [OF hist_ok_new] by blast

lemma fill_seen: "hist_seen (fill n xs) = length xs"
proof (induction xs rule: rev_induct)
  case (snoc x xs)
  then show ?case by (simp add: hist_add_def Let_def)
qed (simp add: newLatencyHist_def)

lemma fill_slot:
  assumes "hist_cap (newLatencyHist m) = n" "n \<le> length xs" "j < n"
  shows "hist_samples (fill m xs) ! j = xs ! slot n (length xs) j"
  using assms(2,3)
proof (induction xs arbitrary: j rule: rev_induct)
  case (snoc x xs)
  have n: "0 < n" using assms(1) by (auto simp: newLatencyHist_def)
  have cap: "hist_cap (fill m xs) = n" using fill_frame assms(1) by simp
  show ?case
  proof (cases "n \<le> length xs")
    case True
    have len: "length (hist_samples (fill m xs)) = n"
      using fill_frame [of xs m] True cap by (simp add: hist_ok_def fill_seen)
    have eq: "hist_samples (fill m (xs @ [x])) = (hist_samples (fill m xs))[Suc (length xs) mod n := x]"
      using len cap by (simp add: hist_add_def Let_def fill_seen)
    show ?thesis
    proof (cases "j = Suc (length xs) mod n")
      case True
      then show ?thesis
        using eq len snoc.prems slot_new [OF n \<open>n \<le> length xs\<close>] by (simp add: nth_append)
    next
      case False
      then show ?thesis
        using eq snoc.IH [OF True snoc.prems(2)] slot_old [OF n True snoc.prems(2) False]
          slot_less [OF n True snoc.prems(2)] by (simp add: nth_append)
    qed
  next
    case False
    then have len: "length (xs @ [x]) = n" using snoc.prems by simp
    then have "hist_samples (fill m (xs @ [x])) = xs @ [x]"
      using ring.fold_fits [OF hist_ok_new [of m], of "xs @ [x]"] assms(1) by (simp add: newLatencyHist_def)
    moreover have "slot n (length (xs @ [x])) j = j"
      using len snoc.prems n by (auto simp: slot_def)
    ultimately show ?thesis by simp
  qed
qed (use assms in \<open>simp add: newLatencyHist_def\<close>)

lemma last_n_Suc_snoc: "last_n (Suc k) (xs @ [x]) = last_n k xs @ [x]"
  by (simp add: last_n_def)

lemma last_n_Cons_nth:
  assumes "k < length xs"
  shows "last_n (Suc k) xs = xs ! (length xs - Suc k) # last_n k xs"
proof -
  have "Suc (length xs - Suc k) = length xs - k" using assms by simp
  then show ?thesis
    using assms Cons_nth_drop_Suc [of "length xs - Suc k" xs] by (simp add: last_n_def)
qed

lemma slot_overwritten:
  assumes n: "0 < n" "n \<le> s"
  shows "slot n s (Suc s mod n) = (if Suc s < 2 * n then s - (n - 1) else if Suc s = 2 * n then 0 else s - n)"
proof -
  consider "Suc s < 2 * n" | "Suc s = 2 * n" | "2 * n \<le> s" by linarith
  then show ?thesis
  proof cases
    case 1
    then have "Suc s mod n = Suc s - n" using n by (simp add: mod_if)
    then show ?thesis using 1 n by (auto simp: slot_def)
  next
    case 3
    have "Suc (s - Suc s mod n) mod n = 0"
      using 3 n mod_less_divisor [of n "Suc s"]
      by (metis Suc_diff_le diff_is_0_eq' less_imp_le_nat le_trans minus_mod_eq_mult_div mod_mult_self1_is_0 mult_2 le_add1 nle_le)
    then have "(s - Suc s mod n) mod n = n - 1" using n by (simp add: mod_Suc split: if_splits)
    then show ?thesis using 3 n by (simp add: slot_def)
  qed (simp add: slot_def)
qed

lemma fill_just_full:
  assumes cap: "hist_cap (newLatencyHist m) = n" and len: "length xs = n"
  shows "mset (hist_samples (fill m xs)) = add_mset (xs ! 0) (mset (last_n (n - 1) xs))"
proof -
  have n: "0 < n" using cap by (auto simp: newLatencyHist_def)
  have "hist_samples (fill m xs) = xs"
    using ring.fold_fits [OF hist_ok_new [of m], of xs] cap len by (simp add: newLatencyHist_def)
  moreover have "xs = xs ! 0 # last_n (n - 1) xs"
    using n len last_n_Cons_nth [of "n - 1" xs] by (simp add: last_n_def)
  ultimately show ?thesis by (metis mset.simps(2))
qed

lemma fill_full_add:
  assumes cap: "hist_cap (newLatencyHist m) = n" and full: "n \<le> length xs"
  shows "mset (hist_samples (fill m (xs @ [x])))
    = add_mset x (mset (hist_samples (fill m xs)) - {#xs ! slot n (length xs) (Suc (length xs) mod n)#})"
proof -
  have n: "0 < n" using cap by (auto simp: newLatencyHist_def)
  have capf: "hist_cap (fill m xs) = n" using fill_frame cap by simp
  then have len: "length (hist_samples (fill m xs)) = n"
    using fill_frame [of xs m] full by (simp add: hist_ok_def fill_seen)
  have "hist_samples (fill m (xs @ [x])) = (hist_samples (fill m xs))[Suc (length xs) mod n := x]"
    using len capf by (simp add: hist_add_def Let_def fill_seen)
  then show ?thesis using n len fill_slot [OF cap full, of "Suc (length xs) mod n"] by (simp add: mset_update)
qed

lemma fill_mset:
  assumes cap: "hist_cap (newLatencyHist m) = n"
  shows "(n \<le> length xs \<and> length xs < 2 * n \<longrightarrow>
      mset (hist_samples (fill m xs)) = add_mset (xs ! 0) (mset (last_n (n - 1) xs))) \<and>
    (2 * n \<le> length xs \<longrightarrow> mset (hist_samples (fill m xs)) = mset (last_n n xs))"
proof (induction xs rule: rev_induct)
  case Nil
  then show ?case using cap by (auto simp: newLatencyHist_def split: if_splits)
next
  case (snoc x xs)
  have n: "0 < n" using cap by (auto simp: newLatencyHist_def)
  then obtain k where k: "n = Suc k" by (cases n) auto
  let ?s = "length xs"
  show ?case
  proof (cases "n \<le> ?s")
    case False
    then show ?thesis using n fill_just_full [OF cap, of "xs @ [x]"] by auto
  next
    case True
    note upd = fill_full_add [OF cap True, of x] slot_overwritten [OF n True]
    consider "Suc ?s < 2 * n" | "Suc ?s = 2 * n" | "2 * n \<le> ?s" by linarith
    then show ?thesis
    proof cases
      case 1
      then obtain k' where k': "k = Suc k'" using True k by (cases k) auto
      then have "last_n k xs = xs ! (?s - k) # last_n k' xs"
        using last_n_Cons_nth [of k' xs] True k by simp
      then show ?thesis
        using upd snoc.IH 1 True k k' by (auto simp: nth_append last_n_Suc_snoc)
    next
      case 2
      then show ?thesis using upd snoc.IH True k by (simp add: last_n_Suc_snoc)
    next
      case 3
      then show ?thesis
        using upd snoc.IH True k last_n_Cons_nth [of k xs] by (simp add: last_n_Suc_snoc)
    qed
  qed
qed

section \<open>Properties\<close>

text \<open>C35: which samples the latency ring holds after any sequence of additions to a ring of size \<open>n\<close>:
  all of them up to \<open>n\<close>, exactly the last \<open>n\<close> from \<open>2 n\<close> on, and in between the very first sample and
  the last \<open>n - 1\<close>, because the slot is computed from the counter after it was advanced. It never
  holds more than \<open>n\<close>.\<close>

theorem hist_holds:
  assumes "1 \<le> n"
  shows "let h = fold hist_add xs (newLatencyHist (int n)) in
    length (hist_samples h) = min (length xs) n \<and> hist_seen h = length xs \<and>
    (length xs \<le> n \<longrightarrow> hist_samples h = xs) \<and>
    (n < length xs \<and> length xs < 2 * n \<longrightarrow>
       mset (hist_samples h) = add_mset (xs ! 0) (mset (last_n (n - 1) xs))) \<and>
    (2 * n \<le> length xs \<longrightarrow> mset (hist_samples h) = mset (last_n n xs))"
proof -
  have cap: "hist_cap (newLatencyHist (int n)) = n" using assms by (simp add: newLatencyHist_def)
  have "length xs \<le> n \<Longrightarrow> hist_samples (fill (int n) xs) = xs"
    using ring.fold_fits [OF hist_ok_new [of "int n"], of xs] cap by (simp add: newLatencyHist_def)
  moreover have "length (hist_samples (fill (int n) xs)) = min (length xs) n"
    using fill_frame [of xs "int n"] cap by (simp add: hist_ok_def fill_seen)
  ultimately show ?thesis
    using fill_mset [OF cap, of xs] by (simp add: Let_def fill_seen)
qed

theorem hist_holds_witness:
  "mset (hist_samples (fold hist_add [10, 20, 30, 40] (newLatencyHist 3))) = {#10, 30, 40#}"
  using hist_holds [of 3 "[10, 20, 30, 40]"] by (simp add: Let_def last_n_def)

text \<open>C36: the percentiles of a run are sound: over any non-empty set of samples each one is a sample
  that was recorded, they never decrease as the percentage grows, none exceeds the maximum printed
  after them, and at least the rank's number of samples does not exceed it.\<close>

theorem percentile_sound:
  assumes "hist_samples h \<noteq> []" "0 \<le> p" "p \<le> q"
  shows "percentile (hist_sorted h) p \<in> set (hist_samples h)
    \<and> percentile (hist_sorted h) p \<le> percentile (hist_sorted h) q
    \<and> percentile (hist_sorted h) q \<le> last (hist_sorted h)
    \<and> blast_rank p (length (hist_samples h))
        < length (filter (\<lambda>d. d \<le> percentile (hist_sorted h) p) (hist_samples h))"
proof -
  have "hist_sorted h \<noteq> []" using assms(1) by (metis hist_sorted_def length_0_conv length_sort)
  then have "percentile (hist_sorted h) r = sort (hist_samples h) ! blast_rank r (length (hist_samples h))" for r
    by (simp add: percentile_def hist_sorted_def)
  then show ?thesis
    using blast_pct.in_samples [OF assms(1,2)] blast_pct.monotone [OF assms]
      blast_pct.below_max [OF assms(1), of q] blast_pct.at_least_rank [OF assms(1,2)] assms(2,3)
    by (simp add: hist_sorted_def)
qed

theorem percentile_sound_witness:
  "percentile (hist_sorted (fold hist_add [30, 10, 20, 40] (newLatencyHist 8))) 50 = 30
   \<and> percentile (hist_sorted (fold hist_add [30, 10, 20, 40] (newLatencyHist 8))) 50
     \<le> percentile (hist_sorted (fold hist_add [30, 10, 20, 40] (newLatencyHist 8))) 99"
proof -
  define hh where "hh = fold hist_add [30, 10, 20, 40] (newLatencyHist 8)"
  have h: "hist_samples hh = [30, 10, 20, 40]"
    unfolding hh_def using ring.fold_fits [OF hist_ok_new [of 8], of "[30, 10, 20, 40]"]
    by (simp add: newLatencyHist_def)
  have "percentile (hist_sorted hh) 50 = 30"
    by (simp add: hist_sorted_def h percentile_def blast_rank_def)
  then show ?thesis
    using percentile_sound [of hh 50 99] unfolding hh_def [symmetric] by (simp add: h)
qed

end
