(* ===== verification/Blast_Recorder.thy ===== *)
theory Blast_Recorder
  imports Blast_Config Blast_Hist Quicerr Go_Json
begin

text \<open>
  The accounting of a load run in \<^verbatim>\<open>internal/blast/blast.go\<close>: the recorder and its operations, one
  request from the URL to the recorded result, the life of a connection, the verdict and the exit
  gate. A Go map that is only ever incremented (\<open>m[k]++\<close>) is a multiset: its count at \<open>k\<close> is the map's
  value, 0 for a missing key. \<open>recorder_step\<close> is any interleaving of the recorder's operations and
  \<open>recorder_inv\<close> the bookkeeping that all of them keep.
\<close>

section \<open>Events\<close>

record event =
  ev_Event :: string
  ev_Conn :: int
  ev_Worker :: int
  ev_URL :: string
  ev_Status :: int
  ev_Bytes :: int
  ev_LatencyMs :: int
  ev_Kind :: string
  ev_Detail :: string
  ev_Local :: string
  ev_Remote :: string
  ev_Version :: string
  ev_Used0RTT :: bool

definition no_event :: event where
  "no_event = \<lparr>ev_Event = '''', ev_Conn = 0, ev_Worker = 0, ev_URL = '''', ev_Status = 0, ev_Bytes = 0,
     ev_LatencyMs = 0, ev_Kind = '''', ev_Detail = '''', ev_Local = '''', ev_Remote = '''',
     ev_Version = '''', ev_Used0RTT = False\<rparr>"

definition str_member :: "string \<Rightarrow> string \<Rightarrow> (string \<times> jenc) list" where
  "str_member k s = (if s = '''' then [] else [(k, EStr s)])"

definition int_member :: "string \<Rightarrow> int \<Rightarrow> (string \<times> jenc) list" where
  "int_member k i = (if i = 0 then [] else [(k, EInt i)])"

definition event_members :: "string \<Rightarrow> event \<Rightarrow> (string \<times> jenc) list" where
  \<comment> \<open>the struct tags: all but time, event and conn are left out where they are empty\<close>
  "event_members tm e = [(''time'', EStr tm), (''event'', EStr (ev_Event e)), (''conn'', EInt (ev_Conn e))]
     @ int_member ''worker'' (ev_Worker e) @ str_member ''url'' (ev_URL e)
     @ int_member ''status'' (ev_Status e) @ int_member ''bytes'' (ev_Bytes e)
     @ int_member ''latency_ms'' (ev_LatencyMs e) @ str_member ''kind'' (ev_Kind e)
     @ str_member ''detail'' (ev_Detail e) @ str_member ''local_addr'' (ev_Local e)
     @ str_member ''remote_addr'' (ev_Remote e) @ str_member ''quic_version'' (ev_Version e)
     @ (if ev_Used0RTT e then [(''used_0rtt'', EBool True)] else [])"

definition event_line :: "string \<Rightarrow> event \<Rightarrow> string" where
  \<comment> \<open>what the encoder writes, with the formatted time as an argument, without the newline\<close>
  "event_line tm e = marshal_object (event_members tm e)"

section \<open>The recorder\<close>

record recorder =
  rec_lat :: latencyHist
  rec_status :: "int multiset"
  rec_kinds :: "string multiset"
  rec_protos :: "string multiset"
  rec_cfCodes :: "int multiset"
  rec_connDrops :: nat
  rec_requests :: int
  rec_failures :: int
  rec_abandoned :: int
  rec_omitted :: int
  rec_offered :: int
  rec_bytes :: int
  rec_out :: "event list" \<comment> \<open>the events encoded so far\<close>

definition newRecorder :: recorder where
  "newRecorder = \<lparr>rec_lat = newLatencyHist 200000, rec_status = {#}, rec_kinds = {#}, rec_protos = {#},
     rec_cfCodes = {#}, rec_connDrops = 0, rec_requests = 0, rec_failures = 0, rec_abandoned = 0,
     rec_omitted = 0, rec_offered = 0, rec_bytes = 0, rec_out = []\<rparr>"

definition emit :: "event \<Rightarrow> recorder \<Rightarrow> recorder" where
  "emit e r = r\<lparr>rec_out := rec_out r @ [e]\<rparr>"

definition rec_success :: "event \<Rightarrow> duration \<Rightarrow> recorder \<Rightarrow> recorder" where
  "rec_success e d r = r\<lparr>rec_requests := rec_requests r + 1, rec_bytes := rec_bytes r + ev_Bytes e,
     rec_lat := hist_add d (rec_lat r), rec_status := add_mset (ev_Status e) (rec_status r)\<rparr>"

definition resetRequestStats :: "recorder \<Rightarrow> recorder" where
  "resetRequestStats r = newRecorder\<lparr>rec_out := rec_out r\<rparr>"

definition rec_failure :: "event \<Rightarrow> recorder \<Rightarrow> recorder" where
  "rec_failure e r = emit e (r\<lparr>rec_requests := rec_requests r + 1, rec_failures := rec_failures r + 1,
     rec_kinds := add_mset (ev_Kind e) (rec_kinds r),
     rec_status := (if ev_Status e \<noteq> 0 then add_mset (ev_Status e) (rec_status r) else rec_status r)\<rparr>)"

definition recordProto :: "string \<Rightarrow> recorder \<Rightarrow> recorder" where
  "recordProto p r = r\<lparr>rec_protos := add_mset p (rec_protos r)\<rparr>"

definition recordCFCode :: "int \<Rightarrow> recorder \<Rightarrow> recorder" where
  "recordCFCode c r = r\<lparr>rec_cfCodes := add_mset c (rec_cfCodes r)\<rparr>"

definition rec_abandon :: "recorder \<Rightarrow> recorder" where
  "rec_abandon r = r\<lparr>rec_abandoned := rec_abandoned r + 1\<rparr>"

section \<open>One request\<close>

definition parseCFCode :: "string \<Rightarrow> int" where
  "parseCFCode snippet = (case find_digits_after ''error code: '' snippet of None \<Rightarrow> 0
     | Some d \<Rightarrow> fst (parse_int64 d))"

record http_response =
  hp_status :: int
  hp_proto :: string
  hp_header :: http_header
  hp_body :: string
  hp_copied :: nat \<comment> \<open>the bytes \<open>io.Copy\<close> got through\<close>
  hp_copy_err :: "goerr option"

definition drainErrorBody :: "http_response \<Rightarrow> int \<times> int \<times> goerr option" where
  "drainErrorBody resp = (let snippet = take 2048 (hp_body resp) in
     (int (length snippet), parseCFCode snippet, hp_copy_err resp))"

definition drainResponse :: "http_response \<Rightarrow> bool \<Rightarrow> int \<times> int \<times> goerr option" where
  "drainResponse resp readBody =
     (if 500 \<le> hp_status resp then drainErrorBody resp
      else if readBody then (int (hp_copied resp), 0, hp_copy_err resp) else (0, 0, None))"

definition recordDialError :: "ctx_err \<Rightarrow> goerr \<Rightarrow> int \<Rightarrow> int \<Rightarrow> string \<Rightarrow> duration \<Rightarrow> recorder \<Rightarrow> recorder" where
  "recordDialError ctx err connIdx workerIdx url elapsed r =
     (if ctx \<noteq> None then rec_abandon r
      else case Classify (Some err) of (kind, detail) \<Rightarrow>
        rec_failure (no_event\<lparr>ev_Event := ''request_failed'', ev_Conn := connIdx, ev_Worker := workerIdx,
          ev_URL := url, ev_Kind := kind_string kind, ev_Detail := detail,
          ev_LatencyMs := milliseconds elapsed\<rparr>) r)"

record httpResult =
  hx_err :: "goerr option"
  hx_cfCode :: int
  hx_elapsed :: duration
  hx_ray :: string
  hx_event :: event

definition recordHTTPResult :: "ctx_err \<Rightarrow> httpResult \<Rightarrow> recorder \<Rightarrow> recorder" where
  "recordHTTPResult ctx res r =
     (let e = hx_event res in
      case hx_err res of
        Some err \<Rightarrow>
          if ctx \<noteq> None then rec_abandon r
          else (case Classify (Some err) of (kind, detail) \<Rightarrow>
            rec_failure (e\<lparr>ev_Event := ''body_truncated'', ev_Kind := kind_string kind, ev_Detail := detail\<rparr>) r)
      | None \<Rightarrow>
          if 500 \<le> ev_Status e
          then rec_failure (e\<lparr>ev_Event := ''request_5xx'', ev_Kind := ''http_'' @ itoa (ev_Status e),
                 ev_Detail := ''cf_error_code='' @ itoa (hx_cfCode res) @ '' cf_ray='' @ hx_ray res\<rparr>)
               (if hx_cfCode res \<noteq> 0 then recordCFCode (hx_cfCode res) r else r)
          else rec_success (e\<lparr>ev_Event := ''request''\<rparr>) (hx_elapsed res) r)"

record request_env =
  re_check :: "string \<Rightarrow> string \<Rightarrow> goerr option" \<comment> \<open>\<open>http.NewRequestWithContext\<close>\<close>
  re_do :: "http_request \<Rightarrow> goerr + http_response" \<comment> \<open>\<open>client.Do\<close>\<close>
  re_ctx :: ctx_err \<comment> \<open>the run's context when the result is recorded\<close>
  re_elapsed :: duration

definition doRequest :: "request_env \<Rightarrow> int \<Rightarrow> int \<Rightarrow> reqSpec \<Rightarrow> recorder \<Rightarrow> recorder \<times> reqSpec" where
  "doRequest env connIdx workerIdx sp r =
     (case nextURL sp of (target, sp') \<Rightarrow>
       (case newRequest (re_check env) sp target of
          Inl _ \<Rightarrow> (r, sp')
        | Inr req \<Rightarrow>
           (case re_do env req of
              Inl err \<Rightarrow> (recordDialError (re_ctx env) err connIdx workerIdx target (re_elapsed env) r, sp')
            | Inr resp \<Rightarrow>
               (case drainResponse resp (rs_readBody sp) of (n, cfCode, err) \<Rightarrow>
                 (recordHTTPResult (re_ctx env) \<lparr>hx_err = err, hx_cfCode = cfCode, hx_elapsed = re_elapsed env,
                    hx_ray = header_get (hp_header resp) ''cf-ray'',
                    hx_event = no_event\<lparr>ev_Conn := connIdx, ev_Worker := workerIdx, ev_URL := target,
                      ev_Status := hp_status resp, ev_Bytes := n, ev_LatencyMs := milliseconds (re_elapsed env)\<rparr>\<rparr>
                    (recordProto (hp_proto resp) r), sp')))))"

section \<open>One connection\<close>

record dial_env =
  de_sock :: sock_env
  de_resolve :: "string \<Rightarrow> goerr option"
  de_dial :: "goerr option" \<comment> \<open>\<open>tr.DialEarly\<close>\<close>
  de_version :: nat
  de_used0RTT :: bool
  de_local :: string
  de_remote :: string

definition dial_conn :: "dial_env \<Rightarrow> int \<Rightarrow> int \<Rightarrow> string \<Rightarrow> recorder \<Rightarrow> (goerr option \<times> sock_call list) \<times> recorder" where
  \<comment> \<open>the \<open>Dial\<close> function of \<open>makeTransports\<close> up to the return of the connection\<close>
  "dial_conn env recvBuf idx addr r =
     (case Listen (de_sock env) '':0'' recvBuf 0 of
        (Some e, calls) \<Rightarrow> ((Some e, calls), r)
      | (None, calls) \<Rightarrow>
         (case de_resolve env addr of Some e \<Rightarrow> ((Some e, calls @ [CloseSock]), r)
          | None \<Rightarrow>
           (case de_dial env of
              Some e \<Rightarrow> ((Some e, calls @ [CloseSock]),
                emit (no_event\<lparr>ev_Event := ''conn_dial_failed'', ev_Conn := idx,
                  ev_Kind := kind_string (fst (Classify (Some e))), ev_Detail := snd (Classify (Some e))\<rparr>) r)
            | None \<Rightarrow> ((None, calls),
                emit (no_event\<lparr>ev_Event := ''conn_open'', ev_Conn := idx, ev_Local := de_local env,
                  ev_Remote := de_remote env, ev_Version := ''0x'' @ nat_hex (de_version env),
                  ev_Used0RTT := de_used0RTT env\<rparr>) r))))"

type_synonym dial_fn = "dial_env \<Rightarrow> string \<Rightarrow> recorder \<Rightarrow> (goerr option \<times> sock_call list) \<times> recorder"

definition makeTransports :: "blast_config \<Rightarrow> dial_fn list" where
  \<comment> \<open>the \<open>Dial\<close> functions of the transports, one per connection, each with its own index\<close>
  "makeTransports cfg = map (\<lambda>idx env addr r. dial_conn env (bc_recvBuf cfg) (int idx) addr r) [0..<nat (bc_conns cfg)]"

record conn_stats =
  cs_PacketsSent :: nat
  cs_PacketsLost :: nat
  cs_BytesLost :: nat
  cs_SmoothedRTT :: duration

definition conn_closed :: "goerr option \<Rightarrow> conn_stats \<Rightarrow> int \<Rightarrow> string \<Rightarrow> string \<Rightarrow> recorder \<Rightarrow> recorder \<times> sock_call list" where
  \<comment> \<open>the goroutine that waits for the connection's end; the argument is the cause of its context\<close>
  "conn_closed cause st idx localAddr remoteAddr r =
     (case CloseReason cause of (kind, detail) \<Rightarrow>
       (emit (no_event\<lparr>ev_Event := ''conn_closed'', ev_Conn := idx, ev_Kind := kind_string kind,
          ev_Detail := detail @ '' | packets_sent='' @ nat_digits (cs_PacketsSent st) @ '' packets_lost=''
            @ nat_digits (cs_PacketsLost st) @ '' bytes_lost='' @ nat_digits (cs_BytesLost st)
            @ '' smoothed_rtt='' @ duration_string (cs_SmoothedRTT st),
          ev_Local := localAddr, ev_Remote := remoteAddr\<rparr>)
        (r\<lparr>rec_connDrops := Suc (rec_connDrops r),
           rec_kinds := add_mset (''conn_closed:'' @ kind_string kind) (rec_kinds r)\<rparr>), [CloseSock]))"

section \<open>The verdict\<close>

datatype verdict_error = FailureRate rat rat | TooManyDrops nat int

definition verdict :: "rat \<Rightarrow> int \<Rightarrow> recorder \<Rightarrow> verdict_error option" where
  "verdict maxFailPct maxDrops r =
     (let total = rec_requests r; fails = rec_failures r; pct = 100 * of_int fails / of_int total in
      if 0 \<le> maxFailPct \<and> 0 < total \<and> pct > maxFailPct then Some (FailureRate pct maxFailPct)
      else if 0 \<le> maxDrops \<and> int (rec_connDrops r) > maxDrops
        then Some (TooManyDrops (rec_connDrops r) maxDrops)
      else None)"

fun cfMeaning :: "int \<Rightarrow> string" where
  "cfMeaning code =
     (if code = 520 then ''origin returned an unknown/empty response''
      else if code = 521 then ''origin refused the connection (is it up? firewalled?)''
      else if code = 522 then ''connection to origin timed out''
      else if code = 523 then ''origin unreachable (DNS / routing)''
      else if code = 524 then ''origin connected but did not respond in time''
      else if code = 525 \<or> code = 526 then ''TLS handshake with origin failed''
      else if code = 1033 then ''tunnel not found / no connector registered''
      else if code = 1014 then ''CNAME cross-user banned''
      else '''')"


section \<open>Runs of the recorder\<close>

inductive recorder_step :: "recorder \<Rightarrow> recorder \<Rightarrow> bool" where
  request: "recorder_step r (fst (doRequest env connIdx workerIdx sp r))"
| dial: "recorder_step r (snd (dial_conn denv recvBuf idx addr r))"
| closed: "recorder_step r (fst (conn_closed cause st idx localAddr remoteAddr r))"
| reset: "recorder_step r (resetRequestStats r)"
| offer: "recorder_step r (r\<lparr>rec_offered := rec_offered r + 1\<rparr>)"
| omit: "recorder_step r (r\<lparr>rec_omitted := rec_omitted r + 1\<rparr>)"

inductive_cases recorder_stepE: "recorder_step r r'"

definition recorder_inv :: "recorder \<Rightarrow> bool" where
  "recorder_inv r \<longleftrightarrow> hist_ok (rec_lat r) \<and> 0 \<le> rec_failures r \<and>
     rec_requests r = rec_failures r + int (hist_seen (rec_lat r)) \<and>
     int (size (rec_kinds r)) = rec_failures r + int (rec_connDrops r) \<and>
     hist_seen (rec_lat r) \<le> size (rec_status r) \<and> int (size (rec_status r)) \<le> rec_requests r \<and>
     int (size (rec_cfCodes r)) \<le> rec_failures r \<and> ''none'' \<notin># rec_kinds r"

lemma hist_add_frame: "hist_seen (hist_add d h) = Suc (hist_seen h)"
  by (simp add: hist_add_def Let_def)

lemma kind_not_none: "kind_string (fst (Classify (Some e))) \<noteq> ''none''"
  using Classify_Some_not_none [of e] kind_string_inj [of _ KindNone] by auto

lemma inv_success: "recorder_inv r \<Longrightarrow> recorder_inv (rec_success e d r)"
  by (auto simp: recorder_inv_def rec_success_def hist_add_frame ring.add_ok)

lemma inv_failure: "recorder_inv r \<Longrightarrow> ev_Kind e \<noteq> ''none'' \<Longrightarrow> recorder_inv (rec_failure e r)"
  by (auto simp: recorder_inv_def rec_failure_def emit_def)

lemma inv_failure_cf:
  "recorder_inv r \<Longrightarrow> ev_Kind e \<noteq> ''none'' \<Longrightarrow> recorder_inv (rec_failure e (recordCFCode c r))"
  by (auto simp: recorder_inv_def rec_failure_def emit_def recordCFCode_def)

lemma inv_quiet:
  "recorder_inv r \<Longrightarrow> recorder_inv (rec_abandon r)" "recorder_inv r \<Longrightarrow> recorder_inv (recordProto p r)"
  "recorder_inv r \<Longrightarrow> recorder_inv (emit e r)"
  by (simp_all add: recorder_inv_def rec_abandon_def recordProto_def emit_def)

lemma inv_result: "recorder_inv r \<Longrightarrow> recorder_inv (recordHTTPResult ctx res r)"
  using kind_not_none
  by (auto simp: recordHTTPResult_def Let_def split: option.split prod.split
      intro!: inv_quiet inv_failure inv_failure_cf inv_success) (metis fst_conv)+

lemma inv_dial_error: "recorder_inv r \<Longrightarrow> recorder_inv (recordDialError ctx err c w u d r)"
  using kind_not_none [of err]
  by (auto simp: recordDialError_def split: prod.split intro!: inv_quiet inv_failure)

lemma inv_request: "recorder_inv r \<Longrightarrow> recorder_inv (fst (doRequest env c w sp r))"
  by (auto simp: doRequest_def split: prod.split sum.split intro!: inv_result inv_dial_error inv_quiet)

lemma inv_closed: "recorder_inv r \<Longrightarrow> recorder_inv (fst (conn_closed cause st i l m r))"
  by (auto simp: conn_closed_def recorder_inv_def emit_def split: prod.split)

lemma inv_dial: "recorder_inv r \<Longrightarrow> recorder_inv (snd (dial_conn env b i a r))"
  by (auto simp: dial_conn_def split: prod.split option.split intro!: inv_quiet)

lemma inv_new: "recorder_inv newRecorder" "recorder_inv (resetRequestStats r)"
  using hist_ok_new [of 200000] by (simp_all add: recorder_inv_def newRecorder_def resetRequestStats_def newLatencyHist_def)

lemma recorder_inv_step: "recorder_inv r \<Longrightarrow> recorder_step r r' \<Longrightarrow> recorder_inv r'"
  by (erule recorder_stepE)
    (auto intro: inv_request inv_dial inv_closed inv_new(2), auto simp: recorder_inv_def)

interpretation rec_sys: transition_system "\<lambda>r. r = newRecorder" recorder_step recorder_inv
  by unfold_locales (auto intro: inv_new(1) recorder_inv_step)

definition accounted :: "ctx_err \<Rightarrow> recorder \<Rightarrow> recorder \<Rightarrow> bool" where
  \<comment> \<open>one success, one failure, or abandoned\<close>
  "accounted ctx r r' \<longleftrightarrow>
    (rec_requests r' = rec_requests r + 1 \<and> rec_failures r' = rec_failures r \<and>
       hist_seen (rec_lat r') = Suc (hist_seen (rec_lat r)) \<and> rec_abandoned r' = rec_abandoned r \<and>
       rec_kinds r' = rec_kinds r \<and> rec_out r' = rec_out r) \<or>
    (\<exists>e. rec_requests r' = rec_requests r + 1 \<and> rec_failures r' = rec_failures r + 1 \<and>
       rec_lat r' = rec_lat r \<and> rec_abandoned r' = rec_abandoned r \<and>
       rec_kinds r' = add_mset (ev_Kind e) (rec_kinds r) \<and> rec_out r' = rec_out r @ [e]) \<or>
    (ctx \<noteq> None \<and> rec_abandoned r' = rec_abandoned r + 1 \<and> rec_requests r' = rec_requests r \<and>
       rec_failures r' = rec_failures r \<and> rec_kinds r' = rec_kinds r \<and> rec_out r' = rec_out r)"

lemma accounted_failure: "accounted ctx r (rec_failure e r)"
  unfolding accounted_def
  by (rule disjI2, rule disjI1, rule exI [of _ e]) (simp add: rec_failure_def emit_def)

lemma accounted_failure_cf: "accounted ctx r (rec_failure e (recordCFCode c r))"
  unfolding accounted_def
  by (rule disjI2, rule disjI1, rule exI [of _ e]) (simp add: rec_failure_def emit_def recordCFCode_def)

lemma accounted_success: "accounted ctx r (rec_success e d r)"
  by (simp add: accounted_def rec_success_def hist_add_frame)

lemma accounted_abandon: "ctx \<noteq> None \<Longrightarrow> accounted ctx r (rec_abandon r)"
  by (simp add: accounted_def rec_abandon_def)

lemmas accounted_intros = accounted_failure accounted_failure_cf accounted_success accounted_abandon

lemma accounted_proto: "accounted ctx (recordProto p r) r' \<Longrightarrow> accounted ctx r r'"
  by (simp add: accounted_def recordProto_def)

lemma accounted_result: "accounted ctx r (recordHTTPResult ctx res (recordProto p r))"
  by (rule accounted_proto [of _ p])
    (auto simp: recordHTTPResult_def Let_def split: option.split prod.split intro: accounted_intros)

lemma accounted_dial_error: "accounted ctx r (recordDialError ctx err c w u d r)"
  by (auto simp: recordDialError_def split: prod.split intro: accounted_intros)

lemma doRequest_accounted:
  assumes "doRequest env c w sp r = (r', sp')"
  shows "(\<exists>e. newRequest (re_check env) sp (fst (nextURL sp)) = Inl e \<and> r' = r) \<or> accounted (re_ctx env) r r'"
proof (cases "newRequest (re_check env) sp (fst (nextURL sp))")
  case (Inl e)
  then show ?thesis using assms by (auto simp: doRequest_def split: prod.splits)
next
  case (Inr req)
  show ?thesis
  proof (cases "re_do env req")
    case err: (Inl err)
    then show ?thesis
      using assms Inr accounted_dial_error [of "re_ctx env" r err]
      by (auto simp: doRequest_def split: prod.splits)
  next
    case resp: (Inr resp)
    then show ?thesis
      using assms Inr accounted_result by (auto simp: doRequest_def split: prod.splits)
  qed
qed

lemma accounted_delta: "accounted ctx r r' \<Longrightarrow> rec_requests r \<le> rec_requests r' \<and> rec_requests r' \<le> rec_requests r + 1"
  unfolding accounted_def by (elim disjE exE conjE) linarith+

lemma doRequest_delta:
  "doRequest env c w sp r = (r', sp') \<Longrightarrow> rec_requests r \<le> rec_requests r' \<and> rec_requests r' \<le> rec_requests r + 1"
  using doRequest_accounted [of env c w sp r r' sp'] accounted_delta by fastforce

section \<open>Properties\<close>


text \<open>C22: every request is accounted for exactly once: it counts as one success with its latency, as one
  failure with its reason and an event, or as abandoned when the run ended under it; only where no
  request could be built from the method and the URL is nothing recorded at all.\<close>

theorem request_accounted:
  assumes "doRequest env c w sp r = (r', sp')"
  shows "(\<exists>e. newRequest (re_check env) sp (fst (nextURL sp)) = Inl e \<and> r' = r) \<or>
    (rec_requests r' = rec_requests r + 1 \<and> rec_failures r' = rec_failures r \<and>
       hist_seen (rec_lat r') = Suc (hist_seen (rec_lat r)) \<and> rec_abandoned r' = rec_abandoned r \<and>
       rec_kinds r' = rec_kinds r \<and> rec_out r' = rec_out r) \<or>
    (\<exists>e. rec_requests r' = rec_requests r + 1 \<and> rec_failures r' = rec_failures r + 1 \<and>
       rec_lat r' = rec_lat r \<and> rec_abandoned r' = rec_abandoned r \<and>
       rec_kinds r' = add_mset (ev_Kind e) (rec_kinds r) \<and> rec_out r' = rec_out r @ [e]) \<or>
    (re_ctx env \<noteq> None \<and> rec_abandoned r' = rec_abandoned r + 1 \<and> rec_requests r' = rec_requests r \<and>
       rec_failures r' = rec_failures r \<and> rec_kinds r' = rec_kinds r \<and> rec_out r' = rec_out r)"
  using doRequest_accounted [OF assms] unfolding accounted_def by blast

text \<open>The gate is exact: a run passes precisely when the failure rate does not exceed a set bound
  (compared without division, so an empty run passes) and the connection drops do not exceed a set
  bound; a bound below zero switches its check off.\<close>

lemma verdict_exact:
  "verdict maxFailPct maxDrops r = None \<longleftrightarrow>
     (maxFailPct < 0 \<or> rec_requests r \<le> 0 \<or>
        100 * of_int (rec_failures r) \<le> maxFailPct * of_int (rec_requests r)) \<and>
     (maxDrops < 0 \<or> int (rec_connDrops r) \<le> maxDrops)"
proof -
  have "100 * of_int (rec_failures r) / of_int (rec_requests r) > maxFailPct \<longleftrightarrow>
      \<not> 100 * of_int (rec_failures r) \<le> maxFailPct * of_int (rec_requests r)" if "0 < rec_requests r"
    using that by (simp add: less_divide_eq not_le)
  then show ?thesis
    by (cases "0 < rec_requests r") (auto simp: verdict_def Let_def not_less not_le)
qed

text \<open>A failed dial leaves no socket behind and a connection is counted once: the socket opened for a
  connection is closed exactly when the dial returns an error, and otherwise when the connection ends,
  which adds one drop and one reason and nothing to the request counts.\<close>

lemma dial_socket_closed:
  assumes "env_resolve (de_sock env) '':0'' = None" "env_listen (de_sock env) '':0'' = None"
  shows "count_list (snd (fst (dial_conn env recvBuf idx addr r))) CloseSock
      = (if fst (fst (dial_conn env recvBuf idx addr r)) = None then 0 else 1)
    \<and> snd (conn_closed cause st idx l m r) = [CloseSock]
    \<and> rec_connDrops (fst (conn_closed cause st idx l m r)) = Suc (rec_connDrops r)
    \<and> rec_requests (fst (conn_closed cause st idx l m r)) = rec_requests r"
  using assms
  by (auto simp: dial_conn_def listen_defs conn_closed_def emit_def split: prod.splits option.splits)

section \<open>A concrete run\<close>

definition demo_env :: request_env where
  "demo_env = \<lparr>re_check = (\<lambda>_ _. None),
     re_do = (\<lambda>_. Inr \<lparr>hp_status = 524, hp_proto = ''HTTP/3.0'', hp_header = (\<lambda>_. []),
       hp_body = ''error code: 524'', hp_copied = 0, hp_copy_err = None\<rparr>),
     re_ctx = None, re_elapsed = 12 * millisecond\<rparr>"

definition demo_spec :: reqSpec where
  "demo_spec = spec (parseConfig_defaults\<lparr>bc_targets := [''https://edge:8443/fast'']\<rparr>)"

definition demo_rec :: recorder where
  "demo_rec = fst (doRequest demo_env 0 0 demo_spec newRecorder)"

lemma demo_rec_values:
  "rec_requests demo_rec = 1" "rec_failures demo_rec = 1" "rec_connDrops demo_rec = 0" "rec_abandoned demo_rec = 0"
  by (simp_all add: demo_rec_def doRequest_def demo_env_def demo_spec_def spec_def nextURL_def newRequest_def
      parseConfig_defaults_def drainResponse_def drainErrorBody_def Let_def recordHTTPResult_def
      rec_failure_def emit_def recordCFCode_def recordProto_def newRecorder_def no_event_def)


theorem request_accounted_witness: "\<exists>e. rec_out demo_rec = [e]"
proof -
  obtain sp' where "doRequest demo_env 0 0 demo_spec newRecorder = (demo_rec, sp')"
    by (cases "doRequest demo_env 0 0 demo_spec newRecorder") (simp add: demo_rec_def)
  from request_accounted [OF this] show ?thesis
    by (auto simp: demo_rec_values newRecorder_def newRequest_def demo_env_def)
qed

end
