(* ===== verification/Blast_Load.thy ===== *)
theory Blast_Load
  imports Blast_Recorder
begin

text \<open>
  \<^verbatim>\<open>internal/blast/load.go\<close>, the loops that drive the requests: the token pacer, the closed loop with
  its workers and the open loop with its bound on requests in flight, and the progress lines of
  \<^verbatim>\<open>internal/blast/blast.go\<close>. The goroutines of both loops are interleaved freely: a step of
  \<open>closed_step\<close> or \<open>open_step\<close> is one access to the shared counters by one of them.
\<close>

section \<open>The pacer\<close>

record tokenPacer =
  tp_interval :: duration
  tp_next :: gotime

definition newTokenPacer :: "rat \<Rightarrow> tokenPacer option" where
  \<comment> \<open>the conversion to a duration truncates\<close>
  "newTokenPacer rps = (if rps \<le> 0 then None
     else Some \<lparr>tp_interval = \<lfloor>of_int second / rps\<rfloor>, tp_next = None\<rparr>)"

definition pacer_wait :: "tokenPacer \<Rightarrow> int \<Rightarrow> int \<times> tokenPacer" where
  \<comment> \<open>the time at which the caller that arrives at \<open>now\<close> may start, unless the context ends before it\<close>
  "pacer_wait p now =
     (case tp_next p of
        None \<Rightarrow> (now, p\<lparr>tp_next := Some (now + tp_interval p)\<rparr>)
      | Some nx \<Rightarrow>
          if \<not> nx > now then (now, p\<lparr>tp_next := Some (now + tp_interval p)\<rparr>)
          else (nx, p\<lparr>tp_next := Some (nx + tp_interval p)\<rparr>))"

primrec pacer_grants :: "int list \<Rightarrow> tokenPacer \<Rightarrow> int list" where
  \<comment> \<open>the starts of the callers that arrive, one after the other under the lock, at these times\<close>
  "pacer_grants [] p = []"
| "pacer_grants (now # nows) p = fst (pacer_wait p now) # pacer_grants nows (snd (pacer_wait p now))"

lemma pacer_wait_simps:
  "tp_interval (snd (pacer_wait p now)) = tp_interval p"
  "tp_next (snd (pacer_wait p now)) = Some (fst (pacer_wait p now) + tp_interval p)"
  "now \<le> fst (pacer_wait p now)"
  "tp_next p = Some nx \<Longrightarrow> nx \<le> fst (pacer_wait p now)"
  by (auto simp: pacer_wait_def split: option.split)

lemma pacer_grants_from:
  assumes "tp_next p = Some nx" "0 \<le> tp_interval p" "k < length nows"
  shows "nx + int k * tp_interval p \<le> pacer_grants nows p ! k"
  using assms
proof (induction nows arbitrary: p nx k)
  case (Cons now nows)
  show ?case
  proof (cases k)
    case 0
    then show ?thesis using pacer_wait_simps(4) [OF Cons.prems(1)] by simp
  next
    case (Suc j)
    let ?q = "snd (pacer_wait p now)"
    have "(fst (pacer_wait p now) + tp_interval p) + int j * tp_interval ?q \<le> pacer_grants nows ?q ! j"
      using Cons.prems Suc by (intro Cons.IH) (auto simp: pacer_wait_simps)
    then show ?thesis
      using pacer_wait_simps(4) [OF Cons.prems(1), of now] Suc
      by (simp add: pacer_wait_simps(1) algebra_simps)
  qed
qed simp

section \<open>The closed loop\<close>

datatype worker = Checking | Pacing | Working | Stopped

record closed_state =
  cl_rec :: recorder
  cl_spec :: reqSpec
  cl_workers :: "worker list"

definition n_workers :: "blast_config \<Rightarrow> nat" where
  "n_workers cfg = nat (bc_conns cfg) * nat (bc_workers cfg)"

definition closed_start :: "blast_config \<Rightarrow> recorder \<Rightarrow> closed_state" where
  "closed_start cfg r = \<lparr>cl_rec = r, cl_spec = spec cfg,
     cl_workers = replicate (n_workers cfg) Checking\<rparr>"

definition limit_reached :: "blast_config \<Rightarrow> int \<Rightarrow> bool" where
  "limit_reached cfg n \<longleftrightarrow> 0 < bc_requests cfg \<and> bc_requests cfg \<le> n"

inductive closed_step :: "blast_config \<Rightarrow> closed_state \<Rightarrow> closed_state \<Rightarrow> bool" for cfg where
  ctx_done: "i < length (cl_workers s) \<Longrightarrow> cl_workers s ! i = Checking \<Longrightarrow>
    closed_step cfg s (s\<lparr>cl_workers := (cl_workers s)[i := Stopped]\<rparr>)"
| at_limit: "i < length (cl_workers s) \<Longrightarrow> cl_workers s ! i = Checking \<Longrightarrow>
    limit_reached cfg (rec_requests (cl_rec s)) \<Longrightarrow>
    closed_step cfg s (s\<lparr>cl_workers := (cl_workers s)[i := Stopped]\<rparr>)"
| proceed: "i < length (cl_workers s) \<Longrightarrow> cl_workers s ! i = Checking \<Longrightarrow>
    \<not> limit_reached cfg (rec_requests (cl_rec s)) \<Longrightarrow>
    closed_step cfg s (s\<lparr>cl_workers := (cl_workers s)[i := Pacing]\<rparr>)"
| paced: "i < length (cl_workers s) \<Longrightarrow> cl_workers s ! i = Pacing \<Longrightarrow>
    closed_step cfg s (s\<lparr>cl_workers := (cl_workers s)[i := Working]\<rparr>)"
| pace_stopped: "i < length (cl_workers s) \<Longrightarrow> cl_workers s ! i = Pacing \<Longrightarrow>
    closed_step cfg s (s\<lparr>cl_workers := (cl_workers s)[i := Stopped]\<rparr>)"
| finished: "i < length (cl_workers s) \<Longrightarrow> cl_workers s ! i = Working \<Longrightarrow>
    doRequest env (int (i div nat (bc_workers cfg))) (int (i mod nat (bc_workers cfg))) (cl_spec s) (cl_rec s) = (r, sp) \<Longrightarrow>
    closed_step cfg s (s\<lparr>cl_rec := r, cl_spec := sp, cl_workers := (cl_workers s)[i := Checking]\<rparr>)"

definition active :: "worker \<Rightarrow> bool" where
  "active w \<longleftrightarrow> w = Pacing \<or> w = Working"

definition n_active :: "closed_state \<Rightarrow> nat" where
  "n_active s = length (filter active (cl_workers s))"

lemma filter_update:
  assumes "i < length ws"
  shows "int (length (filter P (ws[i := w]))) = int (length (filter P ws))
    - (if P (ws ! i) then 1 else 0) + (if P w then 1 else 0)"
  using assms
proof (induction ws arbitrary: i)
  case (Cons x xs)
  show ?case
  proof (cases i)
    case (Suc j)
    then show ?thesis using Cons.IH [of j] Cons.prems by (simp split: if_splits)
  qed (simp add: Cons)
qed simp

definition closed_inv :: "blast_config \<Rightarrow> closed_state \<Rightarrow> bool" where
  "closed_inv cfg s \<longleftrightarrow> length (cl_workers s) = n_workers cfg \<and>
     (0 < bc_requests cfg \<longrightarrow> rec_requests (cl_rec s) + int (n_active s)
        \<le> bc_requests cfg - 1 + int (n_workers cfg))"

lemma closed_inv_start:
  "rec_requests r = 0 \<Longrightarrow> closed_inv cfg (closed_start cfg r)"
  by (simp add: closed_inv_def closed_start_def n_active_def active_def)

lemma closed_inv_step: "closed_inv cfg s \<Longrightarrow> closed_step cfg s t \<Longrightarrow> closed_inv cfg t"
proof (erule closed_step.cases)
  fix i s' assume inv: "closed_inv cfg s" and st: "s = s'" "t = s'\<lparr>cl_workers := (cl_workers s')[i := Pacing]\<rparr>"
    and i: "i < length (cl_workers s')" and lim: "\<not> limit_reached cfg (rec_requests (cl_rec s'))"
  have "n_active t \<le> length (cl_workers t)" by (simp add: n_active_def)
  then show "closed_inv cfg t" using inv lim by (auto simp: closed_inv_def st limit_reached_def)
next
  fix i s' env r sp
  assume inv: "closed_inv cfg s" and st: "s = s'"
      "t = s'\<lparr>cl_rec := r, cl_spec := sp, cl_workers := (cl_workers s')[i := Checking]\<rparr>"
    and i: "i < length (cl_workers s')" "cl_workers s' ! i = Working"
    and r: "doRequest env (int (i div nat (bc_workers cfg))) (int (i mod nat (bc_workers cfg))) (cl_spec s') (cl_rec s') = (r, sp)"
  have "int (n_active t) = int (n_active s) - 1"
    using filter_update [OF i(1), of active Checking] i(2) by (simp add: n_active_def st active_def)
  then show "closed_inv cfg t" using inv doRequest_delta [OF r] by (auto simp: closed_inv_def st)
qed (auto simp: closed_inv_def n_active_def active_def filter_update)

interpretation closed_sys: transition_system "\<lambda>s. s = closed_start cfg newRecorder" "closed_step cfg" "closed_inv cfg" for cfg
  by unfold_locales (auto intro: closed_inv_step closed_inv_start simp: newRecorder_def)

section \<open>The open loop\<close>

record open_state =
  op_rec :: recorder
  op_spec :: reqSpec
  op_inflight :: "nat list" \<comment> \<open>the connections of the requests in flight\<close>
  op_i :: nat
  op_started :: "nat list" \<comment> \<open>the connections of all requests started, in order\<close>

definition open_start :: "blast_config \<Rightarrow> recorder \<Rightarrow> open_state" where
  "open_start cfg r = \<lparr>op_rec = r, op_spec = spec cfg, op_inflight = [], op_i = 0, op_started = []\<rparr>"

definition open_tick :: "blast_config \<Rightarrow> open_state \<Rightarrow> open_state" where
  \<comment> \<open>one turn of the loop after the pacer and the check of the limit\<close>
  "open_tick cfg s =
     (let r = (op_rec s)\<lparr>rec_offered := rec_offered (op_rec s) + 1\<rparr> in
      if int (length (op_inflight s)) < inflight cfg
      then let c = op_i s mod nat (bc_conns cfg) in
        s\<lparr>op_rec := r, op_i := Suc (op_i s), op_inflight := op_inflight s @ [c], op_started := op_started s @ [c]\<rparr>
      else s\<lparr>op_rec := r\<lparr>rec_omitted := rec_omitted r + 1\<rparr>\<rparr>)"

inductive open_step :: "blast_config \<Rightarrow> open_state \<Rightarrow> open_state \<Rightarrow> bool" for cfg where
  tick: "\<not> limit_reached cfg (rec_offered (op_rec s)) \<Longrightarrow> open_step cfg s (open_tick cfg s)"
| finish: "i < length (op_inflight s) \<Longrightarrow>
    doRequest env (int (op_inflight s ! i)) 0 (op_spec s) (op_rec s) = (r, sp) \<Longrightarrow>
    open_step cfg s (s\<lparr>op_rec := r, op_spec := sp,
      op_inflight := take i (op_inflight s) @ drop (Suc i) (op_inflight s)\<rparr>)"

definition open_inv :: "blast_config \<Rightarrow> open_state \<Rightarrow> bool" where
  "open_inv cfg s \<longleftrightarrow>
     rec_offered (op_rec s) = int (length (op_started s)) + rec_omitted (op_rec s) \<and> 0 \<le> rec_omitted (op_rec s) \<and>
     int (length (op_inflight s)) \<le> inflight cfg \<and>
     (0 < bc_requests cfg \<longrightarrow> rec_offered (op_rec s) \<le> bc_requests cfg) \<and>
     op_started s = map (\<lambda>k. k mod nat (bc_conns cfg)) [0..<op_i s]"

lemma inflight_pos: "0 < inflight cfg"
  by (auto simp: inflight_def Let_def)

lemma doRequest_open_frame:
  "doRequest env c w sp r = (r', sp') \<Longrightarrow> rec_offered r' = rec_offered r \<and> rec_omitted r' = rec_omitted r"
  by (auto simp: doRequest_def recordHTTPResult_def recordDialError_def rec_failure_def rec_success_def
      rec_abandon_def recordProto_def recordCFCode_def emit_def Let_def
      split: prod.splits sum.splits option.splits if_splits)

lemma open_inv_tick:
  assumes "open_inv cfg s" "\<not> limit_reached cfg (rec_offered (op_rec s))"
  shows "open_inv cfg (open_tick cfg s)"
  using assms by (auto simp: open_inv_def open_tick_def Let_def limit_reached_def)

lemma open_inv_step: "open_inv cfg s \<Longrightarrow> open_step cfg s t \<Longrightarrow> open_inv cfg t"
proof (erule open_step.cases)
  fix s' i env r sp
  assume inv: "open_inv cfg s" and st: "s = s'" "t = s'\<lparr>op_rec := r, op_spec := sp,
      op_inflight := take i (op_inflight s') @ drop (Suc i) (op_inflight s')\<rparr>"
    and i: "i < length (op_inflight s')"
    and r: "doRequest env (int (op_inflight s' ! i)) 0 (op_spec s') (op_rec s') = (r, sp)"
  have "length (take i (op_inflight s') @ drop (Suc i) (op_inflight s')) \<le> length (op_inflight s')"
    using i by simp
  then show "open_inv cfg t" using inv doRequest_open_frame [OF r] by (auto simp: open_inv_def st)
qed (auto intro: open_inv_tick)

lemma open_inv_start:
  "rec_offered r = 0 \<Longrightarrow> rec_omitted r = 0 \<Longrightarrow> open_inv cfg (open_start cfg r)"
  using inflight_pos [of cfg] by (simp add: open_inv_def open_start_def)

interpretation open_sys: transition_system "\<lambda>s. s = open_start cfg newRecorder" "open_step cfg" "open_inv cfg" for cfg
  by unfold_locales (auto intro: open_inv_step open_inv_start simp: newRecorder_def)

section \<open>Progress lines\<close>

definition progress_line :: "int \<Rightarrow> int \<Rightarrow> int \<Rightarrow> int \<Rightarrow> int \<Rightarrow> string" where
  "progress_line dReq dFail req fail omitted =
     ''[blast] +'' @ itoa dReq @ '' req  +'' @ itoa dFail @ '' fail  total='' @ itoa req @ '' fail='' @ itoa fail
     @ '' omit='' @ itoa omitted"

definition udp_suffix :: "Counters \<Rightarrow> string" where
  "udp_suffix d = ''  udp_rcvbuf_errors=+'' @ nat_digits (unat (RcvbufErrors d)) @ '' in_errors=+''
     @ nat_digits (unat (InErrors d))"

fun progress_from :: "int \<times> int \<Rightarrow> (Counters \<times> bool) \<Rightarrow> (recorder \<times> string option) list \<Rightarrow> string list" where
  "progress_from prev udp [] = []"
| "progress_from (pr, pf) (prevUDP, hasUDP) ((r, snmp) # ticks) =
     (let cur = fst (ReadCounters snmp);
          line = progress_line (rec_requests r - pr) (rec_failures r - pf) (rec_requests r) (rec_failures r) (rec_omitted r)
      in (if hasUDP then line @ udp_suffix (Sub cur prevUDP) else line)
         # progress_from (rec_requests r, rec_failures r) (if hasUDP then cur else prevUDP, hasUDP) ticks)"

definition progress :: "duration \<Rightarrow> string option \<Rightarrow> (recorder \<times> string option) list \<Rightarrow> string list" where
  \<comment> \<open>the counter file at the start, and the recorder and the file at every tick\<close>
  "progress every snmp ticks = (if every \<le> 0 then [] else progress_from (0, 0) (ReadCounters snmp) ticks)"

definition count_sub :: "int \<times> int \<Rightarrow> int \<times> int \<Rightarrow> int \<times> int" where
  "count_sub c d = (fst c - fst d, snd c - snd d)"

definition count_add :: "int \<times> int \<Rightarrow> int \<times> int \<Rightarrow> int \<times> int" where
  "count_add c d = (fst c + fst d, snd c + snd d)"

interpretation counts: delta_reports count_sub count_add
  by unfold_locales (simp add: count_sub_def count_add_def)

definition totals :: "recorder \<Rightarrow> int \<times> int" where
  "totals r = (rec_requests r, rec_failures r)"

text \<open>
  The progress lines carry the differences of the recorder's totals, which add up to the totals of the
  last line.
\<close>

lemma progress_reports:
  "progress_from prev (udp, False) ticks = map2 (\<lambda>(dReq, dFail) r. progress_line dReq dFail (rec_requests r) (rec_failures r) (rec_omitted r))
     (deltas count_sub prev (map (totals \<circ> fst) ticks)) (map fst ticks)"
  by (induction ticks arbitrary: prev) (auto simp: Let_def count_sub_def totals_def)

lemma progress_totals:
  "foldl count_add (0, 0) (deltas count_sub (0, 0) (map (totals \<circ> fst) ticks)) = last ((0, 0) # map (totals \<circ> fst) ticks)"
  using counts.telescope [of "(0, 0)" "map (totals \<circ> fst) ticks"] by (simp add: count_sub_def)

section \<open>Whole runs\<close>

text \<open>
  A run is any interleaving of the goroutines with the connections' own events until the last of them
  has ended. The request specification is shared by the warm-up and the measured run.
\<close>

inductive conn_event :: "blast_config \<Rightarrow> recorder \<Rightarrow> recorder \<Rightarrow> bool" for cfg where
  conn_dial: "dial \<in> set (makeTransports cfg) \<Longrightarrow> conn_event cfg r (snd (dial denv addr r))"
| conn_end: "conn_event cfg r (fst (conn_closed cause st idx localAddr remoteAddr r))"

definition closed_moves :: "blast_config \<Rightarrow> closed_state \<Rightarrow> closed_state \<Rightarrow> bool" where
  "closed_moves cfg s t \<longleftrightarrow> closed_step cfg s t \<or> (\<exists>r. conn_event cfg (cl_rec s) r \<and> t = s\<lparr>cl_rec := r\<rparr>)"

definition runClosed :: "blast_config \<Rightarrow> recorder \<times> reqSpec \<Rightarrow> recorder \<times> reqSpec \<Rightarrow> bool" where
  "runClosed cfg p q \<longleftrightarrow> (\<exists>t. (closed_moves cfg)\<^sup>*\<^sup>* ((closed_start cfg (fst p))\<lparr>cl_spec := snd p\<rparr>) t \<and>
     set (cl_workers t) \<subseteq> {Stopped} \<and> q = (cl_rec t, cl_spec t))"

definition open_moves :: "blast_config \<Rightarrow> open_state \<Rightarrow> open_state \<Rightarrow> bool" where
  "open_moves cfg s t \<longleftrightarrow> open_step cfg s t \<or> (\<exists>r. conn_event cfg (op_rec s) r \<and> t = s\<lparr>op_rec := r\<rparr>)"

definition runOpen :: "blast_config \<Rightarrow> recorder \<times> reqSpec \<Rightarrow> recorder \<times> reqSpec \<Rightarrow> bool" where
  "runOpen cfg p q \<longleftrightarrow> (\<exists>t. (open_moves cfg)\<^sup>*\<^sup>* ((open_start cfg (fst p))\<lparr>op_spec := snd p\<rparr>) t \<and>
     op_inflight t = [] \<and> q = (op_rec t, op_spec t))"

definition runLoad :: "blast_config \<Rightarrow> recorder \<times> reqSpec \<Rightarrow> recorder \<times> reqSpec \<Rightarrow> bool" where
  "runLoad cfg = (if bc_mode cfg = ''open'' then runOpen cfg else runClosed cfg)"

lemma conn_event_recorder: "conn_event cfg r r' \<Longrightarrow> recorder_step r r'"
  by (auto elim!: conn_event.cases simp: makeTransports_def intro: recorder_step.dial recorder_step.closed)

lemma request_recorder: "doRequest env c w sp r = (r', sp') \<Longrightarrow> recorder_step r r'"
  using recorder_step.request [of r env c w sp] by simp

lemma closed_step_recorder: "closed_step cfg s t \<Longrightarrow> recorder_step\<^sup>*\<^sup>* (cl_rec s) (cl_rec t)"
  by (erule closed_step.cases) (auto intro: r_into_rtranclp request_recorder)

lemma open_step_recorder: "open_step cfg s t \<Longrightarrow> recorder_step\<^sup>*\<^sup>* (op_rec s) (op_rec t)"
proof (erule open_step.cases)
  fix s' assume st: "s = s'" "t = open_tick cfg s'"
  let ?r = "(op_rec s')\<lparr>rec_offered := rec_offered (op_rec s') + 1\<rparr>"
  have "recorder_step (op_rec s') ?r" by (rule recorder_step.offer)
  moreover have "recorder_step ?r (?r\<lparr>rec_omitted := rec_omitted ?r + 1\<rparr>)" by (rule recorder_step.omit)
  moreover have "op_rec t = ?r \<or> op_rec t = ?r\<lparr>rec_omitted := rec_omitted ?r + 1\<rparr>"
    by (simp add: st open_tick_def Let_def)
  ultimately show ?thesis unfolding st(1) by (metis converse_rtranclp_into_rtranclp r_into_rtranclp)
qed (auto intro: r_into_rtranclp request_recorder)

lemma moves_recorder:
  assumes "\<And>s t. step s t \<Longrightarrow> recorder_step\<^sup>*\<^sup>* (rec_of s) (rec_of t)" "step\<^sup>*\<^sup>* s t"
  shows "recorder_step\<^sup>*\<^sup>* (rec_of s) (rec_of t)"
  using assms(2) by (induction rule: rtranclp_induct) (auto dest: assms(1))

lemma runLoad_recorder: "runLoad cfg p q \<Longrightarrow> recorder_step\<^sup>*\<^sup>* (fst p) (fst q)"
proof -
  have c: "recorder_step\<^sup>*\<^sup>* (cl_rec s) (cl_rec t)" if "closed_moves cfg s t" for s t
    using that by (auto simp: closed_moves_def dest: closed_step_recorder conn_event_recorder)
  have o: "recorder_step\<^sup>*\<^sup>* (op_rec s) (op_rec t)" if "open_moves cfg s t" for s t
    using that by (auto simp: open_moves_def dest: open_step_recorder conn_event_recorder)
  assume "runLoad cfg p q"
  then show ?thesis
    using moves_recorder [of "closed_moves cfg" cl_rec, OF c] moves_recorder [of "open_moves cfg" op_rec, OF o]
    by (fastforce simp: runLoad_def runClosed_def runOpen_def closed_start_def open_start_def split: if_splits)
qed

lemma workers_stop:
  "(closed_moves cfg)\<^sup>*\<^sup>* (s\<lparr>cl_workers := replicate k Stopped @ replicate m Checking\<rparr>) (s\<lparr>cl_workers := replicate (k + m) Stopped\<rparr>)"
proof (induction m arbitrary: k)
  case (Suc m)
  let ?s = "s\<lparr>cl_workers := replicate k Stopped @ replicate (Suc m) Checking\<rparr>"
  have "closed_moves cfg ?s (?s\<lparr>cl_workers := (cl_workers ?s)[k := Stopped]\<rparr>)"
    unfolding closed_moves_def by (intro disjI1 closed_step.ctx_done) (simp_all add: nth_append)
  moreover have "?s\<lparr>cl_workers := (cl_workers ?s)[k := Stopped]\<rparr> = s\<lparr>cl_workers := replicate (Suc k) Stopped @ replicate m Checking\<rparr>"
    by (simp add: list_update_append replicate_app_Cons_same)
  ultimately show ?case
    using converse_rtranclp_into_rtranclp [of "closed_moves cfg", OF _ Suc.IH [of "Suc k"]] by simp
qed simp

text \<open>Every load returns once its context is done, even before its first request.\<close>

lemma runLoad_done: "runLoad cfg p p"
proof -
  let ?s = "(closed_start cfg (fst p))\<lparr>cl_spec := snd p\<rparr>"
  have "?s = ?s\<lparr>cl_workers := replicate 0 Stopped @ replicate (n_workers cfg) Checking\<rparr>" by (simp add: closed_start_def)
  then have "(closed_moves cfg)\<^sup>*\<^sup>* ?s (?s\<lparr>cl_workers := replicate (n_workers cfg) Stopped\<rparr>)"
    using workers_stop [of cfg 0 "n_workers cfg" ?s] by simp
  then have "runClosed cfg p p"
    unfolding runClosed_def by (intro exI [of _ "?s\<lparr>cl_workers := replicate (n_workers cfg) Stopped\<rparr>"]) (auto simp: closed_start_def)
  moreover have "runOpen cfg p p"
    unfolding runOpen_def by (intro exI [of _ "(open_start cfg (fst p))\<lparr>op_spec := snd p\<rparr>"]) (simp add: open_start_def)
  ultimately show ?thesis by (simp add: runLoad_def)
qed

section \<open>Termination of the closed loop\<close>

definition counted_step :: "blast_config \<Rightarrow> closed_state \<Rightarrow> closed_state \<Rightarrow> bool" where
  \<comment> \<open>a step in which a request that ends is recorded as a success or a failure\<close>
  "counted_step cfg s t \<longleftrightarrow> closed_step cfg s t \<and> (\<forall>i < length (cl_workers s).
     cl_workers s ! i = Working \<and> cl_workers t ! i = Checking \<longrightarrow> rec_requests (cl_rec t) = rec_requests (cl_rec s) + 1)"

primrec weight :: "worker \<Rightarrow> nat" where
  "weight Checking = 3" | "weight Pacing = 2" | "weight Working = 1" | "weight Stopped = 0"

definition closed_rank :: "blast_config \<Rightarrow> closed_state \<Rightarrow> nat" where
  "closed_rank cfg s = 3 * nat (bc_requests cfg + int (n_workers cfg) - 1 - rec_requests (cl_rec s))
     + sum_list (map weight (cl_workers s))"

lemma weight_update:
  "i < length ws \<Longrightarrow> sum_list (map weight (ws[i := w])) + weight (ws ! i) = sum_list (map weight ws) + weight w"
proof (induction ws arbitrary: i)
  case (Cons x xs)
  then show ?case by (cases i) auto
qed simp

lemma closed_rank_step:
  assumes inv: "closed_inv cfg s" "0 < bc_requests cfg" and step: "counted_step cfg s t"
  shows "closed_rank cfg t < closed_rank cfg s"
proof -
  have step': "closed_step cfg s t" using step by (simp add: counted_step_def)
  have moves: "closed_rank cfg (s\<lparr>cl_workers := (cl_workers s)[i := w]\<rparr>) < closed_rank cfg s"
    if "i < length (cl_workers s)" "weight w < weight (cl_workers s ! i)" for i w
    using weight_update [OF that(1), of w] that(2) by (simp add: closed_rank_def)
  from step' show ?thesis
  proof (cases rule: closed_step.cases)
    case (finished i env r sp)
    have rec: "rec_requests r = rec_requests (cl_rec s) + 1"
      using step finished by (auto simp: counted_step_def)
    have "rec_requests (cl_rec s) + int (n_active s) \<le> bc_requests cfg - 1 + int (n_workers cfg)"
      using inv by (simp add: closed_inv_def)
    moreover have "0 < n_active s"
      using finished(2,3) nth_mem [of i "cl_workers s"] by (auto simp: n_active_def active_def filter_empty_conv)
    ultimately have "rec_requests (cl_rec s) < bc_requests cfg + int (n_workers cfg) - 1" by simp
    then show ?thesis
      using weight_update [OF finished(2), of Checking] finished(3) rec by (simp add: closed_rank_def finished(1))
  qed (auto intro!: moves)
qed

interpretation closed_rank: ranked_system "\<lambda>s. s = closed_start cfg newRecorder \<and> 0 < bc_requests cfg"
  "counted_step cfg" "\<lambda>s. closed_inv cfg s \<and> 0 < bc_requests cfg" "closed_rank cfg" for cfg
  by unfold_locales (auto intro: closed_inv_step closed_inv_start closed_rank_step simp: counted_step_def newRecorder_def)

lemma closed_start_rank:
  "0 < bc_requests cfg \<Longrightarrow> closed_rank cfg (closed_start cfg newRecorder) = 3 * (nat (bc_requests cfg) + 2 * n_workers cfg - 1)"
  by (simp add: closed_rank_def closed_start_def newRecorder_def sum_list_replicate nat_add_distrib nat_diff_distrib')

lemma closed_stuck_iff: "(\<nexists>t. closed_step cfg s t) \<longleftrightarrow> set (cl_workers s) \<subseteq> {Stopped}"
proof
  assume stuck: "\<nexists>t. closed_step cfg s t"
  show "set (cl_workers s) \<subseteq> {Stopped}"
  proof
    fix w assume "w \<in> set (cl_workers s)"
    then obtain i where i: "i < length (cl_workers s)" "cl_workers s ! i = w" by (auto simp: in_set_conv_nth)
    obtain env r sp where d: "doRequest env (int (i div nat (bc_workers cfg))) (int (i mod nat (bc_workers cfg))) (cl_spec s) (cl_rec s) = (r, sp)"
      by (metis surj_pair)
    show "w \<in> {Stopped}"
      using stuck closed_step.ctx_done [OF i(1)] closed_step.pace_stopped [OF i(1)] closed_step.finished [OF i(1) _ d] i(2)
      by (cases w) blast+
  qed
next
  assume "set (cl_workers s) \<subseteq> {Stopped}"
  then show "\<nexists>t. closed_step cfg s t" by (auto elim!: closed_step.cases dest: nth_mem)
qed

section \<open>Properties\<close>

text \<open>The pacer never bursts: however late and however bunched the callers arrive, nobody starts
  before it arrived and the starts of any two callers that are \<open>k\<close> places apart are at least \<open>k\<close>
  intervals apart.\<close>

lemma pacer_spacing:
  assumes "0 \<le> tp_interval p" "i + k < length nows"
  shows "nows ! i \<le> pacer_grants nows p ! i \<and>
    pacer_grants nows p ! i + int k * tp_interval p \<le> pacer_grants nows p ! (i + k)"
  using assms
proof (induction nows arbitrary: p i)
  case (Cons now nows)
  let ?q = "snd (pacer_wait p now)"
  show ?case
  proof (cases i)
    case (Suc j)
    have "nows ! j \<le> pacer_grants nows ?q ! j \<and>
        pacer_grants nows ?q ! j + int k * tp_interval ?q \<le> pacer_grants nows ?q ! (j + k)"
      using Cons.prems Suc by (intro Cons.IH) (auto simp: pacer_wait_simps)
    then show ?thesis using Suc by (simp add: pacer_wait_simps(1))
  next
    case 0
    show ?thesis
    proof (cases k)
      case (Suc m)
      have "(fst (pacer_wait p now) + tp_interval p) + int m * tp_interval ?q \<le> pacer_grants nows ?q ! m"
        using Cons.prems 0 Suc by (intro pacer_grants_from) (auto simp: pacer_wait_simps)
      then show ?thesis
        using 0 Suc pacer_wait_simps(3) [of now p] by (simp add: pacer_wait_simps(1) algebra_simps)
    qed (use 0 pacer_wait_simps(3) [of now p] in simp)
  qed
qed simp

text \<open>So a run is never faster than the \<^verbatim>\<open>-rps\<close> it was given, up to the nanosecond an interval loses in the
  conversion to a duration.\<close>

lemma paced_rate:
  assumes "newTokenPacer rps = Some p" "i + k < length nows"
  shows "of_nat k * (of_int second / rps - 1) \<le> (of_int (pacer_grants nows p ! (i + k) - pacer_grants nows p ! i) :: rat)"
proof -
  have p: "0 < rps" "tp_interval p = \<lfloor>of_int second / rps\<rfloor>"
    using assms(1) by (auto simp: newTokenPacer_def split: if_splits)
  then have "int k * tp_interval p \<le> pacer_grants nows p ! (i + k) - pacer_grants nows p ! i"
    using pacer_spacing [OF _ assms(2), of p] by simp
  then have "of_int (int k * tp_interval p) \<le> (of_int (pacer_grants nows p ! (i + k) - pacer_grants nows p ! i) :: rat)"
    by (simp only: of_int_le_iff)
  moreover have "of_int second / rps - 1 \<le> (of_int (tp_interval p) :: rat)"
    unfolding p(2) by linarith
  then have "of_nat k * (of_int second / rps - 1) \<le> (of_nat k * of_int (tp_interval p) :: rat)"
    by (rule mult_left_mono) simp
  ultimately show ?thesis by simp
qed

text \<open>C32: the request limit of the closed loop can be overshot, but only by the workers that were already
  past the check: in every interleaving the number of recorded requests stays below the limit plus the
  number of workers.\<close>

theorem closed_limit_bound:
  assumes "0 < bc_requests cfg" "(closed_step cfg)\<^sup>*\<^sup>* (closed_start cfg newRecorder) s"
  shows "rec_requests (cl_rec s) \<le> bc_requests cfg + int (n_workers cfg) - 1"
  using closed_sys.inv_reachable [OF refl assms(2)] assms(1) by (auto simp: closed_inv_def)

text \<open>C33: the open loop accounts for every tick: in every interleaving, what was offered is what was
  started plus what was omitted, never more than the limit; there are never more requests in flight
  than the bound, and the requests that were started go around the connections in order.\<close>

theorem open_loop_accounts:
  assumes "(open_step cfg)\<^sup>*\<^sup>* (open_start cfg newRecorder) s"
  shows "rec_offered (op_rec s) = int (length (op_started s)) + rec_omitted (op_rec s) \<and>
    int (length (op_inflight s)) \<le> inflight cfg \<and>
    (0 < bc_requests cfg \<longrightarrow> rec_offered (op_rec s) \<le> bc_requests cfg) \<and>
    op_started s = map (\<lambda>k. k mod nat (bc_conns cfg)) [0..<length (op_started s)]"
proof -
  have "open_inv cfg s" using open_sys.inv_reachable [OF refl assms] .
  then show ?thesis by (auto simp: open_inv_def)
qed

text \<open>C15: the closed loop comes to an end. With a request limit, and as long as every request that ends is
  counted, no interleaving of the workers makes more than \<open>3 * (limit + 2 * workers - 1)\<close> steps, and the
  only states in which none of them can move are those in which every worker has stopped.\<close>

theorem closed_loop_terminates:
  assumes "0 < bc_requests cfg" "(counted_step cfg ^^ n) (closed_start cfg newRecorder) s"
  shows "n \<le> 3 * (nat (bc_requests cfg) + 2 * n_workers cfg - 1) \<and>
    ((\<nexists>t. closed_step cfg s t) \<longleftrightarrow> set (cl_workers s) \<subseteq> {Stopped})"
proof -
  have "closed_inv cfg (closed_start cfg newRecorder) \<and> 0 < bc_requests cfg"
    using closed_rank.inv_start assms(1) by blast
  from closed_rank.run_length [OF assms(2) this] show ?thesis
    using closed_start_rank [OF assms(1)] closed_stuck_iff by simp
qed

section \<open>Concrete runs\<close>

definition demo_cfg :: blast_config where
  "demo_cfg = parseConfig_defaults\<lparr>bc_conns := 1, bc_workers := 2, bc_requests := 1, bc_mode := ''open'',
     bc_targets := [''https://edge:8443/fast'']\<rparr>"

lemma demo_cfg_spec: "spec demo_cfg = demo_spec"
  by (simp add: demo_cfg_def demo_spec_def spec_def)

lemma demo_request_counts:
  "\<exists>r'. doRequest demo_env c w demo_spec r = (r', demo_spec) \<and> rec_requests r' = rec_requests r + 1"
  by (simp add: doRequest_def demo_env_def demo_spec_def spec_def nextURL_def newRequest_def
      parseConfig_defaults_def drainResponse_def drainErrorBody_def Let_def recordHTTPResult_def
      rec_failure_def emit_def recordCFCode_def recordProto_def no_event_def)

text \<open>
  Two workers and a limit of one: both pass the check before either of them has recorded its request,
  so two requests are made.
\<close>

lemma closed_overshoot:
  "\<exists>s. (closed_step demo_cfg)\<^sup>*\<^sup>* (closed_start demo_cfg newRecorder) s \<and> rec_requests (cl_rec s) = 2"
proof -
  let ?st = "\<lambda>r ws. \<lparr>cl_rec = r, cl_spec = demo_spec, cl_workers = ws\<rparr>"
  have lim: "\<not> limit_reached demo_cfg (rec_requests newRecorder)"
    by (simp add: limit_reached_def demo_cfg_def newRecorder_def)
  obtain r1 where r1: "\<And>c w. doRequest demo_env c w demo_spec newRecorder = (r1 c w, demo_spec)"
      "\<And>c w. rec_requests (r1 c w) = 1"
    using demo_request_counts [of _ _ newRecorder] by (simp add: newRecorder_def) metis
  define r where "r = r1 0 0"
  obtain r2 where r2: "doRequest demo_env 0 1 demo_spec r = (r2, demo_spec)" "rec_requests r2 = 2"
    using demo_request_counts [of 0 1 r] r1(2) by (auto simp: r_def)
  have start: "closed_start demo_cfg newRecorder = ?st newRecorder [Checking, Checking]"
    by (simp add: closed_start_def demo_cfg_spec n_workers_def) (simp add: demo_cfg_def numeral_2_eq_2)
  have "closed_step demo_cfg (?st newRecorder [Checking, Checking]) (?st newRecorder [Pacing, Checking])"
    using closed_step.proceed [of 0 "?st newRecorder [Checking, Checking]" demo_cfg] lim by simp
  moreover have "closed_step demo_cfg (?st newRecorder [Pacing, Checking]) (?st newRecorder [Pacing, Pacing])"
    using closed_step.proceed [of 1 "?st newRecorder [Pacing, Checking]" demo_cfg] lim by simp
  moreover have "closed_step demo_cfg (?st newRecorder [Pacing, Pacing]) (?st newRecorder [Working, Pacing])"
    using closed_step.paced [of 0 "?st newRecorder [Pacing, Pacing]" demo_cfg] by simp
  moreover have "closed_step demo_cfg (?st newRecorder [Working, Pacing]) (?st newRecorder [Working, Working])"
    using closed_step.paced [of 1 "?st newRecorder [Working, Pacing]" demo_cfg] by simp
  moreover have "closed_step demo_cfg (?st newRecorder [Working, Working]) (?st r [Checking, Working])"
    using closed_step.finished [of 0 "?st newRecorder [Working, Working]" demo_env demo_cfg r demo_spec] r1(1)
    by (simp add: r_def)
  moreover have "closed_step demo_cfg (?st r [Checking, Working]) (?st r2 [Checking, Checking])"
    using closed_step.finished [of 1 "?st r [Checking, Working]" demo_env demo_cfg r2 demo_spec] r2(1)
    by (simp add: demo_cfg_def)
  ultimately have "(closed_step demo_cfg)\<^sup>*\<^sup>* (closed_start demo_cfg newRecorder) (?st r2 [Checking, Checking])"
    unfolding start by (meson converse_rtranclp_into_rtranclp rtranclp.rtrancl_refl)
  then show ?thesis using r2(2) by (intro exI [of _ "?st r2 [Checking, Checking]"]) simp
qed

theorem closed_limit_bound_witness:
  "\<exists>s :: closed_state. rec_requests (cl_rec s) = 2 \<and> rec_requests (cl_rec s) \<le> bc_requests demo_cfg + int (n_workers demo_cfg) - 1"
proof -
  obtain s where s: "(closed_step demo_cfg)\<^sup>*\<^sup>* (closed_start demo_cfg newRecorder) s" "rec_requests (cl_rec s) = 2"
    using closed_overshoot by blast
  have "0 < bc_requests demo_cfg" by (simp add: demo_cfg_def)
  from closed_limit_bound [OF this s(1)] s(2) show ?thesis by blast
qed

theorem closed_loop_terminates_witness:
  "\<exists>s. (counted_step demo_cfg ^^ 1) (closed_start demo_cfg newRecorder) s \<and> 1 \<le> 3 * (nat (bc_requests demo_cfg) + 2 * n_workers demo_cfg - 1)"
proof -
  let ?s = "closed_start demo_cfg newRecorder"
  have ws: "cl_workers ?s = [Checking, Checking]" by (simp add: closed_start_def n_workers_def demo_cfg_def numeral_2_eq_2)
  then have "closed_step demo_cfg ?s (?s\<lparr>cl_workers := (cl_workers ?s)[0 := Stopped]\<rparr>)"
    by (intro closed_step.ctx_done) simp_all
  moreover have "cl_workers ?s ! i \<noteq> Working" if "i < length (cl_workers ?s)" for i
    using that ws by (auto simp: less_Suc_eq)
  ultimately have "counted_step demo_cfg ?s (?s\<lparr>cl_workers := (cl_workers ?s)[0 := Stopped]\<rparr>)"
    by (simp add: counted_step_def)
  then have "(counted_step demo_cfg ^^ 1) ?s (?s\<lparr>cl_workers := (cl_workers ?s)[0 := Stopped]\<rparr>)" by (simp add: eq_OO)
  moreover have "0 < bc_requests demo_cfg" by (simp add: demo_cfg_def)
  ultimately show ?thesis using closed_loop_terminates [of demo_cfg 1] by blast
qed

theorem open_loop_accounts_witness:
  "op_started (open_tick demo_cfg (open_start demo_cfg newRecorder)) = [0]"
proof -
  let ?s = "open_tick demo_cfg (open_start demo_cfg newRecorder)"
  have "(open_step demo_cfg)\<^sup>*\<^sup>* (open_start demo_cfg newRecorder) ?s"
    by (intro r_into_rtranclp open_step.tick)
      (simp add: limit_reached_def demo_cfg_def open_start_def newRecorder_def)
  moreover have "rec_omitted (op_rec ?s) = 0 \<and> rec_offered (op_rec ?s) = 1"
    by (simp add: open_tick_def open_start_def newRecorder_def inflight_def demo_cfg_def
        parseConfig_defaults_def int64_defs Let_def)
  ultimately show ?thesis
    using open_loop_accounts [of demo_cfg ?s] by (auto simp: length_Suc_conv)
qed

text \<open>
  A method or URL that cannot make a request records nothing, so a run with a request limit and no
  duration never gets nearer to its limit: every worker goes round the loop for ever.
\<close>

lemma bad_request_no_progress:
  assumes "re_check env (rs_method sp) (fst (nextURL sp)) = Some err"
  shows "fst (doRequest env c w sp r) = r"
  using assms by (cases "nextURL sp") (simp add: doRequest_def newRequest_def)

end
