(* ===== verification/Blast_Report.thy ===== *)
theory Blast_Report
  imports Blast_Load "HOL-Library.Char_ord" "HOL-Library.List_Lexorder"
begin

text \<open>
  The end of a load run: the summary that \<^verbatim>\<open>internal/blast/blast.go\<close> prints, the probe of
  \<^verbatim>\<open>internal/blast/zerortt.go\<close> in front of the run, and the order of the run's phases in \<open>Main\<close>. The
  lines with a rate (\<^verbatim>\<open>%.1f\<close>) take its text as an argument.
\<close>

section \<open>Summary\<close>

definition hist_title :: "string \<Rightarrow> string list" where
  "hist_title title = ['''', title]"

definition writeIntHistogram :: "string \<Rightarrow> int multiset \<Rightarrow> string list" where
  "writeIntHistogram title m = (if m = {#} then []
     else hist_title title @ map (\<lambda>k. ''  '' @ pad_right 6 (itoa k) @ '' '' @ nat_digits (count m k))
       (sorted_list_of_set (set_mset m)))"

definition writeStringHistogram :: "string \<Rightarrow> string multiset \<Rightarrow> string list" where
  "writeStringHistogram title m = (if m = {#} then []
     else hist_title title @ map (\<lambda>k. ''  '' @ pad_right 34 k @ '' '' @ nat_digits (count m k))
       (sorted_list_of_set (set_mset m)))"

definition proto_line :: "string \<Rightarrow> nat \<Rightarrow> string" where
  "proto_line k n = ''  '' @ pad_right 10 k @ '' '' @ nat_digits n
     @ (if k \<noteq> ''HTTP/3.0'' then ''  <-- NOT HTTP/3'' else '''')"

definition writeProtoSummary :: "string multiset \<Rightarrow> string list" where
  "writeProtoSummary m = (if m = {#} then []
     else hist_title ''negotiated protocol'' @ map (\<lambda>k. proto_line k (count m k)) (sorted_list_of_set (set_mset m)))"

definition writeCFCodeSummary :: "int multiset \<Rightarrow> string list" where
  "writeCFCodeSummary m = (if m = {#} then []
     else hist_title ''cloudflare error codes'' @ map (\<lambda>c. ''  '' @ pad_right 6 (itoa c) @ '' ''
       @ nat_digits (count m c) @ ''  '' @ cfMeaning c) (sorted_list_of_set (set_mset m)))"

definition round_ms :: "duration \<Rightarrow> duration" where
  \<comment> \<open>\<open>Round(time.Millisecond)\<close> on a duration that is not negative: half up, kept where it would overflow\<close>
  "round_ms d = (let r = d mod millisecond in
     if r + r < millisecond then d - r
     else if d + millisecond - r > max_int64 then max_int64 else d + millisecond - r)"

definition writeLatencySummary :: "latencyHist \<Rightarrow> string list" where
  "writeLatencySummary h = (if hist_samples h = [] then []
     else let ls = hist_sorted h in
       hist_title ''latency (successful requests)''
       @ (if length ls < hist_seen h then [''  (percentiles from last '' @ nat_digits (length ls) @ '' of ''
            @ nat_digits (hist_seen h) @ '' samples)''] else [])
       @ map (\<lambda>(lbl, p). ''  p'' @ pad_right 5 lbl @ '' '' @ duration_string (round_ms (percentile ls p)))
           [(''50'', 50), (''90'', 90), (''99'', 99), (''99.9'', 999 / 10)]
       @ [''  max    '' @ duration_string (round_ms (last ls))])"

definition drops_line :: "nat \<Rightarrow> string" where
  "drops_line n = ''conn drops      '' @ nat_digits n"

record rate_texts =
  rt_completed :: string
  rt_offered :: string
  rt_bytes :: string

definition summary :: "rate_texts \<Rightarrow> duration \<Rightarrow> recorder \<Rightarrow> string list" where
  "summary rt elapsed r =
     ['''', ''=== blast summary ========================================='',
      ''duration        '' @ duration_string (round_ms elapsed),
      ''requests        '' @ itoa (rec_requests r) @ '' ('' @ rt_completed rt @ ''/s completed)'']
     @ (if 0 < rec_offered r then [''offered         '' @ itoa (rec_offered r) @ '' ('' @ rt_offered rt @ ''/s)''] else [])
     @ [''failures        '' @ itoa (rec_failures r)]
     @ (if 0 < rec_abandoned r then [''abandoned       '' @ itoa (rec_abandoned r) @ '' (still in flight when the run ended)''] else [])
     @ (if 0 < rec_omitted r then [''omitted         '' @ itoa (rec_omitted r) @ '' (open-loop ticks dropped: max-inflight full)''] else [])
     @ (if 0 < rec_bytes r then [''bytes           '' @ itoa (rec_bytes r) @ '' ('' @ rt_bytes rt @ '' KB/s)''] else [])
     @ [drops_line (rec_connDrops r)]
     @ writeIntHistogram ''status codes'' (rec_status r) @ writeProtoSummary (rec_protos r)
     @ writeCFCodeSummary (rec_cfCodes r) @ writeStringHistogram ''disconnect / failure reasons'' (rec_kinds r)
     @ writeLatencySummary (rec_lat r)
     @ [''==========================================================='']"

section \<open>The 0-RTT probe\<close>

datatype handshake = HandshakeComplete | ConnEnded goerr | DialCtxDone sentinel

record early_env =
  ee_sock :: sock_env
  ee_dial :: "goerr option"
  ee_handshake :: handshake
  ee_used0RTT :: bool
  ee_version :: nat
  ee_local :: string
  ee_remote :: string

datatype early_call = Sock sock_call | TransportClose | ConnClose

record earlyDial =
  ed_used0RTT :: bool
  ed_version :: string
  ed_local :: string
  ed_remote :: string

definition dialEarlyOnce :: "early_env \<Rightarrow> int \<Rightarrow> (goerr + earlyDial) \<times> early_call list" where
  "dialEarlyOnce env recvBuf =
     (case Listen (ee_sock env) '':0'' recvBuf 0 of
        (Some e, calls) \<Rightarrow> (Inl e, map Sock calls)
      | (None, calls) \<Rightarrow>
         (case ee_dial env of
            Some e \<Rightarrow> (Inl e, map Sock calls @ [TransportClose, Sock CloseSock])
          | None \<Rightarrow>
             (case ee_handshake env of
                ConnEnded e \<Rightarrow> (Inl (wrap_error ''handshake aborted: '' e), map Sock calls @ [TransportClose])
              | DialCtxDone s \<Rightarrow> (Inl (sentinel_error s), map Sock calls @ [TransportClose])
              | HandshakeComplete \<Rightarrow> (Inr \<lparr>ed_used0RTT = ee_used0RTT env,
                  ed_version = ''0x'' @ nat_hex (ee_version env), ed_local = ee_local env,
                  ed_remote = ee_remote env\<rparr>, map Sock calls))))"

definition early_close :: "early_call list" where
  \<comment> \<open>\<open>earlyDial.close\<close>\<close>
  "early_close = [ConnClose, TransportClose]"

definition quicDialAddr :: "(string \<Rightarrow> goerr + string \<times> string) \<Rightarrow> (string \<Rightarrow> goerr option) \<Rightarrow> string \<Rightarrow> goerr + string" where
  \<comment> \<open>\<open>url.Parse\<close> with \<open>Hostname()\<close> and \<open>Port()\<close>, and the resolver, are arguments\<close>
  "quicDialAddr parse resolve rawURL = (case parse rawURL of Inl e \<Rightarrow> Inl e
     | Inr (host, port) \<Rightarrow>
        (let a = join_host_port host (if port = '''' then ''443'' else port) in
         case resolve a of Some e \<Rightarrow> Inl e | None \<Rightarrow> Inr a))"

definition probe_event :: "int \<Rightarrow> string \<Rightarrow> earlyDial \<Rightarrow> event" where
  "probe_event conn detail d = no_event\<lparr>ev_Event := ''0rtt_probe'', ev_Conn := conn, ev_Used0RTT := ed_used0RTT d,
     ev_Detail := detail, ev_Version := ed_version d, ev_Local := ed_local d, ev_Remote := ed_remote d\<rparr>"

definition probe0RTT :: "goerr option \<Rightarrow> early_env \<Rightarrow> ctx_err \<Rightarrow> early_env \<Rightarrow> int \<Rightarrow> recorder \<Rightarrow>
    goerr option \<times> early_call list \<times> recorder" where
  \<comment> \<open>the error of \<open>quicDialAddr\<close>, the two dials, and the context during the pause between them\<close>
  "probe0RTT addr_err env1 pause env2 recvBuf r =
     (case addr_err of Some e \<Rightarrow> (Some e, [], r)
      | None \<Rightarrow>
       (case dialEarlyOnce env1 recvBuf of
          (Inl e, calls) \<Rightarrow> (Some (wrap_error ''0-rtt first dial: '' e), calls, r)
        | (Inr d1, calls) \<Rightarrow>
          (let r1 = emit (probe_event 0 ''first handshake (session ticket source)'' d1) r; calls1 = calls @ early_close in
           case pause of Some s \<Rightarrow> (Some (sentinel_error s), calls1, r1)
           | None \<Rightarrow>
             (case dialEarlyOnce env2 recvBuf of
                (Inl e, calls2) \<Rightarrow> (Some e, calls1 @ calls2,
                  emit (no_event\<lparr>ev_Event := ''0rtt_probe'', ev_Kind := kind_string (fst (Classify (Some e))),
                    ev_Detail := ''second dial failed: '' @ snd (Classify (Some e))\<rparr>) r1)
              | (Inr d2, calls2) \<Rightarrow> (None, calls1 @ calls2 @ early_close,
                  emit (probe_event 1 (''second handshake used_0rtt='' @ bool_string (ed_used0RTT d2)) d2) r1)))))"

section \<open>The phases of a run\<close>

datatype main_result = ConfigError goerr | Verdict "verdict_error option"

record main_env =
  me_parseURL :: "string \<Rightarrow> goerr option"
  me_readFile :: "string \<Rightarrow> goerr + string"
  me_output :: "string \<Rightarrow> goerr option" \<comment> \<open>\<open>os.OpenFile\<close>\<close>
  me_pool :: "string \<Rightarrow> goerr + string" \<comment> \<open>\<open>certs.LoadCAPool\<close> on the file system of the run\<close>
  me_mkdir :: "string \<Rightarrow> goerr option"
  me_setenv :: "string \<Rightarrow> goerr option"
  me_dials :: "goerr option \<times> early_env \<times> ctx_err \<times> early_env" \<comment> \<open>what the dials of the 0-RTT probe meet\<close>
  me_load :: "blast_config \<Rightarrow> recorder \<times> reqSpec \<Rightarrow> recorder \<times> reqSpec"
    \<comment> \<open>the interleaving and the responses of one \<open>runLoad\<close>: one of the runs that \<open>runLoad\<close> allows\<close>

definition outputWriter :: "(string \<Rightarrow> goerr option) \<Rightarrow> string \<Rightarrow> goerr + string option" where
  \<comment> \<open>the file the events go to; none is standard output\<close>
  "outputWriter openFile path = (if path = '''' then Inr None
     else case openFile path of Some e \<Rightarrow> Inl e | None \<Rightarrow> Inr (Some path))"

record tls_config =
  tls_ServerName :: string
  tls_Insecure :: bool
  tls_NextProtos :: "string list"
  tls_RootCAs :: "string option" \<comment> \<open>none: the system's trust store\<close>

definition tlsConfig :: "(string \<Rightarrow> goerr + string) \<Rightarrow> blast_config \<Rightarrow> goerr + tls_config" where
  "tlsConfig loadPool cfg =
     (let conf = \<lparr>tls_ServerName = bc_serverName cfg, tls_Insecure = bc_insecure cfg, tls_NextProtos = [''h3''], tls_RootCAs = None\<rparr> in
      if bc_certDir cfg = '''' \<or> bc_insecure cfg then Inr conf
      else case loadPool (bc_certDir cfg) of Inl e \<Rightarrow> Inl e | Inr pool \<Rightarrow> Inr (conf\<lparr>tls_RootCAs := Some pool\<rparr>))"

definition probe_phase :: "main_env \<Rightarrow> blast_config \<Rightarrow> recorder \<Rightarrow> recorder" where
  "probe_phase env cfg r = (if bc_probe0RTT cfg
     then (case me_dials env of (addr_err, env1, pause, env2) \<Rightarrow>
       (case probe0RTT addr_err env1 pause env2 (bc_recvBuf cfg) r of (None, _, r') \<Rightarrow> r'
        | (Some e, _, r') \<Rightarrow> emit (no_event\<lparr>ev_Event := ''0rtt_probe'', ev_Kind := ''error'', ev_Detail := err_text e\<rparr>) r'))
     else r)"

definition warm_up :: "main_env \<Rightarrow> blast_config \<Rightarrow> recorder \<Rightarrow> recorder \<times> reqSpec" where
  \<comment> \<open>the warm-up, whose counts are thrown away; the position in the list of targets is kept\<close>
  "warm_up env cfg r = (if 0 < bc_warmup cfg
     then (case me_load env cfg (r, spec cfg) of (r', sp) \<Rightarrow> (resetRequestStats r', sp)) else (r, spec cfg))"

definition load_phases :: "main_env \<Rightarrow> blast_config \<Rightarrow> recorder \<Rightarrow> recorder" where
  \<comment> \<open>the warm-up and the measured run\<close>
  "load_phases env cfg r = fst (me_load env cfg (warm_up env cfg r))"

definition blast_Main :: "main_env \<Rightarrow> blast_config \<Rightarrow> main_result" where
  \<comment> \<open>from the parsed flags on\<close>
  "blast_Main env cfg =
     (case me_parseURL env (bc_target cfg) of Some e \<Rightarrow> ConfigError (wrap_error ''bad -url: '' e)
      | None \<Rightarrow>
     (case validate cfg of Some e \<Rightarrow> ConfigError e
      | None \<Rightarrow>
     (case loadPayload (me_readFile env) cfg of Inl e \<Rightarrow> ConfigError e
      | Inr cfg' \<Rightarrow>
     (case outputWriter (me_output env) (bc_logPath cfg') of Inl e \<Rightarrow> ConfigError e
      | Inr _ \<Rightarrow>
     (case tlsConfig (me_pool env) cfg' of Inl e \<Rightarrow> ConfigError e
      | Inr _ \<Rightarrow>
     (case blast_quicConfig (me_mkdir env) (me_setenv env) cfg' of Inl e \<Rightarrow> ConfigError e
      | Inr _ \<Rightarrow> Verdict (verdict (bc_maxFailPct cfg') (bc_maxDrops cfg')
          (load_phases env cfg' (probe_phase env cfg' newRecorder)))))))))"


section \<open>Lemmas\<close>

text \<open>
  What the warm-up did to the counters is gone when the measured run starts: only the event log is kept.
\<close>

lemma warmup_discarded:
  "0 < bc_warmup cfg \<Longrightarrow> fst (warm_up env cfg r)
     = newRecorder\<lparr>rec_out := rec_out (fst (me_load env cfg (r, spec cfg)))\<rparr>"
  by (simp add: warm_up_def resetRequestStats_def split: prod.split)

text \<open>
  A dial of the 0-RTT probe that got past \<open>DialEarly\<close> never closes its UDP socket, neither when the
  handshake is aborted nor when the probe is done with the connection: the transport is closed, but
  the socket was made by the caller.
\<close>

lemma early_dial_keeps_socket:
  assumes "fst (Listen (ee_sock env) '':0'' recvBuf 0) = None" "ee_dial env = None"
  shows "Sock CloseSock \<notin> set (snd (dialEarlyOnce env recvBuf) @ early_close)"
  using assms by (auto simp: dialEarlyOnce_def early_close_def listen_defs
      split: prod.splits option.splits handshake.splits if_splits)

lemma histogram_lines: "m \<noteq> {#} \<Longrightarrow> length (writeIntHistogram title m) = 2 + card (set_mset m)"
  by (simp add: writeIntHistogram_def hist_title_def)


text \<open>
  What the measured run starts from: the 0-RTT probe only adds events, and the warm-up is thrown away,
  so every count is zero.
\<close>

lemma emit_quiet [simp]: "(emit e r)\<lparr>rec_out := out\<rparr> = r\<lparr>rec_out := out\<rparr>"
  by (simp add: emit_def)

lemma probe_quiet: "snd (snd (probe0RTT a env1 p env2 b r))\<lparr>rec_out := out\<rparr> = r\<lparr>rec_out := out\<rparr>"
  by (simp add: probe0RTT_def Let_def split: option.split prod.split sum.split)

lemma probe_phase_quiet: "(probe_phase env cfg r)\<lparr>rec_out := out\<rparr> = r\<lparr>rec_out := out\<rparr>"
proof -
  obtain a env1 p env2 where d: "me_dials env = (a, env1, p, env2)" by (metis surj_pair)
  obtain e calls r' where "probe0RTT a env1 p env2 (bc_recvBuf cfg) r = (e, calls, r')" by (metis surj_pair)
  then show ?thesis
    using probe_quiet [of out a env1 p env2 "bc_recvBuf cfg" r] by (cases e) (simp_all add: probe_phase_def d)
qed

lemma probe_phase_fresh: "\<exists>out. probe_phase env cfg newRecorder = newRecorder\<lparr>rec_out := out\<rparr>"
proof -
  let ?r = "probe_phase env cfg newRecorder"
  have "?r = ?r\<lparr>rec_out := rec_out ?r\<rparr>" by simp
  also have "\<dots> = newRecorder\<lparr>rec_out := rec_out ?r\<rparr>" by (rule probe_phase_quiet)
  finally show ?thesis by blast
qed

lemma warm_up_fresh: "\<exists>out sp. warm_up env cfg (probe_phase env cfg newRecorder) = (newRecorder\<lparr>rec_out := out\<rparr>, sp)"
  using probe_phase_fresh [of env cfg]
  by (auto simp: warm_up_def resetRequestStats_def split: prod.split)

lemma fresh_inv: "recorder_inv (newRecorder\<lparr>rec_out := out\<rparr>)"
  using inv_new(2) [of "newRecorder\<lparr>rec_out := out\<rparr>"] by (simp add: resetRequestStats_def)

definition scheduled :: "main_env \<Rightarrow> bool" where
  \<comment> \<open>the run of the environment is one that the goroutines can make\<close>
  "scheduled env \<longleftrightarrow> (\<forall>cfg p. runLoad cfg p (me_load env cfg p))"

lemma blast_Main_verdict:
  assumes "blast_Main env cfg = Verdict v" "scheduled env"
  shows "\<exists>cfg' out sp r sp'. loadPayload (me_readFile env) cfg = Inr cfg' \<and> v = verdict (bc_maxFailPct cfg') (bc_maxDrops cfg') r \<and>
    runLoad cfg' (newRecorder\<lparr>rec_out := out\<rparr>, sp) (r, sp') \<and> recorder_inv r"
proof -
  obtain cfg' where cfg': "loadPayload (me_readFile env) cfg = Inr cfg'"
    and v: "v = verdict (bc_maxFailPct cfg') (bc_maxDrops cfg') (load_phases env cfg' (probe_phase env cfg' newRecorder))"
    using assms(1) by (auto simp: blast_Main_def split: option.splits sum.splits)
  obtain out sp where start: "warm_up env cfg' (probe_phase env cfg' newRecorder) = (newRecorder\<lparr>rec_out := out\<rparr>, sp)"
    using warm_up_fresh by blast
  obtain r sp' where r: "me_load env cfg' (newRecorder\<lparr>rec_out := out\<rparr>, sp) = (r, sp')" by (metis surj_pair)
  then have run: "runLoad cfg' (newRecorder\<lparr>rec_out := out\<rparr>, sp) (r, sp')"
    using assms(2) unfolding scheduled_def by metis
  then have "recorder_inv r"
    using rec_sys.inv_run [OF runLoad_recorder [OF run]] fresh_inv by simp
  then show ?thesis using cfg' v run start r by (auto simp: load_phases_def)
qed

end
