(* ===== verification/Probe.thy ===== *)
theory Probe
  imports Go_Flags Quicerr Quiccfg
begin

text \<open>
  \<^verbatim>\<open>internal/probe/probe.go\<close>: the one-shot diagnosis of an endpoint. Every step prints one line; what
  the network does is data of a \<open>probe_env\<close>: the resolver, the TLS dial, the request over TCP and the
  request over HTTP/3 for each of the two URLs. The result of \<open>Main\<close> is its output and how it ends.
\<close>

definition esc :: char where "esc = CHR 0x1B"

definition pass_mark :: string where "pass_mark = esc # ''[32m  ok  '' @ esc # ''[0m''"
definition fail_mark :: string where "fail_mark = esc # ''[31m FAIL '' @ esc # ''[0m''"
definition warn_mark :: string where "warn_mark = esc # ''[33m warn '' @ esc # ''[0m''"

record result =
  rt_ok :: bool
  rt_detail :: string

definition mark_line :: "string \<Rightarrow> string \<Rightarrow> string \<Rightarrow> string" where
  "mark_line mark name detail = ''['' @ mark @ ''] '' @ pad_right 34 name @ '' '' @ detail"

definition step :: "string \<Rightarrow> result \<Rightarrow> string" where
  "step name r = mark_line (if rt_ok r then pass_mark else fail_mark) name (rt_detail r)"

definition probe_applyHeaders :: "string list \<Rightarrow> http_header \<Rightarrow> http_header" where
  "probe_applyHeaders hdrs h = foldl add_header_line h hdrs"

definition resolveDNS :: "goerr + string list \<Rightarrow> result" where
  "resolveDNS lookup = (case lookup of Inl e \<Rightarrow> \<lparr>rt_ok = False, rt_detail = err_text e\<rparr>
     | Inr ips \<Rightarrow> \<lparr>rt_ok = True, rt_detail = join_with '', '' ips\<rparr>)"

record tls_state =
  ts_alpn :: string
  ts_peer :: "(string \<times> string) option" \<comment> \<open>issuer name and expiry date of the first certificate\<close>

record tcp_response =
  tp_proto :: string
  tp_status :: string
  tp_header :: http_header

definition tls_detail :: "tls_state \<Rightarrow> string" where
  "tls_detail st = (let (issuer, expiry) = (case ts_peer st of None \<Rightarrow> (''unknown'', '''') | Some p \<Rightarrow> p) in
     ''alpn='' @ ts_alpn st @ '' issuer='' @ go_quote issuer @ '' expires='' @ expiry)"

definition fronting :: "http_header \<Rightarrow> string" where
  "fronting h = (if header_get h ''cf-ray'' \<noteq> '''' then ''Cloudflare (cf-ray present)''
     else if header_get h ''server'' \<noteq> '''' then header_get h ''server'' else ''origin'')"

definition alt_svc_line :: "string \<Rightarrow> string" where
  "alt_svc_line altSvc = mark_line (if altSvc \<noteq> '''' then pass_mark else warn_mark) ''Alt-Svc (h3 advertised?)''
     (if altSvc = '''' then ''no Alt-Svc header: server is not advertising HTTP/3'' else altSvc)"

record probe_env =
  pv_lookup :: "string \<Rightarrow> goerr + string list"
  pv_tls :: "string \<Rightarrow> string \<Rightarrow> goerr + tls_state" \<comment> \<open>the dial, by address and server name\<close>
  pv_tcp :: "string \<Rightarrow> http_header \<Rightarrow> goerr + tcp_response" \<comment> \<open>the request over TCP, by URL and header\<close>
  pv_newRequest :: "string \<Rightarrow> goerr option"
  pv_h3 :: "string \<Rightarrow> bool \<Rightarrow> http_header \<Rightarrow> goerr + string \<times> string"
    \<comment> \<open>the request over HTTP/3, by URL, verification and header: protocol and status\<close>
  pv_elapsed :: "string \<Rightarrow> string" \<comment> \<open>the rounded time it took, as text\<close>
  pv_mkdir :: "string \<Rightarrow> goerr option"
  pv_setenv :: "string \<Rightarrow> goerr option"
  pv_parse :: "string \<Rightarrow> goerr + string \<times> string" \<comment> \<open>\<open>url.Parse\<close>: host name and port\<close>

definition probeTCP :: "probe_env \<Rightarrow> string \<Rightarrow> string \<Rightarrow> string \<Rightarrow> string list \<Rightarrow> (string \<times> bool) \<times> string list" where
  \<comment> \<open>the Alt-Svc value, whether TCP works, and the lines printed\<close>
  "probeTCP env target host port hdrs =
     (case pv_tls env (join_host_port host port) host of
        Inl e \<Rightarrow> (('''', False), [step ''TCP + TLS'' \<lparr>rt_ok = False, rt_detail = err_text e\<rparr>])
      | Inr st \<Rightarrow>
        (let l1 = step ''TCP + TLS'' \<lparr>rt_ok = True, rt_detail = tls_detail st\<rparr> in
         case pv_tcp env target (probe_applyHeaders hdrs (\<lambda>_. [])) of
           Inl e \<Rightarrow> (('''', False), [l1, step ''HTTP over TCP'' \<lparr>rt_ok = False, rt_detail = err_text e\<rparr>])
         | Inr resp \<Rightarrow>
           (let altSvc = header_get (tp_header resp) ''Alt-Svc'' in
            ((altSvc, True),
             [l1, step ''HTTP over TCP'' \<lparr>rt_ok = True,
                rt_detail = tp_proto resp @ '' '' @ tp_status resp @ ''  via='' @ fronting (tp_header resp)\<rparr>,
              alt_svc_line altSvc]))))"

definition probeH3 :: "probe_env \<Rightarrow> string \<Rightarrow> duration \<Rightarrow> bool \<Rightarrow> string \<Rightarrow> string list \<Rightarrow> bool \<times> string" where
  "probeH3 env target timeout insecure qlogDir hdrs =
     (case Configure (pv_mkdir env) (pv_setenv env)
         (zero_config\<lparr>HandshakeIdleTimeout := timeout, MaxIdleTimeout := timeout\<rparr>) qlogDir of
        Inl e \<Rightarrow> (False, err_text e)
      | Inr _ \<Rightarrow>
        (case pv_newRequest env target of Some e \<Rightarrow> (False, err_text e)
         | None \<Rightarrow>
           (case pv_h3 env target insecure (probe_applyHeaders hdrs (\<lambda>_. [])) of
              Inl e \<Rightarrow> (case Classify (Some e) of (kd, detail) \<Rightarrow>
                (False, kind_string kd @ '': '' @ detail @ '' (after '' @ pv_elapsed env target @ '')''))
            | Inr (proto, status) \<Rightarrow> (True, proto @ '' '' @ status @ '' in '' @ pv_elapsed env target))))"

section \<open>The verdict\<close>

datatype diagnosis = Works | LocalBlock | Unreachable | NotAdvertised | PathBlock string

definition diagnose :: "bool \<Rightarrow> bool \<Rightarrow> string \<Rightarrow> bool \<Rightarrow> bool \<Rightarrow> diagnosis" where
  \<comment> \<open>the cases of the switch in \<open>verdict\<close>, in their order\<close>
  "diagnose tcpOK h3OK altSvc controlTested controlOK =
     (if h3OK then Works
      else if controlTested \<and> \<not> controlOK then LocalBlock
      else if \<not> tcpOK then Unreachable
      else if altSvc = '''' then NotAdvertised
      else PathBlock altSvc)"

fun diagnosis_text :: "diagnosis \<Rightarrow> string list" where
  "diagnosis_text Works = [''VERDICT: HTTP/3 works end to end. Safe to run `quicshot blast` against this URL.'']"
| "diagnosis_text LocalBlock = [''VERDICT: HTTP/3 failed here AND to a known-good public endpoint.'',
     ''         UDP/443 is being blocked on your side - corporate firewall, VPN, or'',
     ''         a network that does not pass QUIC. This says nothing about the target.'',
     ''         Retest off-VPN, or from a host inside the same network as the tunnel.'']"
| "diagnosis_text Unreachable = [''VERDICT: could not reach the host over TCP either. Check DNS, VPN and access.'']"
| "diagnosis_text NotAdvertised = [''VERDICT: the server never advertised HTTP/3 (no Alt-Svc) and the QUIC handshake'',
     ''         failed. HTTP/3 is most likely not enabled for this hostname.'']"
| "diagnosis_text (PathBlock altSvc) = [''VERDICT: the server advertises h3 ('' @ altSvc @ '') but the QUIC handshake failed,'',
     ''         while the control endpoint succeeded. The block is specific to this'',
     ''         path - a middlebox, or the edge is not actually serving h3.'']"

definition probe_verdict :: "bool \<Rightarrow> bool \<Rightarrow> string \<Rightarrow> bool \<Rightarrow> bool \<Rightarrow> string list" where
  "probe_verdict tcpOK h3OK altSvc controlTested controlOK =
     diagnosis_text (diagnose tcpOK h3OK altSvc controlTested controlOK) @ ['''']"

section \<open>Main\<close>

record probe_opts =
  po_url :: string
  po_timeout :: duration
  po_insecure :: bool
  po_qlogDir :: string
  po_control :: string
  po_headers :: "string list"

definition default_probe_opts :: probe_opts where
  "default_probe_opts = \<lparr>po_url = '''', po_timeout = 8 * Go_Prelude.second, po_insecure = False, po_qlogDir = '''',
     po_control = ''https://cloudflare-quic.com/'', po_headers = []\<rparr>"

definition probe_flags :: "probe_opts flag_set" where
  "probe_flags = [
     (''url'', StringFlag (\<lambda>v. po_url_update (\<lambda>_. v))),
     (''timeout'', DurationFlag (\<lambda>v. po_timeout_update (\<lambda>_. v))),
     (''insecure'', BoolFlag (\<lambda>v. po_insecure_update (\<lambda>_. v))),
     (''qlog-dir'', StringFlag (\<lambda>v. po_qlogDir_update (\<lambda>_. v))),
     (''control'', StringFlag (\<lambda>v. po_control_update (\<lambda>_. v))),
     (''header'', StringFlag (\<lambda>v. po_headers_update (\<lambda>hs. hs @ [v])))]"

definition probe_parse :: "flag_env \<Rightarrow> string list \<Rightarrow> flag_error + probe_opts" where
  "probe_parse fenv args = map_sum id fst (parse_flags fenv probe_flags args default_probe_opts)"

record probe_run =
  pn_lines :: "string list"
  pn_h3 :: bool
  pn_tcp :: bool
  pn_altSvc :: string
  pn_control :: "bool option" \<comment> \<open>the control's result, where it was tested\<close>

definition control_tested :: "probe_opts \<Rightarrow> bool \<Rightarrow> bool" where
  "control_tested opts h3OK \<longleftrightarrow> po_control opts \<noteq> '''' \<and> \<not> h3OK"

definition run_probe :: "probe_env \<Rightarrow> probe_opts \<Rightarrow> string \<Rightarrow> string \<Rightarrow> probe_run" where
  \<comment> \<open>\<open>Main\<close> from the parsed URL on: host name and port\<close>
  "run_probe env opts host port =
     (let rule = replicate 60 (CHR ''='');
          ((altSvc, tcpOK), tcp_lines) = probeTCP env (po_url opts) host port (po_headers opts);
          (h3OK, h3Detail) = probeH3 env (po_url opts) (po_timeout opts) (po_insecure opts) (po_qlogDir opts) (po_headers opts);
          tested = control_tested opts h3OK;
          (ctlOK, ctlDetail) = (if tested then probeH3 env (po_control opts) (po_timeout opts) False (po_qlogDir opts) []
                                else (True, ''''))
      in \<lparr>pn_lines = ['''', ''probing '' @ po_url opts, rule, step ''DNS'' (resolveDNS (pv_lookup env host))] @ tcp_lines
            @ [step (''HTTP/3 (QUIC over UDP/'' @ port @ '')'') \<lparr>rt_ok = h3OK, rt_detail = h3Detail\<rparr>]
            @ (if tested then [step (''control HTTP/3 ('' @ po_control opts @ '')'') \<lparr>rt_ok = ctlOK, rt_detail = ctlDetail\<rparr>] else [])
            @ [rule] @ probe_verdict tcpOK h3OK altSvc tested ctlOK,
          pn_h3 = h3OK, pn_tcp = tcpOK, pn_altSvc = altSvc, pn_control = (if tested then Some ctlOK else None)\<rparr>)"

datatype probe_end = ProbeError goerr | ProbeExit int "string list"

definition probe_Main :: "probe_env \<Rightarrow> probe_opts \<Rightarrow> probe_end" where
  \<comment> \<open>from the parsed flags on: an error, or the exit status with the output\<close>
  "probe_Main env opts =
     (if po_url opts = '''' then ProbeError (new_error ''-url is required'')
      else case pv_parse env (po_url opts) of Inl e \<Rightarrow> ProbeError (wrap_error ''bad -url: '' e)
        | Inr (host, port) \<Rightarrow>
          (let r = run_probe env opts host (if port = '''' then ''443'' else port)
           in ProbeExit (if pn_h3 r then 0 else 1) (pn_lines r)))"

section \<open>Properties\<close>

lemma run_probe_parts:
  assumes "run_probe env opts host port = r"
  shows "suffix (probe_verdict (pn_tcp r) (pn_h3 r) (pn_altSvc r) (pn_control r \<noteq> None) (pn_control r \<noteq> Some False)) (pn_lines r)"
    "pn_control r \<noteq> None \<longleftrightarrow> control_tested opts (pn_h3 r)"
proof -
  obtain altSvc tcpOK tl where tcp: "probeTCP env (po_url opts) host port (po_headers opts) = ((altSvc, tcpOK), tl)"
    by (metis surj_pair)
  obtain h3OK det where h3: "probeH3 env (po_url opts) (po_timeout opts) (po_insecure opts) (po_qlogDir opts) (po_headers opts) = (h3OK, det)"
    by (metis surj_pair)
  obtain ctl cdet where c: "(if control_tested opts h3OK then probeH3 env (po_control opts) (po_timeout opts) False (po_qlogDir opts) []
      else (True, '''')) = (ctl, cdet)"
    by (metis surj_pair)
  have r: "pn_h3 r = h3OK" "pn_tcp r = tcpOK" "pn_altSvc r = altSvc"
    "pn_control r = (if control_tested opts h3OK then Some ctl else None)"
    "suffix (probe_verdict tcpOK h3OK altSvc (control_tested opts h3OK) ctl) (pn_lines r)"
    using assms unfolding run_probe_def Let_def tcp h3 prod.case c by (auto simp: suffix_def simp del: append.simps)
  have "\<not> control_tested opts h3OK \<Longrightarrow> ctl" using c by simp
  then show "suffix (probe_verdict (pn_tcp r) (pn_h3 r) (pn_altSvc r) (pn_control r \<noteq> None) (pn_control r \<noteq> Some False)) (pn_lines r)"
    "pn_control r \<noteq> None \<longleftrightarrow> control_tested opts (pn_h3 r)"
    using r by (cases "control_tested opts h3OK"; cases ctl; simp)+
qed


text \<open>
  Where the control is switched off, the diagnosis of a block on the path is still printed with the
  statement that the control endpoint succeeded, although none was tried.
\<close>

lemma control_claimed_untested:
  assumes "po_control opts = ''''" "\<not> pn_h3 r" "pn_tcp r" "pn_altSvc r \<noteq> ''''" "run_probe env opts host port = r"
  shows "pn_control r = None \<and>
    ''         while the control endpoint succeeded. The block is specific to this'' \<in> set (pn_lines r)"
proof -
  have "pn_control r = None" using run_probe_parts(2) [OF assms(5)] assms(1) by (auto simp: control_tested_def)
  moreover have "set (probe_verdict True False (pn_altSvc r) False True) \<subseteq> set (pn_lines r)"
    using set_mono_suffix [OF run_probe_parts(1) [OF assms(5)]] assms(2,3) calculation by simp
  ultimately show ?thesis using assms(4) by (auto simp: probe_verdict_def diagnose_def)
qed

section \<open>Witnesses\<close>

definition demo_probe :: probe_env where
  "demo_probe = \<lparr>pv_lookup = (\<lambda>_. Inr [''10.0.0.1'']), pv_tls = (\<lambda>_ _. Inr \<lparr>ts_alpn = ''h2'', ts_peer = None\<rparr>),
     pv_tcp = (\<lambda>_ _. Inr \<lparr>tp_proto = ''HTTP/2.0'', tp_status = ''200 OK'', tp_header = (\<lambda>_. [])\<rparr>),
     pv_newRequest = (\<lambda>_. None), pv_h3 = (\<lambda>_ _ _. Inl (new_error ''no route'')), pv_elapsed = (\<lambda>_. ''1s''),
     pv_mkdir = (\<lambda>_. None), pv_setenv = (\<lambda>_. None), pv_parse = (\<lambda>_. Inr (''edge'', ''8443''))\<rparr>"

definition demo_probe_opts :: probe_opts where
  "demo_probe_opts = default_probe_opts\<lparr>po_url := ''https://edge:8443/''\<rparr>"


end
