(* ===== verification/Certs.thy ===== *)
theory Certs
  imports Go_Flags
begin

text \<open>
  \<^verbatim>\<open>internal/certs/certs.go\<close>: the local certificate authority. The directory is a map from file names to
  contents and modes; a write that fails may leave anything behind, which is data of the environment,
  as are the results of the cryptographic library: key generation, the signed certificate for a
  template, its parent, the public key in it and the signing key, and the encoding of a private key.
  PEM blocks are written out.
\<close>

section \<open>PEM\<close>

definition base64_char :: "nat \<Rightarrow> char" where
  "base64_char n = (''ABCDEFGHIJKLMNOPQRSTUVWXYZabcdefghijklmnopqrstuvwxyz0123456789+/'') ! n"

fun base64 :: "string \<Rightarrow> string" where
  "base64 [] = []"
| "base64 [a] = (let n = byte_of a in
     [base64_char (n div 4), base64_char (n mod 4 * 16), CHR ''='', CHR ''=''])"
| "base64 [a, b] = (let m = byte_of a; n = byte_of b in
     [base64_char (m div 4), base64_char (m mod 4 * 16 + n div 16), base64_char (n mod 16 * 4), CHR ''=''])"
| "base64 (a # b # c # s) = (let m = byte_of a; n = byte_of b; k = byte_of c in
     [base64_char (m div 4), base64_char (m mod 4 * 16 + n div 16), base64_char (n mod 16 * 4 + k div 64),
      base64_char (k mod 64)] @ base64 s)"

fun break_lines :: "nat \<Rightarrow> string \<Rightarrow> string" where
  \<comment> \<open>lines of 64 characters, the last one as long as it is; the fuel is the length\<close>
  "break_lines 0 s = []"
| "break_lines (Suc f) s = (if s = [] then [] else take 64 s @ CHR 0x0A # break_lines f (drop 64 s))"

definition pemBytes :: "string \<Rightarrow> string \<Rightarrow> string" where
  "pemBytes typ der = ''-----BEGIN '' @ typ @ ''-----'' @ CHR 0x0A #
     (let b = base64 der in break_lines (length b) b) @ ''-----END '' @ typ @ ''-----'' @ [CHR 0x0A]"

section \<open>Templates\<close>

datatype key_usage = UsageCertSign | UsageDigitalSignature | UsageKeyEncipherment
datatype ext_usage = ServerAuth | ClientAuth

record template =
  tm_serial :: int
  tm_CommonName :: string
  tm_NotBefore :: int
  tm_NotAfter :: int
  tm_KeyUsage :: "key_usage list"
  tm_ExtKeyUsage :: "ext_usage list"
  tm_BasicConstraintsValid :: bool
  tm_IsCA :: bool
  tm_DNSNames :: "string list"
  tm_IPAddresses :: "string list"

definition ca_template :: "int \<Rightarrow> int \<Rightarrow> (int \<Rightarrow> int) \<Rightarrow> template" where
  "ca_template serial now next_year = \<lparr>tm_serial = serial, tm_CommonName = ''QUICshot local CA'',
     tm_NotBefore = now - 3600 * Go_Prelude.second, tm_NotAfter = next_year now,
     tm_KeyUsage = [UsageCertSign, UsageDigitalSignature], tm_ExtKeyUsage = [], tm_BasicConstraintsValid = True,
     tm_IsCA = True, tm_DNSNames = [], tm_IPAddresses = []\<rparr>"

definition leaf_template :: "int \<Rightarrow> int \<Rightarrow> (int \<Rightarrow> int) \<Rightarrow> template" where
  "leaf_template serial now next_year = \<lparr>tm_serial = serial, tm_CommonName = ''QUICshot edge'',
     tm_NotBefore = now - 3600 * Go_Prelude.second, tm_NotAfter = next_year now,
     tm_KeyUsage = [UsageDigitalSignature, UsageKeyEncipherment], tm_ExtKeyUsage = [ServerAuth, ClientAuth],
     tm_BasicConstraintsValid = False, tm_IsCA = False, tm_DNSNames = [], tm_IPAddresses = []\<rparr>"

fun addHosts :: "(string \<Rightarrow> string option) \<Rightarrow> string list \<Rightarrow> template \<Rightarrow> template" where
  \<comment> \<open>\<open>net.ParseIP\<close>, with the address it finds as text, is an argument\<close>
  "addHosts parseIP [] t = t"
| "addHosts parseIP (h # hs) t =
     (let h' = trim_space h in
      if h' = '''' then addHosts parseIP hs t
      else case parseIP h' of Some ip \<Rightarrow> addHosts parseIP hs (t\<lparr>tm_IPAddresses := tm_IPAddresses t @ [ip]\<rparr>)
        | None \<Rightarrow> addHosts parseIP hs (t\<lparr>tm_DNSNames := tm_DNSNames t @ [h']\<rparr>))"

section \<open>Minting\<close>

record crypto =
  cy_ca_key :: "goerr + nat"
  cy_leaf_key :: "goerr + nat"
  cy_ca_serial :: "goerr + int"
  cy_leaf_serial :: "goerr + int"
  cy_create :: "template \<Rightarrow> template \<Rightarrow> nat \<Rightarrow> nat \<Rightarrow> goerr + string"
    \<comment> \<open>\<open>x509.CreateCertificate\<close>: template, parent, the key certified and the signing key\<close>
  cy_parse :: "string \<Rightarrow> goerr + template"
  cy_marshal_key :: "nat \<Rightarrow> goerr + string"
  cy_parseIP :: "string \<Rightarrow> string option"
  cy_now :: int
  cy_next_year :: "int \<Rightarrow> int"

record caMaterial =
  cm_key :: nat
  cm_cert :: template
  cm_der :: string

definition serial :: "goerr + int \<Rightarrow> int panicking" where
  "serial r = (case r of Inl e \<Rightarrow> Panic (err_text e) | Inr n \<Rightarrow> Done n)"

definition mintCA :: "crypto \<Rightarrow> (goerr + caMaterial) panicking" where
  "mintCA cy =
     (case cy_ca_key cy of Inl e \<Rightarrow> Done (Inl e)
      | Inr key \<Rightarrow>
     (case serial (cy_ca_serial cy) of Panic m \<Rightarrow> Panic m
      | Done n \<Rightarrow>
        (let t = ca_template n (cy_now cy) (cy_next_year cy) in
         case cy_create cy t t key key of Inl e \<Rightarrow> Done (Inl e)
         | Inr der \<Rightarrow> (case cy_parse cy der of Inl e \<Rightarrow> Done (Inl e)
             | Inr cert \<Rightarrow> Done (Inr \<lparr>cm_key = key, cm_cert = cert, cm_der = der\<rparr>)))))"

definition mintLeaf :: "crypto \<Rightarrow> caMaterial \<Rightarrow> string list \<Rightarrow> (goerr + string \<times> string) panicking" where
  "mintLeaf cy ca hosts =
     (case cy_leaf_key cy of Inl e \<Rightarrow> Done (Inl e)
      | Inr key \<Rightarrow>
     (case serial (cy_leaf_serial cy) of Panic m \<Rightarrow> Panic m
      | Done n \<Rightarrow>
        (let t = addHosts (cy_parseIP cy) hosts (leaf_template n (cy_now cy) (cy_next_year cy)) in
         case cy_create cy t (cm_cert ca) key (cm_key ca) of Inl e \<Rightarrow> Done (Inl e)
         | Inr der \<Rightarrow> (case cy_marshal_key cy key of Inl e \<Rightarrow> Done (Inl e)
             | Inr kder \<Rightarrow> Done (Inr (der, kder))))))"

section \<open>The directory\<close>

type_synonym cert_dir = "string \<rightharpoonup> string \<times> nat" \<comment> \<open>content and mode\<close>

definition CAFile :: string where "CAFile = ''ca.pem''"
definition CertFile :: string where "CertFile = ''server.pem''"
definition KeyFile :: string where "KeyFile = ''server.key''"

lemmas file_names = CAFile_def CertFile_def KeyFile_def

record disk =
  dk_mkdir :: "goerr option"
  dk_write :: "string \<Rightarrow> (goerr \<times> (string \<times> nat) option) option"
    \<comment> \<open>whether writing a file fails, and what is there afterwards if it does\<close>
  dk_read :: "string \<Rightarrow> goerr option"

definition write_file :: "disk \<Rightarrow> string \<Rightarrow> string \<Rightarrow> nat \<Rightarrow> cert_dir \<Rightarrow> goerr option \<times> cert_dir" where
  \<comment> \<open>\<open>os.WriteFile\<close>: the mode only matters where the file is new\<close>
  "write_file dk name data mode files =
     (case dk_write dk name of Some (e, left) \<Rightarrow> (Some e, files(name := left))
      | None \<Rightarrow> (None, files(name \<mapsto> (data, case files name of Some (_, m) \<Rightarrow> m | None \<Rightarrow> mode))))"

definition writePEM :: "disk \<Rightarrow> string \<Rightarrow> string \<Rightarrow> string \<Rightarrow> nat \<Rightarrow> cert_dir \<Rightarrow> goerr option \<times> cert_dir" where
  "writePEM dk name typ der mode files = write_file dk name (pemBytes typ der) mode files"

definition writeMaterial :: "disk \<Rightarrow> string \<Rightarrow> string \<Rightarrow> string \<Rightarrow> cert_dir \<Rightarrow> goerr option \<times> cert_dir" where
  \<comment> \<open>420 and 384 are the modes 0644 and 0600\<close>
  "writeMaterial dk caDER leafDER leafKeyDER files =
     (case writePEM dk CAFile ''CERTIFICATE'' caDER 420 files of
        (Some e, f1) \<Rightarrow> (Some e, f1)
      | (None, f1) \<Rightarrow>
        (case write_file dk CertFile (pemBytes ''CERTIFICATE'' leafDER @ pemBytes ''CERTIFICATE'' caDER) 420 f1 of
           (Some e, f2) \<Rightarrow> (Some e, f2)
         | (None, f2) \<Rightarrow> writePEM dk KeyFile ''EC PRIVATE KEY'' leafKeyDER 384 f2))"

definition Generate :: "crypto \<Rightarrow> disk \<Rightarrow> string list \<Rightarrow> bool \<Rightarrow> cert_dir \<Rightarrow> (goerr option \<times> cert_dir) panicking" where
  \<comment> \<open>\<open>os.Stat\<close> succeeds exactly where the file is there\<close>
  "Generate cy dk hosts force files =
     (case dk_mkdir dk of Some e \<Rightarrow> Done (Some e, files)
      | None \<Rightarrow>
        (if \<not> force \<and> files CertFile \<noteq> None then Done (None, files)
         else case mintCA cy of Panic m \<Rightarrow> Panic m
           | Done (Inl e) \<Rightarrow> Done (Some e, files)
           | Done (Inr ca) \<Rightarrow>
             (case mintLeaf cy ca hosts of Panic m \<Rightarrow> Panic m
              | Done (Inl e) \<Rightarrow> Done (Some e, files)
              | Done (Inr (leafDER, keyDER)) \<Rightarrow> Done (writeMaterial dk (cm_der ca) leafDER keyDER files))))"

definition LoadCAPool :: "disk \<Rightarrow> (string \<Rightarrow> bool) \<Rightarrow> goerr \<Rightarrow> cert_dir \<Rightarrow> goerr + string" where
  \<comment> \<open>whether \<open>AppendCertsFromPEM\<close> finds a certificate in a text is an argument, as is the error of a missing file\<close>
  "LoadCAPool dk has_cert missing files =
     (case (dk_read dk CAFile, files CAFile) of
        (Some e, _) \<Rightarrow> Inl e
      | (None, None) \<Rightarrow> Inl missing
      | (None, Some (pem, _)) \<Rightarrow> if has_cert pem then Inr pem else Inl (new_error ''certs: no CA certificate found''))"

record cert_opts =
  co_dir :: string
  co_hosts :: string
  co_force :: bool

definition cert_flags :: "cert_opts flag_set" where
  "cert_flags = [(''dir'', StringFlag (\<lambda>v. co_dir_update (\<lambda>_. v))), (''hosts'', StringFlag (\<lambda>v. co_hosts_update (\<lambda>_. v))),
     (''force'', BoolFlag (\<lambda>v. co_force_update (\<lambda>_. v)))]"

definition default_cert_opts :: cert_opts where
  "default_cert_opts = \<lparr>co_dir = ''/certs'', co_hosts = ''edge,localhost,127.0.0.1,::1'', co_force = False\<rparr>"

definition certs_Main :: "flag_env \<Rightarrow> crypto \<Rightarrow> disk \<Rightarrow> string list \<Rightarrow> (string \<Rightarrow> cert_dir) \<Rightarrow> flag_error + (goerr option \<times> cert_dir) panicking" where
  \<comment> \<open>the directories by name\<close>
  "certs_Main fenv cy dk args dirs = map_sum id (\<lambda>(opts, _).
     Generate cy dk (split_on (CHR '','') (co_hosts opts)) (co_force opts) (dirs (co_dir opts)))
     (parse_flags fenv cert_flags args default_cert_opts)"

section \<open>Lemmas\<close>

lemma break_lines_content:
  "length s \<le> f \<Longrightarrow> filter (\<lambda>c. c \<noteq> CHR 0x0A) (break_lines f s) = filter (\<lambda>c. c \<noteq> CHR 0x0A) s"
proof (induction f arbitrary: s)
  case (Suc f)
  show ?case
  proof (cases "s = []")
    case False
    then have "length (drop 64 s) \<le> f" using Suc.prems by (cases s) auto
    then have "filter (\<lambda>c. c \<noteq> CHR 0x0A) (break_lines f (drop 64 s)) = filter (\<lambda>c. c \<noteq> CHR 0x0A) (drop 64 s)"
      by (rule Suc.IH)
    moreover have "filter (\<lambda>c. c \<noteq> CHR 0x0A) s = filter (\<lambda>c. c \<noteq> CHR 0x0A) (take 64 s) @ filter (\<lambda>c. c \<noteq> CHR 0x0A) (drop 64 s)"
      by (metis append_take_drop_id filter_append)
    ultimately show ?thesis using False by simp
  qed simp
qed simp

definition host_names :: "string list \<Rightarrow> string list" where
  "host_names hosts = filter (\<lambda>h. h \<noteq> '''') (map trim_space hosts)"

lemma addHosts_names:
  "tm_DNSNames (addHosts parseIP hosts t) = tm_DNSNames t @ filter (\<lambda>h. parseIP h = None) (host_names hosts)
   \<and> tm_IPAddresses (addHosts parseIP hosts t) = tm_IPAddresses t @ List.map_filter parseIP (host_names hosts)
   \<and> tm_IsCA (addHosts parseIP hosts t) = tm_IsCA t"
  by (induction parseIP hosts t rule: addHosts.induct)
     (auto simp: host_names_def Let_def map_filter_simps split: option.splits)

lemma mintCA_Done:
  "mintCA cy = Done (Inr ca) \<Longrightarrow> \<exists>t. cy_create cy t t (cm_key ca) (cm_key ca) = Inr (cm_der ca) \<and> tm_IsCA t
     \<and> cy_parse cy (cm_der ca) = Inr (cm_cert ca)"
  by (auto simp: mintCA_def Let_def ca_template_def split: sum.splits panicking.splits)

lemma mintLeaf_Done:
  "mintLeaf cy ca hosts = Done (Inr (leaf, kder)) \<Longrightarrow>
     \<exists>n key. cy_create cy (addHosts (cy_parseIP cy) hosts (leaf_template n (cy_now cy) (cy_next_year cy))) (cm_cert ca) key (cm_key ca) = Inr leaf
     \<and> cy_marshal_key cy key = Inr kder"
  by (auto simp: mintLeaf_def Let_def split: sum.splits panicking.splits)

lemma write_file_ok: "write_file dk name data mode files = (None, files') \<Longrightarrow>
    files' = files(name \<mapsto> (data, case files name of Some (_, m) \<Rightarrow> m | None \<Rightarrow> mode))"
  by (auto simp: write_file_def split: option.splits)

lemma writeMaterial_ok:
  assumes "writeMaterial dk ca leaf key files = (None, files')"
  shows "map_option fst (files' CAFile) = Some (pemBytes ''CERTIFICATE'' ca)"
    "map_option fst (files' CertFile) = Some (pemBytes ''CERTIFICATE'' leaf @ pemBytes ''CERTIFICATE'' ca)"
    "map_option fst (files' KeyFile) = Some (pemBytes ''EC PRIVATE KEY'' key)"
    "files KeyFile = None \<Longrightarrow> map_option snd (files' KeyFile) = Some 384"
    "f \<notin> {CAFile, CertFile, KeyFile} \<Longrightarrow> files' f = files f"
proof -
  obtain f1 f2 where w: "write_file dk CAFile (pemBytes ''CERTIFICATE'' ca) 420 files = (None, f1)"
    "write_file dk CertFile (pemBytes ''CERTIFICATE'' leaf @ pemBytes ''CERTIFICATE'' ca) 420 f1 = (None, f2)"
    "write_file dk KeyFile (pemBytes ''EC PRIVATE KEY'' key) 384 f2 = (None, files')"
    using assms by (auto simp: writeMaterial_def writePEM_def split: prod.splits option.splits)
  have ne: "CAFile \<noteq> CertFile" "CAFile \<noteq> KeyFile" "CertFile \<noteq> KeyFile" by (simp_all add: file_names)
  note ok = write_file_ok [OF w(1)] write_file_ok [OF w(2)] write_file_ok [OF w(3)]
  show "map_option fst (files' CAFile) = Some (pemBytes ''CERTIFICATE'' ca)"
    "map_option fst (files' CertFile) = Some (pemBytes ''CERTIFICATE'' leaf @ pemBytes ''CERTIFICATE'' ca)"
    "map_option fst (files' KeyFile) = Some (pemBytes ''EC PRIVATE KEY'' key)"
    "files KeyFile = None \<Longrightarrow> map_option snd (files' KeyFile) = Some 384"
    "f \<notin> {CAFile, CertFile, KeyFile} \<Longrightarrow> files' f = files f"
    unfolding ok using ne by auto
qed

section \<open>Properties\<close>

text \<open>C29: generated certificates belong together. When generating succeeds, the directory is either
  left as it was, because a server certificate was there and no new one was asked for, or it holds a
  set made in one go: the CA that clients will trust, in a file of its own and again at the end of the
  server's chain; a leaf signed with the key of that CA for the key in the key file, with the trimmed
  host names and addresses as its names and no authority of its own; a key file that is private where
  it is new; and every other file is untouched.\<close>

theorem certs_consistent:
  assumes "Generate cy dk hosts force files = Done (None, files')"
  shows "(\<not> force \<and> files CertFile \<noteq> None \<and> files' = files) \<or>
    (\<exists>(ca :: caMaterial) leaf key kder t. map_option fst (files' CAFile) = Some (pemBytes ''CERTIFICATE'' (cm_der ca))
      \<and> map_option fst (files' CertFile) = Some (pemBytes ''CERTIFICATE'' leaf @ pemBytes ''CERTIFICATE'' (cm_der ca))
      \<and> map_option fst (files' KeyFile) = Some (pemBytes ''EC PRIVATE KEY'' kder)
      \<and> (\<exists>tc. cy_create cy tc tc (cm_key ca) (cm_key ca) = Inr (cm_der ca) \<and> tm_IsCA tc)
      \<and> cy_parse cy (cm_der ca) = Inr (cm_cert ca)
      \<and> cy_create cy t (cm_cert ca) key (cm_key ca) = Inr leaf \<and> cy_marshal_key cy key = Inr kder
      \<and> tm_DNSNames t = filter (\<lambda>h. cy_parseIP cy h = None) (host_names hosts)
      \<and> tm_IPAddresses t = List.map_filter (cy_parseIP cy) (host_names hosts) \<and> \<not> tm_IsCA t
      \<and> (files KeyFile = None \<longrightarrow> map_option snd (files' KeyFile) = Some 384)
      \<and> (\<forall>f. f \<notin> {CAFile, CertFile, KeyFile} \<longrightarrow> files' f = files f))"
proof (cases "\<not> force \<and> files CertFile \<noteq> None")
  case True
  then show ?thesis using assms by (auto simp: Generate_def split: option.splits)
next
  case False
  then obtain ca leaf kder where ca: "mintCA cy = Done (Inr ca)" "mintLeaf cy ca hosts = Done (Inr (leaf, kder))"
    and w: "writeMaterial dk (cm_der ca) leaf kder files = (None, files')"
    using assms by (auto simp: Generate_def split: option.splits panicking.splits sum.splits prod.splits)
  obtain n key where leaf: "cy_create cy (addHosts (cy_parseIP cy) hosts (leaf_template n (cy_now cy) (cy_next_year cy)))
      (cm_cert ca) key (cm_key ca) = Inr leaf" "cy_marshal_key cy key = Inr kder"
    using mintLeaf_Done [OF ca(2)] by blast
  let ?t = "addHosts (cy_parseIP cy) hosts (leaf_template n (cy_now cy) (cy_next_year cy))"
  have t: "tm_DNSNames ?t = filter (\<lambda>h. cy_parseIP cy h = None) (host_names hosts)"
    "tm_IPAddresses ?t = List.map_filter (cy_parseIP cy) (host_names hosts)" "\<not> tm_IsCA ?t"
    by (simp_all add: addHosts_names leaf_template_def)
  obtain tc where tc: "cy_create cy tc tc (cm_key ca) (cm_key ca) = Inr (cm_der ca)" "tm_IsCA tc"
    "cy_parse cy (cm_der ca) = Inr (cm_cert ca)"
    using mintCA_Done [OF ca(1)] by blast
  note files = writeMaterial_ok [OF w]
  show ?thesis
    by (rule disjI2, rule exI [of _ ca], rule exI [of _ leaf], rule exI [of _ key], rule exI [of _ kder],
        rule exI [of _ ?t]) (use leaf t tc files in blast)
qed

text \<open>
  The reuse only looks at the server certificate. Where the write of the key fails, a later run without
  force reports success and the key is still missing.
\<close>

lemma partial_material_reused:
  assumes "dk_mkdir dk' = None" "files' CertFile \<noteq> None" "files' KeyFile = None"
  shows "Generate cy dk' hosts False files' = Done (None, files')"
  using assms by (auto simp: Generate_def)

lemma key_write_failure_leaves_chain:
  assumes "dk_write dk CAFile = None" "dk_write dk CertFile = None" "dk_write dk KeyFile = Some (e, None)"
  shows "fst (writeMaterial dk ca leaf key files) = Some e
    \<and> snd (writeMaterial dk ca leaf key files) CertFile \<noteq> None
    \<and> snd (writeMaterial dk ca leaf key files) KeyFile = None"
proof -
  have "CAFile \<noteq> CertFile" "CAFile \<noteq> KeyFile" "CertFile \<noteq> KeyFile" by (simp_all add: file_names)
  then show ?thesis using assms by (simp add: writeMaterial_def writePEM_def write_file_def)
qed

section \<open>Witnesses\<close>

definition demo_crypto :: crypto where
  "demo_crypto = \<lparr>cy_ca_key = Inr 1, cy_leaf_key = Inr 2, cy_ca_serial = Inr 7, cy_leaf_serial = Inr 8,
     cy_create = (\<lambda>t p k s. Inr (tm_CommonName t)), cy_parse = (\<lambda>_. Inr (ca_template 7 0 id)),
     cy_marshal_key = (\<lambda>k. Inr ''key''), cy_parseIP = (\<lambda>h. if h = ''::1'' then Some h else None), cy_now = 0, cy_next_year = id\<rparr>"

definition demo_disk :: disk where
  "demo_disk = \<lparr>dk_mkdir = None, dk_write = (\<lambda>_. None), dk_read = (\<lambda>_. None)\<rparr>"

theorem certs_consistent_witness:
  "\<exists>files' (ca :: caMaterial) leaf. Generate demo_crypto demo_disk [''edge'', '' ::1''] False Map.empty = Done (None, files') \<and>
     map_option fst (files' CertFile) = Some (pemBytes ''CERTIFICATE'' leaf @ pemBytes ''CERTIFICATE'' (cm_der ca))"
proof -
  obtain files' where g: "Generate demo_crypto demo_disk [''edge'', '' ::1''] False Map.empty = Done (None, files')"
    by (simp add: Generate_def demo_crypto_def demo_disk_def mintCA_def mintLeaf_def serial_def writeMaterial_def
        writePEM_def write_file_def Let_def)
  then show ?thesis using certs_consistent [OF g] by auto
qed

end
