(* ===== verification/Ui_Flow.thy ===== *)
theory Ui_Flow
  imports Samples Go_Json Go_Slog
begin

text \<open>
  The live diagram of the control panel, \<^verbatim>\<open>internal/ui/ui.go\<close>: \<open>flowState\<close> and everything that updates
  it. The panel learns what happens from the log lines of the other processes, by substring tests,
  regular expressions and one JSON decoding; these are translated as they are. Counters are integers,
  a Go map is a partial map. Once a second \<open>publishFlow\<close> takes a snapshot and starts a new interval.
\<close>

section \<open>State\<close>

record flowState =
  fl_tunnelUp :: bool
  fl_tunnelKnown :: bool
  fl_connectors :: int
  fl_connectorReq :: "int \<rightharpoonup> int"
  fl_connectorP95 :: "int \<rightharpoonup> int"
  fl_connectorP99 :: "int \<rightharpoonup> int"
  fl_connectorErr :: "int \<rightharpoonup> int"
  fl_connectorLat :: "int \<rightharpoonup> int list"
  fl_impair :: string
  fl_clientReq :: int
  fl_clientFail :: int
  fl_edgeReq :: int
  fl_edge524 :: int
  fl_edge502 :: int
  fl_dReq :: int
  fl_d524 :: int
  fl_d502 :: int
  fl_edgeLatency :: "int list"
  fl_connOpened :: int
  fl_connClosed :: int
  fl_connOpenedTotal :: int
  fl_connClosedTotal :: int
  fl_connDropsTotal :: int
  fl_activeConns :: int
  fl_quicVersions :: "string \<rightharpoonup> int"
  fl_protos :: "string \<rightharpoonup> int"
  fl_zeroRTTAccept :: int
  fl_zeroRTTReject :: int

definition no_flow :: flowState where
  "no_flow = \<lparr>fl_tunnelUp = False, fl_tunnelKnown = False, fl_connectors = 0, fl_connectorReq = Map.empty,
     fl_connectorP95 = Map.empty, fl_connectorP99 = Map.empty, fl_connectorErr = Map.empty, fl_connectorLat = Map.empty, fl_impair = '''', fl_clientReq = 0,
     fl_clientFail = 0, fl_edgeReq = 0, fl_edge524 = 0, fl_edge502 = 0, fl_dReq = 0, fl_d524 = 0, fl_d502 = 0,
     fl_edgeLatency = [], fl_connOpened = 0, fl_connClosed = 0, fl_connOpenedTotal = 0,
     fl_connClosedTotal = 0, fl_connDropsTotal = 0, fl_activeConns = 0, fl_quicVersions = Map.empty,
     fl_protos = Map.empty, fl_zeroRTTAccept = 0, fl_zeroRTTReject = 0\<rparr>"

definition bump :: "('k \<rightharpoonup> int) \<Rightarrow> 'k \<Rightarrow> ('k \<rightharpoonup> int)" where
  \<comment> \<open>\<open>m[k]++\<close>, on a map made first where it is nil\<close>
  "bump m k = m(k \<mapsto> (case m k of None \<Rightarrow> 0 | Some n \<Rightarrow> n) + 1)"

section \<open>Numbers out of a line\<close>

definition atoi64 :: "string \<Rightarrow> int" where
  "atoi64 s = fst (parse_int64 s)"

definition extract_number :: "string \<Rightarrow> string \<Rightarrow> int" where
  "extract_number key line = (case find_digits_after (key_lit key) line of None \<Rightarrow> 0 | Some d \<Rightarrow> atoi64 d)"

definition extractElapsedMs :: "string \<Rightarrow> int" where
  "extractElapsedMs line = extract_number ''elapsed_ms'' line"

definition extractConnectorID :: "string \<Rightarrow> int" where
  "extractConnectorID line = extract_number ''connector_id'' line"

definition extractStatus :: "string \<Rightarrow> int" where
  "extractStatus line = extract_number ''status'' line"

definition re_space :: "char \<Rightarrow> bool" where
  \<comment> \<open>\<^verbatim>\<open>\s\<close>\<close>
  "re_space c \<longleftrightarrow> byte_of c \<in> {9, 10, 12, 13, 32}"

fun blastTotalRE :: "string \<Rightarrow> (string \<times> string) option" where
  \<comment> \<open>\<^verbatim>\<open>total=(\d+) fail=(\d+)\<close>, the leftmost match\<close>
  "blastTotalRE [] = None"
| "blastTotalRE (c # s) =
     (let rest = drop (length ''total='') (c # s); d1 = takeWhile is_digit rest;
          rest2 = drop (length '' fail='') (dropWhile is_digit rest); d2 = takeWhile is_digit rest2
      in if prefix ''total='' (c # s) \<and> d1 \<noteq> [] \<and> prefix '' fail='' (dropWhile is_digit rest) \<and> d2 \<noteq> []
         then Some (d1, d2) else blastTotalRE s)"

definition connDropRE :: "string \<Rightarrow> string option" where
  \<comment> \<open>\<^verbatim>\<open>^conn drops\s+(\d+)\<close>\<close>
  "connDropRE s =
     (let rest = drop (length ''conn drops'') s; d = takeWhile is_digit (dropWhile re_space rest) in
      if prefix ''conn drops'' s \<and> takeWhile re_space rest \<noteq> [] \<and> d \<noteq> [] then Some d else None)"

definition protoLineRE :: "string \<Rightarrow> (string \<times> string) option" where
  \<comment> \<open>\<^verbatim>\<open>^\s*(HTTP/\d\.\d)\s+(\d+)\<close>\<close>
  "protoLineRE s =
     (let t = dropWhile re_space s; name = take 8 t; rest = drop 8 t;
          d = takeWhile is_digit (dropWhile re_space rest) in
      if length name = 8 \<and> prefix ''HTTP/'' name \<and> is_digit (name ! 5) \<and> name ! 6 = CHR ''.'' \<and> is_digit (name ! 7)
         \<and> takeWhile re_space rest \<noteq> [] \<and> d \<noteq> []
      then Some (name, d) else None)"

section \<open>Samples\<close>

definition appendSample :: "int list \<Rightarrow> int \<Rightarrow> nat \<Rightarrow> int list" where
  "appendSample samples v keep = (let s = samples @ [v] in
     if keep < length s then drop (length s - keep) s else s)"

definition ui_rank :: "rat \<Rightarrow> nat \<Rightarrow> nat" where
  "ui_rank p n = (let idx = \<lfloor>p / 100 * of_int (int n - 1)\<rfloor> in
     if idx < 0 then 0 else if int n \<le> idx then n - 1 else nat idx)"

definition percentileMs :: "int list \<Rightarrow> rat \<Rightarrow> int" where
  "percentileMs samples p = (if samples = [] then 0 else sort samples ! ui_rank p (length samples))"

definition avgMs :: "int list \<Rightarrow> int" where
  \<comment> \<open>64-bit sum; the division truncates towards zero\<close>
  "avgMs samples = (if samples = [] then 0
     else let sum = foldl (\<lambda>a n. wrap64 (a + n)) 0 samples in sgn sum * (\<bar>sum\<bar> div int (length samples)))"

section \<open>Lines of the edge\<close>

definition observeEdgeProxied :: "string \<Rightarrow> flowState \<Rightarrow> flowState" where
  "observeEdgeProxied line f =
     (let ms = extractElapsedMs line; cid = extractConnectorID line;
          f1 = f\<lparr>fl_edgeReq := fl_edgeReq f + 1, fl_dReq := fl_dReq f + 1,
            fl_edgeLatency := appendSample (fl_edgeLatency f) ms 1024\<rparr>;
          f2 = (if 0 < cid then f1\<lparr>fl_connectorReq := bump (fl_connectorReq f1) cid,
              fl_connectorLat := (fl_connectorLat f1)(cid \<mapsto>
                appendSample (case fl_connectorLat f1 cid of None \<Rightarrow> [] | Some l \<Rightarrow> l) ms 512)\<rparr> else f1)
      in f2\<lparr>fl_tunnelUp := True, fl_tunnelKnown := True\<rparr>)"

definition observeEdgeOriginFailure :: "string \<Rightarrow> flowState \<Rightarrow> flowState" where
  "observeEdgeOriginFailure line f =
     (let status = extractStatus line; cid = extractConnectorID line;
          f1 = f\<lparr>fl_edgeReq := fl_edgeReq f + 1, fl_dReq := fl_dReq f + 1\<rparr>;
          f2 = (if status = 524 then f1\<lparr>fl_edge524 := fl_edge524 f1 + 1, fl_d524 := fl_d524 f1 + 1,
                  fl_tunnelUp := True, fl_tunnelKnown := True\<rparr>
                else f1\<lparr>fl_edge502 := fl_edge502 f1 + 1, fl_d502 := fl_d502 f1 + 1\<rparr>)
      in if 0 < cid then f2\<lparr>fl_connectorErr := bump (fl_connectorErr f2) cid\<rparr> else f2)"

definition observeEdgeNoConnector :: "flowState \<Rightarrow> flowState" where
  "observeEdgeNoConnector f = f\<lparr>fl_edgeReq := fl_edgeReq f + 1, fl_dReq := fl_dReq f + 1,
     fl_edge502 := fl_edge502 f + 1, fl_d502 := fl_d502 f + 1, fl_tunnelUp := False,
     fl_tunnelKnown := True, fl_connectors := 0\<rparr>"

definition observeEdgeConnectorState :: "string \<Rightarrow> flowState \<Rightarrow> flowState" where
  "observeEdgeConnectorState line f = (let n = extract_number ''connectors'' line in
     f\<lparr>fl_connectors := n, fl_tunnelUp := n > 0, fl_tunnelKnown := True\<rparr>)"

definition msg_is :: "string \<Rightarrow> string \<Rightarrow> bool" where
  \<comment> \<open>the line contains \<^verbatim>\<open>"msg":"..."\<close>\<close>
  "msg_is line m \<longleftrightarrow> contains line (key_lit ''msg'' @ dquote # m @ [dquote])"

definition observeEdgeLine :: "string \<Rightarrow> flowState \<Rightarrow> flowState" where
  "observeEdgeLine line f =
     (if msg_is line ''proxied'' then observeEdgeProxied line f
      else if msg_is line ''origin failure'' then observeEdgeOriginFailure line f
      else if msg_is line ''no connector'' then observeEdgeNoConnector f
      else if msg_is line ''connector registered'' \<or> msg_is line ''connector lost''
        then observeEdgeConnectorState line f
      else f)"

section \<open>Lines of the load harness\<close>

record blast_event =
  be_Event :: string
  be_Version :: string
  be_Used0RTT :: bool

definition blast_event_fields :: "(string \<times> blast_event setter) list" where
  "blast_event_fields = [(''event'', string_field be_Event_update), (''quic_version'', string_field be_Version_update),
     (''used_0rtt'', bool_field be_Used0RTT_update)]"

definition applyBlastEvent :: "string \<Rightarrow> string \<Rightarrow> bool \<Rightarrow> flowState \<Rightarrow> flowState" where
  "applyBlastEvent name version used0RTT f =
     (if name = ''conn_open'' then
        f\<lparr>fl_connOpened := fl_connOpened f + 1, fl_connOpenedTotal := fl_connOpenedTotal f + 1,
          fl_activeConns := fl_activeConns f + 1,
          fl_quicVersions := (if version = '''' then fl_quicVersions f else bump (fl_quicVersions f) version),
          fl_zeroRTTAccept := fl_zeroRTTAccept f + (if used0RTT then 1 else 0),
          fl_zeroRTTReject := fl_zeroRTTReject f + (if used0RTT then 0 else 1)\<rparr>
      else if name = ''conn_closed'' then
        f\<lparr>fl_connClosed := fl_connClosed f + 1, fl_connClosedTotal := fl_connClosedTotal f + 1,
          fl_activeConns := (if 0 < fl_activeConns f then fl_activeConns f - 1 else fl_activeConns f),
          fl_connDropsTotal := fl_connDropsTotal f + 1\<rparr>
      else f)"

definition observeBlastJSONLine :: "string \<Rightarrow> flowState \<Rightarrow> flowState option" where
  \<comment> \<open>\<open>None\<close> where the code returns false\<close>
  "observeBlastJSONLine line f =
     (if line = [] \<or> hd line \<noteq> CHR ''{'' then None
      else case unmarshal line of None \<Rightarrow> None
        | Some v \<Rightarrow> (case decode_struct blast_event_fields v \<lparr>be_Event = '''', be_Version = '''', be_Used0RTT = False\<rparr> of
            None \<Rightarrow> None
          | Some ev \<Rightarrow> Some (applyBlastEvent (be_Event ev) (be_Version ev) (be_Used0RTT ev) f)))"

definition observeBlastConnDrop :: "string \<Rightarrow> flowState \<Rightarrow> flowState option" where
  "observeBlastConnDrop line f = (case connDropRE (trim_space line) of None \<Rightarrow> None
     | Some d \<Rightarrow> Some (f\<lparr>fl_connDropsTotal := atoi64 d\<rparr>))"

definition observeBlastProtocolLine :: "string \<Rightarrow> flowState \<Rightarrow> flowState" where
  "observeBlastProtocolLine line f = (case protoLineRE line of None \<Rightarrow> f
     | Some (name, d) \<Rightarrow> f\<lparr>fl_protos := (fl_protos f)(name \<mapsto> atoi64 d)\<rparr>)"

definition observeBlastLine :: "string \<Rightarrow> flowState \<Rightarrow> flowState" where
  "observeBlastLine line f = (case observeBlastJSONLine line f of Some f' \<Rightarrow> f'
     | None \<Rightarrow> (case observeBlastConnDrop line f of Some f' \<Rightarrow> f' | None \<Rightarrow> observeBlastProtocolLine line f))"

definition observeBlast :: "string \<Rightarrow> flowState \<Rightarrow> flowState" where
  "observeBlast line f =
     (if prefix ''[blast]'' line
      then (case blastTotalRE line of None \<Rightarrow> f
        | Some (d1, d2) \<Rightarrow> f\<lparr>fl_clientReq := atoi64 d1, fl_clientFail := atoi64 d2\<rparr>)
      else observeBlastLine line f)"

definition isEdgeJSON :: "string \<Rightarrow> string \<Rightarrow> bool" where
  "isEdgeJSON src line \<longleftrightarrow> src = ''edge'' \<and> line \<noteq> [] \<and> hd line = CHR ''{''"

definition observe :: "string \<Rightarrow> string \<Rightarrow> flowState \<Rightarrow> flowState" where
  "observe src line f =
     (if src = ''blast'' then observeBlast line f
      else if \<not> isEdgeJSON src line then f
      else observeEdgeLine line f)"

section \<open>Publishing, resetting, polling\<close>

record serviceHealth =
  sh_CPU :: rat
  sh_Mem :: rat
  sh_Replicas :: int
  sh_Updated :: int

record flow_msg =
  fm_clientReq :: int
  fm_clientFail :: int
  fm_rps :: int
  fm_s524 :: int
  fm_s502 :: int
  fm_total :: int
  fm_t524 :: int
  fm_t502 :: int
  fm_avgMs :: int
  fm_p50Ms :: int
  fm_p95Ms :: int
  fm_p99Ms :: int
  fm_up :: bool
  fm_n :: int
  fm_known :: bool
  fm_connectorReq :: "int \<rightharpoonup> int"
  fm_connectorP95 :: "int \<rightharpoonup> int"
  fm_connectorP99 :: "int \<rightharpoonup> int"
  fm_connectorErr :: "int \<rightharpoonup> int"
  fm_originRps :: int
  fm_active :: int
  fm_openSec :: int
  fm_closedSec :: int
  fm_openTotal :: int
  fm_closedTotal :: int
  fm_dropsTotal :: int
  fm_versions :: "string \<rightharpoonup> int"
  fm_negotiated :: "string \<rightharpoonup> int"
  fm_zeroRTTAccept :: int
  fm_zeroRTTReject :: int
  fm_health :: "string \<rightharpoonup> serviceHealth"
  fm_impair :: string

definition flow_message :: "(string \<rightharpoonup> serviceHealth) \<Rightarrow> flowState \<Rightarrow> flow_msg" where
  "flow_message health f = \<lparr>fm_clientReq = fl_clientReq f, fm_clientFail = fl_clientFail f,
     fm_rps = fl_dReq f, fm_s524 = fl_d524 f, fm_s502 = fl_d502 f,
     fm_total = fl_edgeReq f, fm_t524 = fl_edge524 f, fm_t502 = fl_edge502 f,
     fm_avgMs = avgMs (fl_edgeLatency f), fm_p50Ms = percentileMs (fl_edgeLatency f) 50,
     fm_p95Ms = percentileMs (fl_edgeLatency f) 95, fm_p99Ms = percentileMs (fl_edgeLatency f) 99,
     fm_up = fl_tunnelUp f, fm_n = fl_connectors f, fm_known = fl_tunnelKnown f,
     fm_connectorReq = fl_connectorReq f,
     fm_connectorP95 = (\<lambda>i. map_option (\<lambda>l. percentileMs l 95) (fl_connectorLat f i)),
     fm_connectorP99 = (\<lambda>i. map_option (\<lambda>l. percentileMs l 99) (fl_connectorLat f i)),
     fm_connectorErr = fl_connectorErr f, fm_originRps = fl_dReq f - fl_d502 f,
     fm_active = fl_activeConns f, fm_openSec = fl_connOpened f, fm_closedSec = fl_connClosed f,
     fm_openTotal = fl_connOpenedTotal f, fm_closedTotal = fl_connClosedTotal f, fm_dropsTotal = fl_connDropsTotal f,
     fm_versions = fl_quicVersions f, fm_negotiated = fl_protos f,
     fm_zeroRTTAccept = fl_zeroRTTAccept f, fm_zeroRTTReject = fl_zeroRTTReject f,
     fm_health = health, fm_impair = fl_impair f\<rparr>"

definition publishFlow :: "(string \<rightharpoonup> serviceHealth) \<Rightarrow> flowState \<Rightarrow> flow_msg \<times> flowState" where
  \<comment> \<open>one tick: the message, and the state with the interval's counters cleared\<close>
  "publishFlow health f = (flow_message health f,
     f\<lparr>fl_dReq := 0, fl_d524 := 0, fl_d502 := 0, fl_connOpened := 0, fl_connClosed := 0, fl_edgeLatency := []\<rparr>)"

definition resetFlow :: "flowState \<Rightarrow> flowState" where
  "resetFlow f = no_flow\<lparr>fl_tunnelUp := fl_tunnelUp f, fl_tunnelKnown := fl_tunnelKnown f,
     fl_connectors := fl_connectors f, fl_impair := fl_impair f\<rparr>"

definition countLines :: "string \<Rightarrow> int" where
  "countLines s = int (length (filter (\<lambda>l. trim_space l \<noteq> '''') (split_on (CHR 0x0A) s)))"

definition pollConnectors :: "string option \<Rightarrow> flowState \<Rightarrow> flowState" where
  \<comment> \<open>one turn of the loop: the output of the process listing, \<open>None\<close> where the command fails\<close>
  "pollConnectors out f = (case out of None \<Rightarrow> f
     | Some s \<Rightarrow> (let n = countLines s in
         f\<lparr>fl_connectors := n, fl_tunnelKnown := True, fl_tunnelUp := n > 0\<rparr>))"

datatype flow_event = Line string string | Tick | Reset | Poll "string option" | SetImpair string

fun flow_apply :: "flow_event \<Rightarrow> flowState \<Rightarrow> flowState" where
  "flow_apply (Line src line) f = observe src line f"
| "flow_apply Tick f = snd (publishFlow Map.empty f)"
| "flow_apply Reset f = resetFlow f"
| "flow_apply (Poll out) f = pollConnectors out f"
| "flow_apply (SetImpair s) f = f\<lparr>fl_impair := s\<rparr>"

fun flow_run :: "flow_event list \<Rightarrow> flowState \<Rightarrow> flow_msg list \<times> flowState" where
  \<comment> \<open>the messages published on the way and the final state\<close>
  "flow_run [] f = ([], f)"
| "flow_run (ev # evs) f = (case flow_run evs (flow_apply ev f) of (ms, f') \<Rightarrow>
     ((if ev = Tick then fst (publishFlow Map.empty f) # ms else ms), f'))"

section \<open>Lemmas\<close>

definition sample_ok :: "nat \<Rightarrow> int list \<Rightarrow> bool" where
  "sample_ok keep s \<longleftrightarrow> length s \<le> keep"

lemma appendSample_last_n: "appendSample samples v keep = last_n keep (samples @ [v])"
  by (simp add: appendSample_def last_n_def Let_def)

lemma sliding_buffer:
  assumes "0 < keep"
  shows "sample_buffer (\<lambda>s. s) (\<lambda>v s. appendSample s v keep) (sample_ok keep) (\<lambda>_. keep)"
proof unfold_locales
  fix s :: "int list" and x
  assume s: "sample_ok keep s"
  show "x \<in> set (appendSample s x keep)"
    using assms by (cases keep) (simp_all add: appendSample_last_n last_n_def)
  show "set (appendSample s x keep) \<subseteq> insert x (set s)"
    using set_last_n [of keep "s @ [x]"] by (auto simp: appendSample_last_n)
  assume "length s < keep"
  then show "appendSample s x keep = s @ [x]" by (simp add: appendSample_def)
qed (simp_all add: sample_ok_def appendSample_last_n)

interpretation edge_lat: sample_buffer "\<lambda>s. s" "\<lambda>v s. appendSample s v 1024" "sample_ok 1024" "\<lambda>_. 1024"
  by (rule sliding_buffer) simp

interpretation conn_lat: sample_buffer "\<lambda>s. s" "\<lambda>v s. appendSample s v 512" "sample_ok 512" "\<lambda>_. 512"
  by (rule sliding_buffer) simp

lemma clamp_mono:
  "i \<le> j \<Longrightarrow> (if i < 0 then 0 else if int n \<le> i then n - 1 else nat i)
     \<le> (if j < 0 then 0 else if int n \<le> j then n - 1 else nat j)" for n :: nat
  by auto

interpretation ui_pct: percentiles ui_rank
proof unfold_locales
  fix n :: nat and p q :: rat
  assume n: "0 < n" and p: "0 \<le> p"
  show "ui_rank p n < n" using n by (auto simp: ui_rank_def Let_def)
  assume "p \<le> q"
  then have "p / 100 * of_int (int n - 1) \<le> q / 100 * of_int (int n - 1)"
    using n by (intro mult_right_mono divide_right_mono) auto
  then have "\<lfloor>p / 100 * of_int (int n - 1)\<rfloor> \<le> \<lfloor>q / 100 * of_int (int n - 1)\<rfloor>"
    by (rule floor_mono)
  then show "ui_rank p n \<le> ui_rank q n"
    unfolding ui_rank_def Let_def by (rule clamp_mono)
qed

lemma appendSample_fold: "fold (\<lambda>v s. appendSample s v keep) xs [] = last_n keep xs"
proof (induction xs rule: rev_induct)
  case (snoc x xs)
  then show ?case by (simp add: appendSample_last_n last_n_snoc)
qed (simp add: last_n_def)

section \<open>The invariant of the diagram\<close>

definition lat_ok :: "(int \<rightharpoonup> int list) \<Rightarrow> bool" where
  "lat_ok m \<longleftrightarrow> (\<forall>i l. m i = Some l \<longrightarrow> sample_ok 512 l)"

definition flow_inv :: "flowState \<Rightarrow> bool" where
  "flow_inv f \<longleftrightarrow> 0 \<le> fl_edge524 f \<and> 0 \<le> fl_edge502 f \<and> fl_edge524 f + fl_edge502 f \<le> fl_edgeReq f \<and>
     0 \<le> fl_d524 f \<and> 0 \<le> fl_d502 f \<and> fl_d524 f + fl_d502 f \<le> fl_dReq f \<and> fl_dReq f \<le> fl_edgeReq f \<and>
     sample_ok 1024 (fl_edgeLatency f) \<and> int (length (fl_edgeLatency f)) \<le> fl_dReq f - fl_d524 f - fl_d502 f \<and>
     lat_ok (fl_connectorLat f) \<and>
     0 \<le> fl_activeConns f \<and> fl_activeConns f \<le> fl_connOpenedTotal f \<and>
     fl_connOpenedTotal f - fl_connClosedTotal f \<le> fl_activeConns f \<and>
     fl_zeroRTTAccept f + fl_zeroRTTReject f = fl_connOpenedTotal f \<and>
     fl_connOpened f \<le> fl_connOpenedTotal f \<and> fl_connClosed f \<le> fl_connClosedTotal f"

lemma lat_ok_upd: "lat_ok m \<Longrightarrow> sample_ok 512 l \<Longrightarrow> lat_ok (m(i \<mapsto> l))"
  by (simp add: lat_ok_def)

lemma appendSample_ok: "0 < keep \<Longrightarrow> sample_ok keep (appendSample s v keep)"
  and appendSample_len: "length (appendSample s v keep) \<le> Suc (length s)"
  by (auto simp: sample_ok_def appendSample_def Let_def)

lemma flow_inv_proxied: "flow_inv f \<Longrightarrow> flow_inv (observeEdgeProxied line f)"
  using appendSample_len [of "fl_edgeLatency f" "extractElapsedMs line" 1024]
  by (auto simp: flow_inv_def observeEdgeProxied_def Let_def appendSample_ok lat_ok_upd)

lemma flow_inv_failure: "flow_inv f \<Longrightarrow> flow_inv (observeEdgeOriginFailure line f)"
  by (auto simp: flow_inv_def observeEdgeOriginFailure_def Let_def)

lemma flow_inv_edge: "flow_inv f \<Longrightarrow> flow_inv (observeEdgeLine line f)"
  by (auto simp: observeEdgeLine_def flow_inv_proxied flow_inv_failure)
    (auto simp: flow_inv_def observeEdgeNoConnector_def observeEdgeConnectorState_def Let_def)

lemma flow_inv_event: "flow_inv f \<Longrightarrow> flow_inv (applyBlastEvent n v u f)"
  by (auto simp: flow_inv_def applyBlastEvent_def)

lemma flow_inv_blast: "flow_inv f \<Longrightarrow> flow_inv (observeBlast line f)"
proof -
  assume f: "flow_inv f"
  have "flow_inv (f\<lparr>fl_connDropsTotal := n\<rparr>)" "flow_inv (f\<lparr>fl_protos := m\<rparr>)"
    "flow_inv (f\<lparr>fl_clientReq := n, fl_clientFail := k\<rparr>)" for n k m
    using f by (simp_all add: flow_inv_def)
  then show ?thesis
    using f by (auto simp: observeBlast_def observeBlastLine_def observeBlastJSONLine_def observeBlastConnDrop_def
        observeBlastProtocolLine_def flow_inv_event split: option.split)
qed

lemma flow_inv_apply: "flow_inv f \<Longrightarrow> flow_inv (flow_apply ev f)"
proof (cases ev)
  case (Line src line)
  assume "flow_inv f"
  then show ?thesis by (simp add: Line observe_def flow_inv_blast flow_inv_edge)
qed (auto simp: flow_inv_def publishFlow_def resetFlow_def no_flow_def pollConnectors_def lat_ok_def
      sample_ok_def Let_def split: option.split)

lemma flow_inv_run: "flow_run evs f = (ms, f') \<Longrightarrow> flow_inv f \<Longrightarrow> flow_inv f'"
  by (induction evs f arbitrary: ms rule: flow_run.induct) (auto split: prod.splits intro: flow_inv_apply)

lemma flow_inv_start: "flow_inv no_flow"
  by (simp add: flow_inv_def no_flow_def sample_ok_def lat_ok_def)

interpretation flow_sys: transition_system "\<lambda>f. f = no_flow" "\<lambda>f g. \<exists>ev. g = flow_apply ev f" flow_inv
  by unfold_locales (auto intro: flow_inv_apply flow_inv_start)

lemma pct_chain:
  "percentileMs l 50 \<le> percentileMs l 95 \<and> percentileMs l 95 \<le> percentileMs l 99"
proof (cases "l = []")
  case False
  then show ?thesis
    using ui_pct.monotone [of l 50 95] ui_pct.monotone [of l 95 99] by (simp add: percentileMs_def)
qed (simp add: percentileMs_def)

definition same_gap :: "flowState \<Rightarrow> flowState \<Rightarrow> bool" where
  \<comment> \<open>totals and interval counters moved together\<close>
  "same_gap f g \<longleftrightarrow> fl_edgeReq g - fl_dReq g = fl_edgeReq f - fl_dReq f
     \<and> fl_edge524 g - fl_d524 g = fl_edge524 f - fl_d524 f \<and> fl_edge502 g - fl_d502 g = fl_edge502 f - fl_d502 f"

lemma gap_edge: "same_gap f (observeEdgeLine line f)"
proof -
  have "same_gap f (observeEdgeProxied line f)" "same_gap f (observeEdgeOriginFailure line f)"
    "same_gap f (observeEdgeNoConnector f)" "same_gap f (observeEdgeConnectorState line f)" "same_gap f f"
    by (simp_all add: same_gap_def observeEdgeProxied_def observeEdgeOriginFailure_def
        observeEdgeNoConnector_def observeEdgeConnectorState_def Let_def)
  then show ?thesis by (simp add: observeEdgeLine_def)
qed

lemma gap_blast: "same_gap f (observeBlast line f)"
proof -
  have "same_gap f (applyBlastEvent n v u f)" "same_gap f (f\<lparr>fl_connDropsTotal := k\<rparr>)"
    "same_gap f (f\<lparr>fl_protos := m\<rparr>)" "same_gap f (f\<lparr>fl_clientReq := k, fl_clientFail := j\<rparr>)" "same_gap f f" for n v u k m j
    by (simp_all add: same_gap_def applyBlastEvent_def)
  then show ?thesis
    by (auto simp: observeBlast_def observeBlastLine_def observeBlastJSONLine_def observeBlastConnDrop_def
        observeBlastProtocolLine_def split: option.split)
qed

lemma gap_observe: "same_gap f (observe src line f)"
  by (simp add: observe_def gap_edge gap_blast) (simp add: same_gap_def)

lemma apply_keeps_gap:
  assumes "ev \<noteq> Reset"
  shows "fl_edgeReq (flow_apply ev f) - fl_dReq (flow_apply ev f)
      = fl_edgeReq f - fl_dReq f + (if ev = Tick then fl_dReq f else 0)
   \<and> fl_edge524 (flow_apply ev f) - fl_d524 (flow_apply ev f)
      = fl_edge524 f - fl_d524 f + (if ev = Tick then fl_d524 f else 0)
   \<and> fl_edge502 (flow_apply ev f) - fl_d502 (flow_apply ev f)
      = fl_edge502 f - fl_d502 f + (if ev = Tick then fl_d502 f else 0)"
proof (cases ev)
  case (Line src line)
  then show ?thesis using gap_observe [of f src line] by (simp add: same_gap_def)
qed (use assms in \<open>simp_all add: publishFlow_def pollConnectors_def Let_def split: option.split\<close>)

lemma messages_inv:
  assumes "flow_run evs f = (ms, f')" "flow_inv f" "m \<in> set ms"
  shows "\<exists>g. flow_inv g \<and> m = flow_message Map.empty g"
  using assms
proof (induction evs f arbitrary: ms rule: flow_run.induct)
  case (2 ev evs f)
  obtain ns where ns: "flow_run evs (flow_apply ev f) = (ns, f')"
    "ms = (if ev = Tick then fst (publishFlow Map.empty f) # ns else ns)"
    using "2.prems"(1) by (auto split: prod.splits)
  show ?case
  proof (cases "m \<in> set ns")
    case True
    then show ?thesis using "2.IH" [OF ns(1) flow_inv_apply [OF "2.prems"(2)]] by blast
  next
    case False
    then have "m = flow_message Map.empty f"
      using ns(2) "2.prems"(3) by (auto simp: publishFlow_def split: if_splits)
    then show ?thesis using "2.prems"(2) by blast
  qed
qed simp

section \<open>Properties\<close>

text \<open>C18: every message the panel publishes is consistent, whatever lines, polls and resets came before:
  the totals split into timeouts, bad gateways and the rest, so the origin's rate is never negative;
  an interval never counts more than the total; there are at least as many connections active as were
  opened and not closed and never a negative number; and the percentiles are in order.\<close>

theorem published_consistent:
  assumes "flow_run evs no_flow = (ms, f')" "m \<in> set ms"
  shows "0 \<le> fm_t524 m \<and> 0 \<le> fm_t502 m \<and> fm_t524 m + fm_t502 m \<le> fm_total m \<and>
    fm_rps m \<le> fm_total m \<and> 0 \<le> fm_originRps m \<and> fm_s524 m \<le> fm_originRps m \<and>
    0 \<le> fm_active m \<and> fm_openTotal m - fm_closedTotal m \<le> fm_active m \<and>
    fm_zeroRTTAccept m + fm_zeroRTTReject m = fm_openTotal m \<and>
    fm_p50Ms m \<le> fm_p95Ms m \<and> fm_p95Ms m \<le> fm_p99Ms m"
proof -
  have "\<exists>g. flow_inv g \<and> m = flow_message Map.empty g"
    using messages_inv [OF assms(1) flow_inv_start assms(2)] .
  then obtain g where "flow_inv g" "m = flow_message Map.empty g"
    by blast
  then show ?thesis
    using pct_chain [of "fl_edgeLatency g"] by (auto simp: flow_inv_def flow_message_def)
qed

text \<open>C19: no request falls between two intervals: over any sequence of lines, polls and ticks without a
  reset, the per-second counts published plus what the current interval holds add up to the growth of
  the totals, for all requests, timeouts and bad gateways alike.\<close>

theorem intervals_conserve:
  assumes "flow_run evs f = (ms, f')" "Reset \<notin> set evs"
  shows "sum_list (map fm_rps ms) + fl_dReq f' = fl_dReq f + (fl_edgeReq f' - fl_edgeReq f)
    \<and> sum_list (map fm_s524 ms) + fl_d524 f' = fl_d524 f + (fl_edge524 f' - fl_edge524 f)
    \<and> sum_list (map fm_s502 ms) + fl_d502 f' = fl_d502 f + (fl_edge502 f' - fl_edge502 f)"
  using assms
proof (induction evs f arbitrary: ms rule: flow_run.induct)
  case (2 ev evs f)
  obtain ns where ns: "flow_run evs (flow_apply ev f) = (ns, f')"
    "ms = (if ev = Tick then fst (publishFlow Map.empty f) # ns else ns)"
    using "2.prems"(1) by (auto split: prod.splits)
  then show ?case
    using "2.IH" [OF ns(1)] "2.prems"(2) apply_keeps_gap [of ev f]
    by (cases "ev = Tick") (auto simp: publishFlow_def flow_message_def)
qed simp

section \<open>A concrete run\<close>

definition demo_edge_line :: string where
  "demo_edge_line = ''{'' @ key_lit ''msg'' @ dquote # ''no connector'' @ [dquote] @ ''}''"

lemma demo_edge_line_msg:
  "msg_is demo_edge_line ''no connector''" "\<not> msg_is demo_edge_line ''proxied''"
  "\<not> msg_is demo_edge_line ''origin failure''" "hd demo_edge_line = CHR ''{''" "demo_edge_line \<noteq> []"
  by code_simp+

lemma demo_flow:
  "flow_run [Line ''edge'' demo_edge_line, Tick] no_flow
   = ([flow_message Map.empty (observeEdgeNoConnector no_flow)], snd (publishFlow Map.empty (observeEdgeNoConnector no_flow)))"
  by (simp add: observe_def isEdgeJSON_def observeEdgeLine_def demo_edge_line_msg publishFlow_def)

theorem published_consistent_witness:
  "let m = flow_message Map.empty (observeEdgeNoConnector no_flow) in fm_total m = 1 \<and> 0 \<le> fm_originRps m"
proof -
  let ?m = "flow_message Map.empty (observeEdgeNoConnector no_flow)"
  have "0 \<le> fm_originRps ?m" using published_consistent [OF demo_flow, of ?m] by simp
  then show ?thesis by (simp add: Let_def flow_message_def observeEdgeNoConnector_def no_flow_def)
qed

theorem intervals_conserve_witness:
  "sum_list (map fm_rps [flow_message Map.empty (observeEdgeNoConnector no_flow)]) + 0 = 0 + (1 - 0)"
  using intervals_conserve [OF demo_flow]
  by (simp add: publishFlow_def observeEdgeNoConnector_def no_flow_def)

end
