(* ===== verification/Ui_Control.thy ===== *)
theory Ui_Control
  imports Ui_Flow Go_Errors Go_Http Udpsock
begin

text \<open>
  The server of the control panel, \<^verbatim>\<open>internal/ui/hub.go\<close> and the plumbing of \<^verbatim>\<open>internal/ui/ui.go\<close>: the
  hub that fans messages out to the browsers, the per-source rate limit on log lines, the single slot
  for a running action, the followers of the container logs, and the pollers of kernel counters and
  container health.
\<close>

section \<open>The hub\<close>

type_synonym 'm hub = "nat \<rightharpoonup> 'm list"
  \<comment> \<open>the subscribers' channels with what is buffered in each; a channel is its pointer\<close>

definition newHub :: "'m hub" where "newHub = Map.empty"

definition hub_sub :: "nat \<Rightarrow> 'm hub \<Rightarrow> 'm hub" where
  "hub_sub c h = h(c \<mapsto> [])"

definition hub_unsub :: "nat \<Rightarrow> 'm hub \<Rightarrow> 'm hub" where
  "hub_unsub c h = h(c := None)"

definition buffer_size :: nat where "buffer_size = 512"

definition hub_publish :: "'m \<Rightarrow> 'm hub \<Rightarrow> 'm hub" where
  \<comment> \<open>a full buffer drops the message instead of blocking\<close>
  "hub_publish b h = (\<lambda>c. map_option (\<lambda>q. if length q < buffer_size then q @ [b] else q) (h c))"

definition hub_recv :: "nat \<Rightarrow> 'm hub \<Rightarrow> ('m \<times> 'm hub) option" where
  \<comment> \<open>\<open>handleEvents\<close> takes the next message of its own channel, where there is one\<close>
  "hub_recv c h = (case h c of Some (b # q) \<Rightarrow> Some (b, h(c \<mapsto> q)) | _ \<Rightarrow> None)"

section \<open>The rate limit\<close>

definition linesPerSecond :: int where "linesPerSecond = 120"

record bucket =
  bk_window :: int
  bk_count :: int
  bk_suppressed :: int

definition suppressed_note :: "int \<Rightarrow> string" where
  "suppressed_note n = ''... '' @ itoa n @ '' more lines suppressed (UI rate limit)''"

definition bucket_for :: "int \<Rightarrow> string \<Rightarrow> (string \<rightharpoonup> bucket) \<Rightarrow> bucket" where
  "bucket_for now src rate = (case rate src of Some b \<Rightarrow> b
     | None \<Rightarrow> \<lparr>bk_window = now, bk_count = 0, bk_suppressed = 0\<rparr>)"

definition allow :: "int \<Rightarrow> string \<Rightarrow> (string \<rightharpoonup> bucket) \<Rightarrow> (bool \<times> string) \<times> (string \<rightharpoonup> bucket)" where
  \<comment> \<open>\<open>now\<close> is the clock, read once; the code's two or three readings are taken to agree\<close>
  "allow now src rate =
     (let b = bucket_for now src rate;
          roll = second \<le> time_sub now (bk_window b);
          note = (if roll \<and> 0 < bk_suppressed b then suppressed_note (bk_suppressed b) else '''');
          b1 = (if roll then \<lparr>bk_window = now, bk_count = 0, bk_suppressed = 0\<rparr> else b);
          b2 = b1\<lparr>bk_count := bk_count b1 + 1\<rparr>
      in if linesPerSecond < bk_count b2
         then ((False, note), rate(src \<mapsto> b2\<lparr>bk_suppressed := bk_suppressed b2 + 1\<rparr>))
         else ((True, note), rate(src \<mapsto> b2)))"

record log_entry =
  lm_src :: string
  lm_line :: string

definition log_messages :: "bool \<times> string \<Rightarrow> string \<Rightarrow> string \<Rightarrow> log_entry list" where
  "log_messages r src line =
     (if snd r \<noteq> '''' then [\<lparr>lm_src = src, lm_line = snd r\<rparr>] else [])
     @ (if fst r then [\<lparr>lm_src = src, lm_line = line\<rparr>] else [])"

record ui_state =
  ui_flow :: flowState
  ui_rate :: "string \<rightharpoonup> bucket"
  ui_log :: "log_entry list" \<comment> \<open>the log messages handed to the hub\<close>
  ui_running :: "string option" \<comment> \<open>\<open>cancel\<close> and \<open>current\<close>: the action in the slot\<close>
  ui_cancelled :: bool \<comment> \<open>whether its context has been cancelled\<close>
  ui_status :: "(bool \<times> string) list" \<comment> \<open>the status messages handed to the hub\<close>
  ui_health :: "string \<rightharpoonup> serviceHealth"

definition new_server :: ui_state where
  "new_server = \<lparr>ui_flow = no_flow, ui_rate = Map.empty, ui_log = [], ui_running = None, ui_cancelled = False,
     ui_status = [], ui_health = Map.empty\<rparr>"

definition ui_line :: "int \<Rightarrow> string \<Rightarrow> string \<Rightarrow> ui_state \<Rightarrow> ui_state" where
  \<comment> \<open>\<open>log\<close>: observe first, then the rate limit\<close>
  "ui_line now src line s =
     (case allow now src (ui_rate s) of (r, rate) \<Rightarrow>
       s\<lparr>ui_flow := observe src line (ui_flow s), ui_rate := rate,
         ui_log := ui_log s @ log_messages r src line\<rparr>)"

fun scan_lines_from :: "(int \<times> string) list \<Rightarrow> string \<Rightarrow> ui_state \<Rightarrow> ui_state" where
  "scan_lines_from [] src s = s"
| "scan_lines_from ((now, line) # ls) src s = scan_lines_from ls src (ui_line now src line s)"

definition ui_scan :: "(int \<times> string) list \<Rightarrow> (int \<times> goerr) option \<Rightarrow> string \<Rightarrow> ui_state \<Rightarrow> ui_state" where
  \<comment> \<open>\<open>scan\<close> over the lines of a reader, each with the time it is handled, and the scanner's error\<close>
  "ui_scan ls err src s = (let s' = scan_lines_from ls src s in
     case err of None \<Rightarrow> s' | Some (now, e) \<Rightarrow> ui_line now src (''scan error: '' @ err_text e) s')"

datatype tail_round = NotStarted | Followed "(int \<times> string) list" "(int \<times> goerr) option"
  \<comment> \<open>a round of \<open>tailLogs\<close>: the command cannot be started, or its output is read to the end\<close>

fun tailLogs :: "string \<Rightarrow> tail_round list \<Rightarrow> ui_state \<Rightarrow> ui_state" where
  "tailLogs service [] s = s"
| "tailLogs service (NotStarted # rs) s = tailLogs service rs s"
| "tailLogs service (Followed ls err # rs) s = tailLogs service rs (ui_scan ls err service s)"

section \<open>The run slot\<close>

definition status_message :: "bool \<Rightarrow> string \<Rightarrow> ui_state \<Rightarrow> ui_state" where
  "status_message running name s = s\<lparr>ui_status := ui_status s @ [(running, name)]\<rparr>"

definition ui_start :: "string \<Rightarrow> ui_state \<Rightarrow> goerr + ui_state" where
  "ui_start name s = (case ui_running s of Some _ \<Rightarrow> Inl (new_error ''a run is already in progress'')
     | None \<Rightarrow> Inr (status_message True name (s\<lparr>ui_running := Some name, ui_cancelled := False\<rparr>)))"

definition ui_finish :: "ui_state \<Rightarrow> ui_state" where
  \<comment> \<open>the goroutine's end, after the action has returned\<close>
  "ui_finish s = status_message False '''' (s\<lparr>ui_running := None\<rparr>)"

definition sse_frame :: "string option \<Rightarrow> string" where
  \<comment> \<open>what \<open>handleEvents\<close> writes for a message of its channel, and for a tick of its ping\<close>
  "sse_frame b = (case b of Some m \<Rightarrow> ''data: '' @ m | None \<Rightarrow> '': ping'') @ [CHR 0x0A, CHR 0x0A]"

definition handleStop :: "int \<Rightarrow> ui_state \<Rightarrow> int \<times> ui_state" where
  "handleStop now s = (204, ui_line now ''ui'' ''stop requested''
     (if ui_running s \<noteq> None then s\<lparr>ui_cancelled := True\<rparr> else s))"

definition handleReset :: "int \<Rightarrow> ui_state \<Rightarrow> int \<times> ui_state" where
  "handleReset now s = (204, ui_line now ''ui'' ''new test: counters reset''
     (s\<lparr>ui_flow := resetFlow (ui_flow s)\<rparr>))"

section \<open>Pollers\<close>

record udp4 =
  u4_in :: u64
  u4_out :: u64
  u4_rcv :: u64
  u4_snd :: u64

definition zero_udp4 :: udp4 where "zero_udp4 = \<lparr>u4_in = 0, u4_out = 0, u4_rcv = 0, u4_snd = 0\<rparr>"

definition lenient_values :: "string list \<Rightarrow> string list \<Rightarrow> (string \<rightharpoonup> u64)" where
  \<comment> \<open>unlike \<open>parseCounters\<close>, a value that does not parse is stored as what the parser returned\<close>
  "lenient_values hdr fs = foldl (\<lambda>m (name, f). m(name \<mapsto> fst (parse_uint64 f))) Map.empty (zip (tl hdr) (tl fs))"

fun snmp_lines :: "string list option \<Rightarrow> string list \<Rightarrow> udp4 \<times> bool" where
  "snmp_lines hdr [] = (zero_udp4, False)"
| "snmp_lines hdr (line # ls) =
     (if \<not> prefix ''Udp:'' line then snmp_lines hdr ls
      else (case hdr of None \<Rightarrow> snmp_lines (Some (str_fields line)) ls
        | Some h \<Rightarrow> (let v = lenient_values h (str_fields line) in
            (\<lparr>u4_in = map_get v ''InDatagrams'', u4_out = map_get v ''OutDatagrams'',
              u4_rcv = map_get v ''RcvbufErrors'', u4_snd = map_get v ''SndbufErrors''\<rparr>, True))))"

definition parseUDPSNMP :: "string \<Rightarrow> udp4 \<times> bool" where
  "parseUDPSNMP snmp = snmp_lines None (split_on (CHR 0x0A) snmp)"

definition udp4_sub :: "udp4 \<Rightarrow> udp4 \<Rightarrow> udp4" where
  "udp4_sub cur prev = \<lparr>u4_in = u4_in cur - u4_in prev, u4_out = u4_out cur - u4_out prev,
     u4_rcv = u4_rcv cur - u4_rcv prev, u4_snd = u4_snd cur - u4_snd prev\<rparr>"

fun pollUDP :: "udp4 \<Rightarrow> string option list \<Rightarrow> (udp4 \<times> udp4) list" where
  \<comment> \<open>the deltas published, each with the current totals; \<open>None\<close> where the command fails\<close>
  "pollUDP prev [] = []"
| "pollUDP prev (out # outs) =
     (case out of None \<Rightarrow> pollUDP prev outs
      | Some s \<Rightarrow> (case parseUDPSNMP s of (_, False) \<Rightarrow> pollUDP prev outs
          | (cur, True) \<Rightarrow> (if prev \<noteq> zero_udp4 then [(udp4_sub cur prev, cur)] else []) @ pollUDP cur outs))"

definition container_ids :: "string \<Rightarrow> string list" where
  "container_ids out = filter (\<lambda>l. l \<noteq> '''') (map trim_space (split_on (CHR 0x0A) out))"

definition parsePercent :: "(string \<Rightarrow> rat) \<Rightarrow> string \<Rightarrow> rat" where
  \<comment> \<open>the number parser, which gives 0 for what is no number, is an argument\<close>
  "parsePercent parseFloat s =
     parseFloat (trim_space (if suffix ''%'' s then butlast s else s))"

definition stats_row :: "(string \<Rightarrow> rat) \<Rightarrow> string \<Rightarrow> (rat \<times> rat) option" where
  "stats_row parseFloat line = (let l = trim_space line; parts = split_on (CHR ''|'') l in
     if l = '''' \<or> length parts < 2 then None
     else Some (parsePercent parseFloat (parts ! 0), parsePercent parseFloat (parts ! 1)))"

definition max_row :: "rat \<times> rat \<Rightarrow> (rat \<times> rat) option \<Rightarrow> rat \<times> rat" where
  "max_row m row = (case row of None \<Rightarrow> m | Some (c, e) \<Rightarrow>
     (if c > fst m then c else fst m, if e > snd m then e else snd m))"

definition setServiceHealth :: "string \<Rightarrow> serviceHealth \<Rightarrow> ui_state \<Rightarrow> ui_state" where
  \<comment> \<open>the nil map of a new server reads as the empty one, so making it is no step of its own\<close>
  "setServiceHealth service health s = s\<lparr>ui_health := (ui_health s)(service \<mapsto> health)\<rparr>"

definition healthSnapshot :: "ui_state \<Rightarrow> (string \<rightharpoonup> serviceHealth)" where
  \<comment> \<open>the copy has the entries of the map when it is made\<close>
  "healthSnapshot s = ui_health s"

definition updateServiceHealth ::
  "(string \<Rightarrow> rat) \<Rightarrow> string option \<Rightarrow> (string list \<Rightarrow> string option) \<Rightarrow> int \<Rightarrow> string \<Rightarrow> ui_state \<Rightarrow> ui_state" where
  \<comment> \<open>the outputs of the listing and of the statistics command, and the clock\<close>
  "updateServiceHealth parseFloat ps stats now service s =
     (case ps of None \<Rightarrow> s
      | Some out \<Rightarrow>
        (let ids = container_ids out in
         if ids = [] then setServiceHealth service \<lparr>sh_CPU = 0, sh_Mem = 0, sh_Replicas = 0, sh_Updated = now\<rparr> s
         else (case stats ids of None \<Rightarrow> s
           | Some sout \<Rightarrow>
              (let m = foldl (\<lambda>m l. max_row m (stats_row parseFloat l)) (0, 0) (split_on (CHR 0x0A) sout) in
               setServiceHealth service \<lparr>sh_CPU = fst m, sh_Mem = snd m,
                 sh_Replicas = int (length ids), sh_Updated = now\<rparr> s))))"

record docker_round = \<comment> \<open>what the commands of one round print, and the clock\<close>
  dr_ps :: "string \<Rightarrow> string option"
  dr_stats :: "string list \<Rightarrow> string option"
  dr_now :: "string \<Rightarrow> int"

fun pollServiceHealth :: "(string \<Rightarrow> rat) \<Rightarrow> docker_round list \<Rightarrow> ui_state \<Rightarrow> ui_state" where
  "pollServiceHealth parseFloat [] s = s"
| "pollServiceHealth parseFloat (d # ds) s = pollServiceHealth parseFloat ds
     (fold (\<lambda>svc. updateServiceHealth parseFloat (dr_ps d svc) (dr_stats d) (dr_now d svc) svc)
        [''edge'', ''connector'', ''origin''] s)"

definition ui_tick :: "ui_state \<Rightarrow> flow_msg \<times> ui_state" where
  \<comment> \<open>a tick of the publishing goroutine on the server's own state\<close>
  "ui_tick s = (case publishFlow (healthSnapshot s) (ui_flow s) of (m, f) \<Rightarrow> (m, s\<lparr>ui_flow := f\<rparr>))"

section \<open>The reports of the UDP poller\<close>

definition udp4_add :: "udp4 \<Rightarrow> udp4 \<Rightarrow> udp4" where
  "udp4_add c d = \<lparr>u4_in = u4_in c + u4_in d, u4_out = u4_out c + u4_out d,
     u4_rcv = u4_rcv c + u4_rcv d, u4_snd = u4_snd c + u4_snd d\<rparr>"

interpretation udp4: delta_reports udp4_sub udp4_add
  by unfold_locales (simp add: udp4_sub_def udp4_add_def)

definition readings :: "string option list \<Rightarrow> udp4 list" where
  \<comment> \<open>the rounds in which the command succeeds and prints the counters\<close>
  "readings outs = map fst (filter snd (map parseUDPSNMP (List.map_filter id outs)))"

lemma readings_Cons: "readings (out # outs) = (case out of None \<Rightarrow> readings outs
   | Some s \<Rightarrow> (case parseUDPSNMP s of (_, False) \<Rightarrow> readings outs | (cur, True) \<Rightarrow> cur # readings outs))"
  by (auto simp: readings_def List.map_filter_simps split: option.split prod.split bool.split)

lemma pollUDP_reports:
  assumes "prev \<noteq> zero_udp4" "zero_udp4 \<notin> set (readings outs)"
  shows "pollUDP prev outs = zip (deltas udp4_sub prev (readings outs)) (readings outs)"
  using assms
proof (induction outs arbitrary: prev)
  case (Cons out outs)
  then show ?case by (auto simp: readings_Cons split: option.splits prod.splits bool.splits)
qed (simp add: readings_def List.map_filter_simps)

text \<open>
  Once the panel has a first reading that is not all zeros, the deltas it publishes add up to the last
  reading minus that one, and a round that fails is made up for by the next.
\<close>

lemma pollUDP_telescope:
  assumes "prev \<noteq> zero_udp4" "zero_udp4 \<notin> set (readings outs)"
  shows "foldl udp4_add (udp4_sub prev prev) (map fst (pollUDP prev outs)) = udp4_sub (last (prev # readings outs)) prev"
  using udp4.telescope [of prev "readings outs"] by (simp add: pollUDP_reports [OF assms])

section \<open>Runs of the hub\<close>

datatype 'm hub_op = Sub nat | Unsub nat | Publish 'm | Recv nat

fun hub_run :: "nat \<Rightarrow> 'm hub_op list \<Rightarrow> 'm hub \<Rightarrow> 'm list \<times> 'm hub" where
  \<comment> \<open>what the client of channel \<open>c\<close> has received, and the hub at the end\<close>
  "hub_run c [] h = ([], h)"
| "hub_run c (Sub d # ops) h = hub_run c ops (hub_sub d h)"
| "hub_run c (Unsub d # ops) h = hub_run c ops (hub_unsub d h)"
| "hub_run c (Publish b # ops) h = hub_run c ops (hub_publish b h)"
| "hub_run c (Recv d # ops) h = (case hub_recv d h of None \<Rightarrow> hub_run c ops h
     | Some (b, h') \<Rightarrow> (case hub_run c ops h' of (bs, h'') \<Rightarrow> ((if d = c then b # bs else bs), h'')))"

definition published :: "'m hub_op list \<Rightarrow> 'm list" where
  "published ops = concat (map (\<lambda>oper. case oper of Publish b \<Rightarrow> [b] | _ \<Rightarrow> []) ops)"

definition undisturbed :: "nat \<Rightarrow> 'm hub_op list \<Rightarrow> bool" where
  \<comment> \<open>the channel stays subscribed: channels are fresh pointers, and only its own handler removes it\<close>
  "undisturbed c ops \<longleftrightarrow> Sub c \<notin> set ops \<and> Unsub c \<notin> set ops"

lemma hub_get [simp]:
  "c \<noteq> d \<Longrightarrow> hub_sub d h c = h c" "c \<noteq> d \<Longrightarrow> hub_unsub d h c = h c"
  by (simp_all add: hub_sub_def hub_unsub_def)

lemma hub_publish_get:
  "h c = Some q \<Longrightarrow> hub_publish b h c = Some (if length q < buffer_size then q @ [b] else q)"
  by (simp add: hub_publish_def)

lemma hub_recv_other: "hub_recv d h = Some (b, h') \<Longrightarrow> d \<noteq> c \<Longrightarrow> h' c = h c"
  by (auto simp: hub_recv_def split: option.splits list.splits)

lemma hub_recv_own: "hub_recv c h = Some (b, h') \<Longrightarrow> h c = Some q \<Longrightarrow> h' c = Some (tl q) \<and> q = b # tl q"
  by (auto simp: hub_recv_def split: option.splits list.splits)

lemma published_simps [simp]:
  "published [] = []" "published (Sub d # ops) = published ops" "published (Unsub d # ops) = published ops"
  "published (Publish b # ops) = b # published ops" "published (Recv d # ops) = published ops"
  by (simp_all add: published_def)

lemma undisturbed_simps [simp]:
  "undisturbed c (Sub d # ops) \<longleftrightarrow> c \<noteq> d \<and> undisturbed c ops"
  "undisturbed c (Unsub d # ops) \<longleftrightarrow> c \<noteq> d \<and> undisturbed c ops"
  "undisturbed c (Publish b # ops) = undisturbed c ops" "undisturbed c (Recv d # ops) = undisturbed c ops"
  by (auto simp: undisturbed_def)

lemma hub_run_delivery_publish:
  assumes "subseq (got @ q') ((if length q < buffer_size then q @ [b] else q) @ ps)"
    and "length (if length q < buffer_size then q @ [b] else q) + length ps \<le> buffer_size \<longrightarrow>
      got @ q' = (if length q < buffer_size then q @ [b] else q) @ ps"
  shows "subseq (got @ q') (q @ b # ps) \<and>
    (length q + length (b # ps) \<le> buffer_size \<longrightarrow> got @ q' = q @ b # ps)"
proof (cases "length q < buffer_size")
  case False
  have "subseq (q @ ps) (q @ b # ps)"
    by (rule list_emb_append_mono) (auto intro: list_emb_Cons)
  moreover have "subseq (got @ q') (q @ ps)" using assms(1) False by (simp only: if_False)
  ultimately have "subseq (got @ q') (q @ b # ps)" by (rule subseq_order.trans [rotated])
  moreover have "\<not> length q + length (b # ps) \<le> buffer_size" using False by simp
  ultimately show ?thesis by blast
qed (use assms in simp)

definition delivered :: "nat \<Rightarrow> 'm list \<Rightarrow> 'm list \<Rightarrow> 'm list \<Rightarrow> 'm hub \<Rightarrow> bool" where
  \<comment> \<open>what was received and what is still buffered, against what was buffered before and published since\<close>
  "delivered c q ps got h \<longleftrightarrow> (\<exists>q'. h c = Some q' \<and> length q' \<le> buffer_size \<and> subseq (got @ q') (q @ ps) \<and>
     (length q + length ps \<le> buffer_size \<longrightarrow> got @ q' = q @ ps))"

lemma delivered_publish:
  "delivered c (if length q < buffer_size then q @ [b] else q) ps got h \<Longrightarrow> delivered c q (b # ps) got h"
proof -
  assume "delivered c (if length q < buffer_size then q @ [b] else q) ps got h"
  then obtain q' where q': "h c = Some q'" "length q' \<le> buffer_size"
    "subseq (got @ q') ((if length q < buffer_size then q @ [b] else q) @ ps)"
    "length (if length q < buffer_size then q @ [b] else q) + length ps \<le> buffer_size \<longrightarrow>
      got @ q' = (if length q < buffer_size then q @ [b] else q) @ ps"
    unfolding delivered_def by blast
  from hub_run_delivery_publish [OF q'(3,4)] show "delivered c q (b # ps) got h"
    using q'(1,2) unfolding delivered_def by blast
qed

lemma delivered_recv: "delivered c q ps got h \<Longrightarrow> delivered c (b # q) ps (b # got) h"
  by (auto simp: delivered_def)

lemma hub_run_delivery:
  assumes "hub_run c ops h = (got, h')" "undisturbed c ops" "h c = Some q" "length q \<le> buffer_size"
  shows "delivered c q (published ops) got h'"
  using assms
proof (induction c ops h arbitrary: got q rule: hub_run.induct)
  case (1 c h)
  then show ?case by (simp add: delivered_def subseq_order.refl)
next
  case (4 c b ops h)
  have "delivered c (if length q < buffer_size then q @ [b] else q) (published ops) got h'"
    using "4.IH" [OF _ _ hub_publish_get [of h c q b, OF "4.prems"(3)]] "4.prems"(1,2,4) by auto
  then show ?case by (simp only: published_simps delivered_publish)
next
  case (5 c d ops h)
  show ?case
  proof (cases "hub_recv d h")
    case (Some r)
    obtain b h1 where r: "hub_recv d h = Some (b, h1)" using Some by (cases r) auto
    obtain bs where bs: "hub_run c ops h1 = (bs, h')" "got = (if d = c then b # bs else bs)"
      using "5.prems"(1) r by (auto split: prod.splits)
    show ?thesis
    proof (cases "d = c")
      case True
      then obtain p where "h1 c = Some p" "q = b # p"
        using hub_recv_own [of c h b h1 q] r "5.prems"(3) by metis
      then show ?thesis
        using "5.IH"(2) [OF r refl bs(1), of p] "5.prems"(2,4) bs(2) True by (simp add: delivered_recv)
    next
      case False
      then show ?thesis
        using "5.IH"(2) [OF r refl bs(1), of q] "5.prems" bs(2) hub_recv_other [OF r] by simp
    qed
  qed (use "5.IH"(1) "5.prems" in simp)
qed simp_all

section \<open>The event stream\<close>

datatype sse_event = Ready | PingTick | Elsewhere "string hub_op"
  \<comment> \<open>the cases of the select statement, and what the other goroutines do to the hub in between\<close>

fun hub_step :: "'m hub_op \<Rightarrow> 'm hub \<Rightarrow> 'm hub" where
  "hub_step (Sub d) h = hub_sub d h"
| "hub_step (Unsub d) h = hub_unsub d h"
| "hub_step (Publish b) h = hub_publish b h"
| "hub_step (Recv d) h = (case hub_recv d h of None \<Rightarrow> h | Some (_, h') \<Rightarrow> h')"

fun events_loop :: "nat \<Rightarrow> sse_event list \<Rightarrow> string hub \<Rightarrow> string list \<times> string hub" where
  \<comment> \<open>the frames written until the request's context is done; the channel is removed on return\<close>
  "events_loop c [] h = ([], hub_unsub c h)"
| "events_loop c (Ready # evs) h = (case hub_recv c h of None \<Rightarrow> events_loop c evs h
     | Some (b, h') \<Rightarrow> (case events_loop c evs h' of (fs, h'') \<Rightarrow> (sse_frame (Some b) # fs, h'')))"
| "events_loop c (PingTick # evs) h = (case events_loop c evs h of (fs, h') \<Rightarrow> (sse_frame None # fs, h'))"
| "events_loop c (Elsewhere oper # evs) h = events_loop c evs (hub_step oper h)"

definition status_json :: "ui_state \<Rightarrow> string" where
  "status_json s = (case ui_running s of
     Some name \<Rightarrow> marshal_object [(''name'', EStr name), (''running'', EBool True), (''t'', EStr ''status'')]
   | None \<Rightarrow> marshal_object [(''name'', EStr ''''), (''running'', EBool False), (''t'', EStr ''status'')])"

definition handleEvents :: "bool \<Rightarrow> nat \<Rightarrow> ui_state \<Rightarrow> string hub_op list \<Rightarrow> sse_event list \<Rightarrow> string hub \<Rightarrow> (response \<times> string list) \<times> string hub" where
  \<comment> \<open>arguments: whether the writer can flush, the fresh channel, what others do to the hub before the
    handler publishes the status, and the cases of its loop\<close>
  "handleEvents flusher c s prior evs h =
     (if \<not> flusher then ((write_body (''streaming unsupported'' @ [CHR 0x0A]) (write_header 500
          (set_header ''X-Content-Type-Options'' ''nosniff'' (set_header ''Content-Type'' ''text/plain; charset=utf-8'' no_response))), []), h)
      else case events_loop c evs (hub_publish (status_json s) (fold hub_step prior (hub_sub c h))) of (fs, h') \<Rightarrow>
        ((set_header ''Connection'' ''keep-alive'' (set_header ''Cache-Control'' ''no-cache''
           (set_header ''Content-Type'' ''text/event-stream'' no_response)), fs), h'))"

fun foreign :: "nat \<Rightarrow> sse_event \<Rightarrow> bool" where
  \<comment> \<open>the channel is a fresh pointer that only its own handler holds\<close>
  "foreign c (Elsewhere oper) \<longleftrightarrow> oper \<notin> {Sub c, Unsub c, Recv c}"
| "foreign c _ \<longleftrightarrow> True"

fun events_ops :: "nat \<Rightarrow> sse_event list \<Rightarrow> string hub_op list" where
  "events_ops c [] = []"
| "events_ops c (Ready # evs) = Recv c # events_ops c evs"
| "events_ops c (PingTick # evs) = events_ops c evs"
| "events_ops c (Elsewhere oper # evs) = oper # events_ops c evs"

lemma foreign_undisturbed: "list_all (foreign c) evs \<Longrightarrow> undisturbed c (events_ops c evs)"
  by (induction c evs rule: events_ops.induct) (auto simp: undisturbed_def)

lemma foreign_ops_undisturbed: "list_all (foreign c) (map Elsewhere ops) \<Longrightarrow> undisturbed c ops"
  by (induction ops) (auto simp: undisturbed_def)

lemma hub_run_foreign: "oper \<noteq> Recv c \<Longrightarrow> hub_run c (oper # ops) h = hub_run c ops (hub_step oper h)"
  by (cases oper) (auto split: option.split prod.split)

lemma hub_run_others:
  "list_all (foreign c) (map Elsewhere prior) \<Longrightarrow> hub_run c (prior @ ops) h = hub_run c ops (fold hub_step prior h)"
  by (induction prior arbitrary: h) (simp_all del: hub_run.simps add: hub_run_foreign)

lemma data_frames [simp]: "prefix ''data: '' (sse_frame (Some b))" "\<not> prefix ''data: '' (sse_frame None)"
  by (simp_all add: sse_frame_def)

lemma events_loop_runs_hub:
  assumes "list_all (foreign c) evs" "events_loop c evs h = (frames, h')" "hub_run c (events_ops c evs) h = (got, h1)"
  shows "filter (prefix ''data: '') frames = map (\<lambda>m. sse_frame (Some m)) got \<and> h' = hub_unsub c h1"
  using assms
proof (induction c evs h arbitrary: frames got rule: events_loop.induct)
  case (2 c evs h)
  show ?case
  proof (cases "hub_recv c h")
    case (Some r)
    then show ?thesis using 2 by (cases r) (force split: prod.splits)
  qed (use 2 in simp)
next
  case (4 c oper evs h)
  then have "hub_run c (events_ops c evs) (hub_step oper h) = (got, h1)"
    by (simp add: hub_run_foreign)
  then show ?case using 4 by simp
qed (auto split: prod.splits)

section \<open>Runs of the rate limit\<close>

fun allow_run :: "int list \<Rightarrow> string \<Rightarrow> (string \<rightharpoonup> bucket) \<Rightarrow> (bool \<times> string) list \<times> (string \<rightharpoonup> bucket)" where
  "allow_run [] src rate = ([], rate)"
| "allow_run (now # nows) src rate = (case allow now src rate of (r, rate1) \<Rightarrow>
     (case allow_run nows src rate1 of (rs, rate2) \<Rightarrow> (r # rs, rate2)))"

definition passed :: "(bool \<times> string) list \<Rightarrow> nat" where
  "passed rs = length (filter fst rs)"

lemma allow_in_window:
  assumes "rate src = Some b" "now - bk_window b < second" "bk_window b \<le> now"
  shows "fst (fst (allow now src rate)) \<longleftrightarrow> bk_count b < linesPerSecond"
    "snd (allow now src rate) src = Some (b\<lparr>bk_count := bk_count b + 1,
       bk_suppressed := bk_suppressed b + (if bk_count b < linesPerSecond then 0 else 1)\<rparr>)"
proof -
  have "\<not> second \<le> time_sub now (bk_window b)"
    using assms(2,3) by (simp add: time_sub_def saturate64_def int64_defs)
  then show "fst (fst (allow now src rate)) \<longleftrightarrow> bk_count b < linesPerSecond"
    "snd (allow now src rate) src = Some (b\<lparr>bk_count := bk_count b + 1,
       bk_suppressed := bk_suppressed b + (if bk_count b < linesPerSecond then 0 else 1)\<rparr>)"
    using assms(1) by (simp_all add: allow_def bucket_for_def Let_def not_less)
qed

lemma allow_rolls:
  assumes "rate src = None \<or> (\<exists>b. rate src = Some b \<and> second \<le> time_sub now (bk_window b))"
  shows "fst (fst (allow now src rate))"
    "\<exists>b'. snd (allow now src rate) src = Some b' \<and> bk_window b' = now \<and> bk_count b' = 1"
  using assms by (auto simp: allow_def bucket_for_def Let_def linesPerSecond_def time_sub_def saturate64_def int64_defs)

lemma passed_in_window:
  assumes "allow_run nows src rate = (rs, rate')" "rate src = Some b" "0 \<le> bk_count b"
    and "\<forall>t\<in>set nows. bk_window b \<le> t \<and> t - bk_window b < second"
  shows "int (passed rs) \<le> max 0 (linesPerSecond - bk_count b)"
  using assms
proof (induction nows arbitrary: rate b rs)
  case (Cons now nows)
  obtain r rate1 rs1 where step: "allow now src rate = (r, rate1)" "allow_run nows src rate1 = (rs1, rate')" "rs = r # rs1"
    using Cons.prems(1) by (auto split: prod.splits)
  let ?b = "b\<lparr>bk_count := bk_count b + 1, bk_suppressed := bk_suppressed b + (if bk_count b < linesPerSecond then 0 else 1)\<rparr>"
  have w: "now - bk_window b < second" "bk_window b \<le> now" using Cons.prems(4) by auto
  have "rate1 src = Some ?b" "fst r \<longleftrightarrow> bk_count b < linesPerSecond"
    using allow_in_window [of rate src b now, OF Cons.prems(2) w] step(1) by auto
  moreover have "int (passed rs1) \<le> max 0 (linesPerSecond - bk_count ?b)"
    using Cons.IH [OF step(2) calculation(1)] Cons.prems by auto
  ultimately show ?case by (auto simp: step(3) passed_def linesPerSecond_def)
qed (simp add: passed_def)

lemma passed_after_start:
  assumes "allow_run nows src rate = (rs, rate')" "rate src = Some b" "bk_window b \<le> t0" "0 \<le> bk_count b"
    and "sorted nows" "\<forall>t\<in>set nows. t0 \<le> t \<and> t < t0 + second" "t0 - bk_window b < 2 ^ 62"
  shows "int (passed rs) \<le> max 0 (linesPerSecond - bk_count b) + linesPerSecond"
  using assms
proof (induction nows arbitrary: rate b rs)
  case (Cons now nows)
  obtain r rate1 rs1 where step: "allow now src rate = (r, rate1)" "allow_run nows src rate1 = (rs1, rate')" "rs = r # rs1"
    using Cons.prems(1) by (auto split: prod.splits)
  show ?case
  proof (cases "now - bk_window b < second")
    case True
    let ?b = "b\<lparr>bk_count := bk_count b + 1, bk_suppressed := bk_suppressed b + (if bk_count b < linesPerSecond then 0 else 1)\<rparr>"
    have w: "bk_window b \<le> now" using Cons.prems by auto
    have b1: "rate1 src = Some ?b" "fst r \<longleftrightarrow> bk_count b < linesPerSecond"
      using allow_in_window [of rate src b now, OF Cons.prems(2) True w] step(1) by auto
    then have "int (passed rs1) \<le> max 0 (linesPerSecond - bk_count ?b) + linesPerSecond"
      using Cons.IH [OF step(2) b1(1)] Cons.prems by auto
    then show ?thesis using b1(2) by (auto simp: step(3) passed_def linesPerSecond_def)
  next
    case False
    have "second \<le> time_sub now (bk_window b)"
      using False Cons.prems(3,6,7) by (auto simp: time_sub_def saturate64_def int64_defs)
    then obtain b' where b': "rate1 src = Some b'" "bk_window b' = now" "bk_count b' = 1" "fst r"
      using allow_rolls [of rate src now] Cons.prems(2) step(1) by auto
    have "int (passed rs1) \<le> max 0 (linesPerSecond - bk_count b')"
      using Cons.prems(5,6) by (intro passed_in_window [OF step(2) b'(1)]) (auto simp: b'(2,3))
    then show ?thesis using b' by (auto simp: step(3) passed_def linesPerSecond_def)
  qed
qed (simp add: passed_def linesPerSecond_def)

section \<open>The two readers of the kernel's table\<close>

lemma lenient_strict:
  assumes "list_all (\<lambda>f. snd (parse_uint64 f) = None) (tl fs)"
  shows "lenient_values hdr fs = row_values hdr fs"
proof -
  have "foldl (\<lambda>m (name, f). m(name \<mapsto> fst (parse_uint64 f))) m ps = foldl store_value m ps"
    if "\<forall>p\<in>set ps. snd (parse_uint64 (snd p)) = None" for ps :: "(string \<times> string) list" and m
    using that
  proof (induction ps arbitrary: m)
    case (Cons p ps)
    obtain name f n where "p = (name, f)" "parse_uint64 f = (n, None)"
      using Cons.prems by (cases p; cases "parse_uint64 (snd p)") auto
    then show ?case using Cons by (simp add: fun_upd_def cong: if_cong)
  qed simp
  moreover have "\<forall>p\<in>set (zip (tl hdr) (tl fs)). snd (parse_uint64 (snd p)) = None"
    using assms by (auto simp: list_all_iff dest: set_zip_rightD)
  ultimately show ?thesis by (simp add: lenient_values_def row_values_def)
qed

definition udp4_of :: "Counters \<Rightarrow> udp4" where
  "udp4_of c = \<lparr>u4_in = InDatagrams c, u4_out = OutDatagrams c, u4_rcv = RcvbufErrors c, u4_snd = SndbufErrors c\<rparr>"

definition clean_row :: "string \<Rightarrow> bool" where
  "clean_row line \<longleftrightarrow> (prefix ''Udp:'' line \<longrightarrow> list_all (\<lambda>f. snd (parse_uint64 f) = None) (tl (str_fields line)))"

lemma snmp_lines_agree:
  assumes "hdr \<noteq> None" "list_all clean_row ls"
  shows "snmp_lines hdr ls = (case parse_lines hdr ls of (c, good) \<Rightarrow> (udp4_of c, good))"
  using assms
proof (induction hdr ls rule: snmp_lines.induct)
  case (2 hdr line ls)
  then show ?case
    by (auto simp: clean_row_def lenient_strict udp4_of_def counters_of_def Let_def)
qed (simp add: zero_udp4_def udp4_of_def zero_counters_def)

lemma snmp_agree:
  assumes "list_all (\<lambda>l. \<not> prefix ''Udp:'' l) pre" "prefix ''Udp:'' hdr" "list_all clean_row ls"
  shows "snmp_lines None (pre @ hdr # ls) = (case parse_lines None (pre @ hdr # ls) of (c, good) \<Rightarrow> (udp4_of c, good))"
proof -
  have "snmp_lines None (pre @ hdr # ls) = snmp_lines (Some (str_fields hdr)) ls"
    "parse_lines None (pre @ hdr # ls) = parse_lines (Some (str_fields hdr)) ls"
    using assms(1,2) by (induction pre) auto
  then show ?thesis using snmp_lines_agree [OF _ assms(3)] by simp
qed

lemma snmp_lines_snoc_empty: "snmp_lines h (ls @ ['''']) = snmp_lines h ls"
  by (induction h ls rule: snmp_lines.induct) (auto split: option.split)

lemma split_table:
  "list_all (\<lambda>l. CHR 0x0A \<notin> set l) ls \<Longrightarrow>
     split_on (CHR 0x0A) (concat (map (\<lambda>l. l @ [CHR 0x0A]) ls)) = ls @ ['''']"
  by (induction ls) (simp_all add: split_on_append)

section \<open>Properties\<close>

text \<open>C30: a slow browser loses messages but never order, and never holds anybody up. Whatever the other
  goroutines do meanwhile, the data frames an event stream writes are, in order, messages published
  since it subscribed, the panel's status among them; as long as no more than 512 were published they
  are all of them up to some point. When the stream ends its channel is gone from the hub.\<close>

theorem event_stream_delivery:
  assumes "handleEvents True c s prior evs h = ((w, frames), h')" "list_all (foreign c) (map Elsewhere prior @ evs)"
  shows "h' c = None \<and> (\<exists>msgs. let sent = published prior @ status_json s # published (events_ops c evs) in
    filter (prefix ''data: '') frames = map (\<lambda>m. sse_frame (Some m)) msgs \<and> subseq msgs sent \<and>
    (length sent \<le> 512 \<longrightarrow> prefix msgs sent))"
proof -
  let ?ops = "prior @ Publish (status_json s) # events_ops c evs"
  let ?h = "hub_publish (status_json s) (fold hub_step prior (hub_sub c h))"
  have loop: "events_loop c evs ?h = (frames, h')"
    using assms(1) by (simp add: handleEvents_def split: prod.splits)
  obtain got h1 where run: "hub_run c (events_ops c evs) ?h = (got, h1)" by (metis surj_pair)
  have fs: "filter (prefix ''data: '') frames = map (\<lambda>m. sse_frame (Some m)) got" "h' = hub_unsub c h1"
    using events_loop_runs_hub [OF _ loop run] assms(2) by simp_all
  have "hub_run c ?ops (hub_sub c h) = (got, h1)"
    using run assms(2) by (simp add: hub_run_others)
  moreover have "undisturbed c ?ops"
    using foreign_ops_undisturbed [of c prior] foreign_undisturbed [of c evs] assms(2) by (auto simp: undisturbed_def)
  moreover have "hub_sub c h c = Some []" by (simp add: hub_sub_def)
  ultimately obtain q where q: "subseq (got @ q) (published ?ops)"
    "length (published ?ops) \<le> buffer_size \<longrightarrow> got @ q = published ?ops"
    using hub_run_delivery [of c ?ops "hub_sub c h" got h1 "[]"] by (auto simp: delivered_def)
  have pub: "published ?ops = published prior @ status_json s # published (events_ops c evs)"
    by (simp add: published_def)
  have "subseq got (published ?ops)" using q(1) by (metis list_emb_append2 list_emb_Nil append_Nil2 list_emb_append_mono subseq_order.order_trans subseq_order.order_refl)
  moreover have "prefix got (published ?ops)" if "length (published ?ops) \<le> 512"
    using q(2) that by (metis buffer_size_def prefixI)
  ultimately show ?thesis using fs unfolding Let_def pub by (auto simp: hub_unsub_def)
qed

theorem event_stream_delivery_witness:
  "\<exists>w frames h'. handleEvents True 1 new_server [Sub 2] [Ready, PingTick, Elsewhere (Publish ''x''), Ready] newHub = ((w, frames), h')
     \<and> h' 1 = None"
proof -
  obtain w frames h' where "handleEvents True 1 new_server [Sub 2] [Ready, PingTick, Elsewhere (Publish ''x''), Ready] newHub = ((w, frames), h')"
    by (metis surj_pair)
  then show ?thesis using event_stream_delivery [of 1 new_server "[Sub 2]" "[Ready, PingTick, Elsewhere (Publish ''x''), Ready]" newHub] by auto
qed

text \<open>C31: the browser is never flooded: in any stretch of one second a source gets at most 240 lines
  through, two budgets of 120, however many it writes and wherever its window started.\<close>

theorem rate_limit_bound:
  assumes "allow_run nows src rate = (rs, rate')" "sorted nows" "\<forall>t\<in>set nows. t0 \<le> t \<and> t < t0 + second"
    and "\<forall>b. rate src = Some b \<longrightarrow> bk_window b \<le> t0 \<and> t0 - bk_window b < 2 ^ 62 \<and> 0 \<le> bk_count b"
  shows "int (passed rs) \<le> 2 * linesPerSecond"
proof (cases "rate src")
  case (Some b)
  then show ?thesis
    using passed_after_start [OF assms(1) Some _ _ assms(2,3)] assms(4) by (auto simp: linesPerSecond_def)
next
  case None
  show ?thesis
  proof (cases nows)
    case Nil
    then show ?thesis using assms(1) by (simp add: passed_def linesPerSecond_def)
  next
    case (Cons now ts)
    obtain r rate1 rs1 where step: "allow now src rate = (r, rate1)" "allow_run ts src rate1 = (rs1, rate')" "rs = r # rs1"
      using assms(1) by (auto simp: Cons split: prod.splits)
    obtain b' where b': "rate1 src = Some b'" "bk_window b' = now" "bk_count b' = 1"
      using allow_rolls(2) [of rate src now] None step(1) by auto
    have "int (passed rs1) \<le> max 0 (linesPerSecond - bk_count b')"
      using assms(2,3) by (intro passed_in_window [OF step(2) b'(1)]) (auto simp: b' Cons)
    then show ?thesis using b' by (auto simp: step(3) passed_def linesPerSecond_def)
  qed
qed

theorem rate_limit_bound_witness:
  "int (passed (fst (allow_run (replicate 3 7) ''edge'' Map.empty))) \<le> 2 * linesPerSecond"
proof -
  obtain rs rate' where r: "allow_run (replicate 3 7) ''edge'' Map.empty = (rs, rate')"
    by (cases "allow_run (replicate 3 7) ''edge'' Map.empty")
  from rate_limit_bound [OF r, of 7] show ?thesis unfolding r by simp
qed

text \<open>C38: the panel and the other programs read the kernel's counters alike: on a table whose rows are
  well formed, the panel's own parser returns the same four counters and the same success flag as
  \<open>parseCounters\<close>.\<close>

theorem snmp_parsers_agree:
  assumes "list_all (plain_line max_scan_token) (pre @ hdr # ls)" "list_all (\<lambda>l. \<not> prefix ''Udp:'' l) pre"
    and "prefix ''Udp:'' hdr" "list_all clean_row ls"
  shows "let file = concat (map (\<lambda>l. l @ [CHR 0x0A]) (pre @ hdr # ls)) in
    parseUDPSNMP file = (case parseCounters file of (c, good) \<Rightarrow> (udp4_of c, good))"
proof -
  have "list_all (\<lambda>l. CHR 0x0A \<notin> set l) (pre @ hdr # ls)"
    using assms(1) by (auto simp: list_all_iff plain_line_def)
  then show ?thesis
    using snmp_agree [OF assms(2-4)]
    by (simp only: Let_def parseUDPSNMP_def parseCounters_def split_table scan_lines_table [OF assms(1)] snmp_lines_snoc_empty)
qed

theorem snmp_parsers_agree_witness:
  "let file = concat (map (\<lambda>l. l @ [CHR 0x0A]) ([''Ip: 1''] @ ''Udp: RcvbufErrors'' # [''Udp: 3''])) in
    parseUDPSNMP file = (case parseCounters file of (c, good) \<Rightarrow> (udp4_of c, good))"
proof (rule snmp_parsers_agree)
  have "str_fields ''Udp: 3'' = [''Udp:'', ''3'']" by code_simp
  then show "list_all clean_row [''Udp: 3'']"
    by (simp add: clean_row_def parse_uint64_def all_digits_def digits_nat_def is_digit_def digit_val_def byte_of_def)
qed (simp_all add: plain_line_def max_scan_token_def)

end
