(* ===== verification/Go_Regex.thy ===== *)
theory Go_Regex
  imports Go_Strings
begin

text \<open>
  Regular expressions for the checks of user input that match a whole text, from \<^verbatim>\<open>^\<close> to \<^verbatim>\<open>$\<close>
  (without the flag \<^verbatim>\<open>m\<close> Go's \<^verbatim>\<open>$\<close> is the end of the text and nothing else). \<open>lang\<close> is what an
  expression means; \<open>matches\<close> decides it by derivatives, and \<open>matches_lang\<close> says that it does.
\<close>

datatype regex =
    Never
  | Eps
  | Class "char \<Rightarrow> bool"
  | Seq regex regex
  | Alt regex regex
  | Star regex

definition Plus :: "regex \<Rightarrow> regex" where "Plus r = Seq r (Star r)"

definition Maybe :: "regex \<Rightarrow> regex" where "Maybe r = Alt Eps r"

primrec Lit :: "string \<Rightarrow> regex" where
  "Lit [] = Eps"
| "Lit (c # s) = Seq (Class (\<lambda>x. x = c)) (Lit s)"

primrec Choice :: "regex list \<Rightarrow> regex" where
  "Choice [] = Never"
| "Choice (r # rs) = Alt r (Choice rs)"

inductive_set star :: "string set \<Rightarrow> string set" for A where
  star_Nil [intro]: "[] \<in> star A"
| star_app [intro]: "s \<in> A \<Longrightarrow> t \<in> star A \<Longrightarrow> s @ t \<in> star A"

primrec lang :: "regex \<Rightarrow> string set" where
  "lang Never = {}"
| "lang Eps = {[]}"
| "lang (Class p) = {[c] | c. p c}"
| "lang (Seq r s) = {u @ v | u v. u \<in> lang r \<and> v \<in> lang s}"
| "lang (Alt r s) = lang r \<union> lang s"
| "lang (Star r) = star (lang r)"

primrec nullable :: "regex \<Rightarrow> bool" where
  "nullable Never = False"
| "nullable Eps = True"
| "nullable (Class p) = False"
| "nullable (Seq r s) = (nullable r \<and> nullable s)"
| "nullable (Alt r s) = (nullable r \<or> nullable s)"
| "nullable (Star r) = True"

primrec deriv :: "char \<Rightarrow> regex \<Rightarrow> regex" where
  "deriv c Never = Never"
| "deriv c Eps = Never"
| "deriv c (Class p) = (if p c then Eps else Never)"
| "deriv c (Seq r s) = (let t = Seq (deriv c r) s in if nullable r then Alt t (deriv c s) else t)"
| "deriv c (Alt r s) = Alt (deriv c r) (deriv c s)"
| "deriv c (Star r) = Seq (deriv c r) (Star r)"

primrec matches :: "regex \<Rightarrow> string \<Rightarrow> bool" where
  "matches r [] = nullable r"
| "matches r (c # s) = matches (deriv c r) s"

lemma nullable_lang: "nullable r \<longleftrightarrow> [] \<in> lang r"
  by (induction r) auto

lemma star_step: "c # w \<in> star A \<longleftrightarrow> (\<exists>u v. w = u @ v \<and> c # u \<in> A \<and> v \<in> star A)"
proof
  assume "c # w \<in> star A"
  then show "\<exists>u v. w = u @ v \<and> c # u \<in> A \<and> v \<in> star A"
  proof (induction "c # w" arbitrary: w rule: star.induct)
    case (star_app s t)
    then show ?case by (cases s) auto
  qed
next
  assume "\<exists>u v. w = u @ v \<and> c # u \<in> A \<and> v \<in> star A"
  then obtain u v where "w = u @ v" "c # u \<in> A" "v \<in> star A" by blast
  then show "c # w \<in> star A" using star.star_app [of "c # u" A v] by simp
qed

lemma deriv_lang: "w \<in> lang (deriv c r) \<longleftrightarrow> c # w \<in> lang r"
proof (induction r arbitrary: w)
  case (Seq r s)
  have "c # w \<in> lang (Seq r s) \<longleftrightarrow>
      (\<exists>u v. w = u @ v \<and> c # u \<in> lang r \<and> v \<in> lang s) \<or> ([] \<in> lang r \<and> c # w \<in> lang s)"
    by (auto simp: Cons_eq_append_conv)
  then show ?case using Seq by (auto simp: nullable_lang Let_def)
next
  case (Star r)
  then show ?case by (auto simp: star_step)
qed auto

lemma matches_lang: "matches r s \<longleftrightarrow> s \<in> lang r"
  by (induction s arbitrary: r) (simp_all add: nullable_lang deriv_lang)

section \<open>The languages of the building blocks\<close>

lemma lang_Lit [simp]: "lang (Lit s) = {s}"
  by (induction s) auto

lemma lang_Choice [simp]: "lang (Choice rs) = \<Union> (lang ` set rs)"
  by (induction rs) auto

lemma lang_Maybe [simp]: "lang (Maybe r) = insert [] (lang r)"
  by (simp add: Maybe_def)

lemma star_Class: "star {[c] | c. p c} = {s. list_all p s}"
proof -
  have "s \<in> star {[c] | c. p c} \<Longrightarrow> list_all p s" for s
    by (induction rule: star.induct) auto
  moreover have "list_all p s \<Longrightarrow> s \<in> star {[c] | c. p c}" for s
  proof (induction s)
    case (Cons c s)
    then show ?case using star.star_app [of "[c]" "{[c] | c. p c}" s] by auto
  qed auto
  ultimately show ?thesis by blast
qed

lemma lang_Plus_Class [simp]: "lang (Plus (Class p)) = {s. s \<noteq> [] \<and> list_all p s}"
proof -
  have "s \<in> lang (Plus (Class p)) \<longleftrightarrow> s \<noteq> [] \<and> list_all p s" for s
  proof (cases s)
    case (Cons a t)
    have "a # t = [a] @ t" by simp
    then have "p a \<and> list_all p t \<Longrightarrow> s \<in> lang (Plus (Class p))"
      unfolding Plus_def lang.simps star_Class Cons by blast
    then show ?thesis using Cons by (auto simp: Plus_def star_Class)
  qed (auto simp: Plus_def)
  then show ?thesis by blast
qed

end
