(* ===== verification/Ui_Commands.thy ===== *)
theory Ui_Commands
  imports Ui_Control Go_Regex Go_Flags
begin

text \<open>
  The actions of the control panel, \<^verbatim>\<open>internal/ui/ui.go\<close> from \<open>stackReq\<close> on: a request of the browser
  is decoded, checked and turned into the argument list of one command, which runs in the single run
  slot. The JSON decoder is that of \<open>Go_Json\<close>; arguments are the error text of a body it refuses, the
  iteration order of the one Go map that is ranged over, \<open>url.Parse\<close>, the path of the executable, and
  what the started process does. The routes and goroutines of \<open>Main\<close> are at the end, and the panel as a
  transition system over all of its handlers, followers and pollers.
\<close>

section \<open>Requests\<close>

record stackReq =
  sq_Action :: string
  sq_OriginTimeout :: string
  sq_MaxIdle :: string
  sq_KeepAlive :: string
  sq_TunnelMaxIdle :: string
  sq_TunnelKeepAlive :: string
  sq_TunnelLB :: string
  sq_Connectors :: int

record impairReq =
  iq_Service :: string
  iq_Mode :: string
  iq_A :: string
  iq_B :: string
  iq_Burst :: string

record runReq =
  rq_Tool :: string
  rq_Runner :: string
  rq_URL :: string
  rq_Conns :: int
  rq_Workers :: int
  rq_Duration :: string
  rq_Timeout :: string
  rq_KeepAlive :: string
  rq_MaxIdle :: string
  rq_RPS :: rat
  rq_ReadBody :: bool
  rq_Insecure :: bool
  rq_LocalCerts :: bool
  rq_Headers :: "string list"
  rq_Mode :: string
  rq_Warmup :: string
  rq_MaxInflight :: int
  rq_Method :: string
  rq_Body :: string
  rq_URLs :: string
  rq_Probe0RTT :: bool

definition zero_stackReq :: stackReq where
  "zero_stackReq = \<lparr>sq_Action = '''', sq_OriginTimeout = '''', sq_MaxIdle = '''', sq_KeepAlive = '''',
     sq_TunnelMaxIdle = '''', sq_TunnelKeepAlive = '''', sq_TunnelLB = '''', sq_Connectors = 0\<rparr>"

definition zero_impairReq :: impairReq where
  "zero_impairReq = \<lparr>iq_Service = '''', iq_Mode = '''', iq_A = '''', iq_B = '''', iq_Burst = ''''\<rparr>"

definition zero_runReq :: runReq where
  "zero_runReq = \<lparr>rq_Tool = '''', rq_Runner = '''', rq_URL = '''', rq_Conns = 0, rq_Workers = 0,
     rq_Duration = '''', rq_Timeout = '''', rq_KeepAlive = '''', rq_MaxIdle = '''', rq_RPS = 0,
     rq_ReadBody = False, rq_Insecure = False, rq_LocalCerts = False, rq_Headers = [], rq_Mode = '''',
     rq_Warmup = '''', rq_MaxInflight = 0, rq_Method = '''', rq_Body = '''', rq_URLs = '''', rq_Probe0RTT = False\<rparr>"

definition float_field :: "(string \<Rightarrow> rat option) \<Rightarrow> ((rat \<Rightarrow> rat) \<Rightarrow> 'r \<Rightarrow> 'r) \<Rightarrow> 'r setter" where
  "float_field parseFloat upd v r = (case v of
     JNum n \<Rightarrow> map_option (\<lambda>x. upd (\<lambda>_. x) r) (parseFloat n) | JNull \<Rightarrow> Some r | _ \<Rightarrow> None)"

fun string_elems :: "json list \<Rightarrow> string list option" where
  "string_elems [] = Some []"
| "string_elems (v # vs) = (case v of JStr s \<Rightarrow> map_option ((#) s) (string_elems vs)
     | JNull \<Rightarrow> map_option ((#) '''') (string_elems vs) | _ \<Rightarrow> None)"

definition strings_field :: "((string list \<Rightarrow> string list) \<Rightarrow> 'r \<Rightarrow> 'r) \<Rightarrow> 'r setter" where
  "strings_field upd v r = (case v of
     JArr vs \<Rightarrow> map_option (\<lambda>xs. upd (\<lambda>_. xs) r) (string_elems vs) | JNull \<Rightarrow> Some (upd (\<lambda>_. []) r) | _ \<Rightarrow> None)"

definition stackReq_fields :: "(string \<times> stackReq setter) list" where
  "stackReq_fields = [(''action'', string_field sq_Action_update),
     (''originTimeout'', string_field sq_OriginTimeout_update), (''maxIdle'', string_field sq_MaxIdle_update),
     (''keepAlive'', string_field sq_KeepAlive_update), (''tunnelMaxIdle'', string_field sq_TunnelMaxIdle_update),
     (''tunnelKeepAlive'', string_field sq_TunnelKeepAlive_update), (''tunnelLB'', string_field sq_TunnelLB_update),
     (''connectors'', int_field sq_Connectors_update)]"

definition impairReq_fields :: "(string \<times> impairReq setter) list" where
  "impairReq_fields = [(''service'', string_field iq_Service_update), (''mode'', string_field iq_Mode_update),
     (''a'', string_field iq_A_update), (''b'', string_field iq_B_update), (''burst'', string_field iq_Burst_update)]"

definition runReq_fields :: "(string \<Rightarrow> rat option) \<Rightarrow> (string \<times> runReq setter) list" where
  "runReq_fields parseFloat = [(''tool'', string_field rq_Tool_update), (''runner'', string_field rq_Runner_update),
     (''url'', string_field rq_URL_update), (''conns'', int_field rq_Conns_update),
     (''workers'', int_field rq_Workers_update), (''duration'', string_field rq_Duration_update),
     (''timeout'', string_field rq_Timeout_update), (''keepAlive'', string_field rq_KeepAlive_update),
     (''maxIdle'', string_field rq_MaxIdle_update), (''rps'', float_field parseFloat rq_RPS_update),
     (''readBody'', bool_field rq_ReadBody_update), (''insecure'', bool_field rq_Insecure_update),
     (''localCerts'', bool_field rq_LocalCerts_update), (''headers'', strings_field rq_Headers_update),
     (''mode'', string_field rq_Mode_update), (''warmup'', string_field rq_Warmup_update),
     (''maxInflight'', int_field rq_MaxInflight_update), (''method'', string_field rq_Method_update),
     (''body'', string_field rq_Body_update), (''urls'', string_field rq_URLs_update),
     (''probe0rtt'', bool_field rq_Probe0RTT_update)]"

definition decode_body :: "(string \<times> 'r setter) list \<Rightarrow> 'r \<Rightarrow> string \<Rightarrow> 'r option" where
  \<comment> \<open>\<open>json.NewDecoder(r.Body).Decode\<close>: the first value, whatever follows it\<close>
  "decode_body fs r body = (case parse_value (Suc (2 * length body)) body of None \<Rightarrow> None
     | Some (v, _) \<Rightarrow> decode_struct fs v r)"

section \<open>Checks\<close>

definition durationRE :: regex where
  \<comment> \<open>\<^verbatim>\<open>^[0-9]+(ms|s|m)$\<close>\<close>
  "durationRE = Seq (Plus (Class is_digit)) (Choice [Lit ''ms'', Lit ''s'', Lit ''m''])"

definition zeroDurationRE :: regex where
  \<comment> \<open>\<^verbatim>\<open>^0+(ms|s|m)$\<close>\<close>
  "zeroDurationRE = Seq (Plus (Class (\<lambda>c. c = CHR ''0''))) (Choice [Lit ''ms'', Lit ''s'', Lit ''m''])"

definition netemArgRE :: regex where
  \<comment> \<open>\<^verbatim>\<open>^[0-9]+(\.[0-9]+)?(%|ms|s|kbit|mbit|gbit)$\<close>\<close>
  "netemArgRE = Seq (Plus (Class is_digit)) (Seq (Maybe (Seq (Lit ''.'') (Plus (Class is_digit))))
     (Choice [Lit ''%'', Lit ''ms'', Lit ''s'', Lit ''kbit'', Lit ''mbit'', Lit ''gbit'']))"

definition zeroDuration :: "string \<Rightarrow> bool" where
  "zeroDuration s = matches zeroDurationRE s"

definition services :: "string list" where "services = [''edge'', ''connector'', ''origin'']"

definition netemModes :: "string list" where
  "netemModes = [''loss'', ''delay'', ''rate'', ''reorder'', ''clear'']"

definition clamp :: "int \<Rightarrow> int \<Rightarrow> int \<Rightarrow> int" where
  "clamp v lo hi = (if v < lo then lo else if v > hi then hi else v)"

record parsed_url =
  pu_Scheme :: string
  pu_Host :: string
  pu_String :: string \<comment> \<open>what its \<open>String\<close> method prints\<close>

definition safeURL :: "(string \<Rightarrow> goerr + parsed_url) \<Rightarrow> string \<Rightarrow> goerr + string" where
  "safeURL parseURL s =
     (if s = '''' then Inl (new_error ''url is required'')
      else case parseURL s of Inl e \<Rightarrow> Inl (wrap_error ''bad url: '' e)
        | Inr u \<Rightarrow>
          (if pu_Scheme u \<noteq> ''http'' \<and> pu_Scheme u \<noteq> ''https'' then Inl (new_error ''url must be http or https'')
           else if pu_Host u = '''' then Inl (new_error ''url must include a host'')
           else Inr (pu_String u)))"

section \<open>Commands\<close>

definition stack_pairs :: "stackReq \<Rightarrow> (string \<times> string) list" where
  "stack_pairs req = [(''EDGE_ORIGIN_TIMEOUT'', sq_OriginTimeout req), (''EDGE_MAX_IDLE'', sq_MaxIdle req),
     (''EDGE_KEEPALIVE'', sq_KeepAlive req), (''EDGE_TUNNEL_MAX_IDLE'', sq_TunnelMaxIdle req),
     (''EDGE_TUNNEL_KEEPALIVE'', sq_TunnelKeepAlive req)]"

fun stack_env :: "(string \<times> string) list \<Rightarrow> string list \<Rightarrow> goerr + string list" where
  \<comment> \<open>the loop over the map, in the order it is given\<close>
  "stack_env [] env = Inr env"
| "stack_env ((k, v) # kvs) env =
     (if v = '''' then stack_env kvs env
      else if \<not> matches durationRE v then Inl (new_error (k @ '': expected a duration like 10s''))
      else stack_env kvs (env @ [k @ ''='' @ v]))"

definition stack_lb :: "stackReq \<Rightarrow> string list \<Rightarrow> goerr + string list" where
  "stack_lb req env =
     (if sq_TunnelLB req = '''' then Inr env
      else if sq_TunnelLB req \<noteq> ''rr'' \<and> sq_TunnelLB req \<noteq> ''hash''
        then Inl (new_error ''tunnelLB must be rr or hash'')
      else Inr (env @ [''EDGE_TUNNEL_LB='' @ sq_TunnelLB req]))"

definition stack_args :: "stackReq \<Rightarrow> goerr + string list" where
  "stack_args req =
     (if sq_Action req = ''up'' then Inr [''compose'', ''up'', ''-d'', ''--build'', ''origin'', ''edge'', ''connector'']
      else if sq_Action req = ''down'' then Inr [''compose'', ''down'']
      else if sq_Action req = ''restart-edge'' then Inr [''compose'', ''up'', ''-d'', ''--force-recreate'', ''edge'']
      else if sq_Action req = ''scale-connectors'' then
        (if sq_Connectors req < 0 \<or> sq_Connectors req > 10 then Inl (new_error ''connectors must be 0..10'')
         else Inr [''compose'', ''up'', ''-d'', ''--scale'', ''connector='' @ itoa (sq_Connectors req), ''connector''])
      else if sq_Action req = ''stop-connector'' then Inr [''compose'', ''stop'', ''connector'']
      else if sq_Action req = ''start-connector'' then Inr [''compose'', ''up'', ''-d'', ''--scale'', ''connector=1'', ''connector'']
      else Inl (new_error ''unknown action''))"

definition stackCommand :: "(string \<times> string) list \<Rightarrow> stackReq \<Rightarrow> goerr + string list \<times> string list" where
  \<comment> \<open>the pairs are those of the map, in the order the range statement visits them\<close>
  "stackCommand pairs req =
     (case stack_env pairs [] of Inl e \<Rightarrow> Inl e
      | Inr env \<Rightarrow> (case stack_lb req env of Inl e \<Rightarrow> Inl e
        | Inr env' \<Rightarrow> map_sum id (\<lambda>args. (env', args)) (stack_args req)))"

definition validateNetemInput :: "impairReq \<Rightarrow> goerr option" where
  "validateNetemInput req = map_option (\<lambda>v. new_error (''bad netem value '' @ go_quote v))
     (find (\<lambda>v. v \<noteq> '''' \<and> \<not> matches netemArgRE v) [iq_A req, iq_B req, iq_Burst req])"

definition given :: "string \<Rightarrow> string list" where
  "given v = (if v \<noteq> '''' then [v] else [])"

definition buildImpairCommand :: "impairReq \<Rightarrow> goerr + string list" where
  "buildImpairCommand req =
     (if iq_Service req \<notin> set services \<or> iq_Mode req \<notin> set netemModes
      then Inl (new_error ''unknown service or mode'')
      else if iq_Mode req = ''clear'' then Inr [iq_Service req, iq_Mode req]
      else case validateNetemInput req of Some e \<Rightarrow> Inl e
        | None \<Rightarrow> Inr ([iq_Service req, iq_Mode req] @ given (iq_A req) @ given (iq_B req) @ given (iq_Burst req)))"

definition bad_header :: "string \<Rightarrow> bool" where
  "bad_header h \<longleftrightarrow> h \<noteq> '''' \<and> (CHR '':'' \<notin> set h \<or> CHR 0x0D \<in> set h \<or> CHR 0x0A \<in> set h)"

definition validateRunRequest :: "runReq \<Rightarrow> goerr option" where
  "validateRunRequest req =
     (if rq_Tool req \<notin> set [''blast'', ''probe'', ''curl'', ''chrome'']
      then Some (new_error ''tool must be blast, probe, curl, or chrome'')
      else map_option (\<lambda>h. new_error (''bad header '' @ go_quote h)) (find bad_header (rq_Headers req)))"

definition appendRunHeaders :: "string list \<Rightarrow> string list \<Rightarrow> string list" where
  "appendRunHeaders args headers = args @ map (\<lambda>h. ''-header='' @ h) (filter (\<lambda>h. h \<noteq> '''') headers)"

definition appendWarmupFlag :: "string list \<Rightarrow> string \<Rightarrow> goerr + string list" where
  "appendWarmupFlag args warmup =
     (if warmup = '''' \<or> zeroDuration warmup then Inr args
      else if \<not> matches durationRE warmup then Inl (new_error ''-warmup= expected a duration like 2s'')
      else Inr (args @ [''-warmup='' @ warmup]))"

fun duration_flags :: "(string \<times> string) list \<Rightarrow> string list \<Rightarrow> goerr + string list" where
  "duration_flags [] args = Inr args"
| "duration_flags ((k, v) # kvs) args =
     (if v = '''' then duration_flags kvs args
      else if \<not> matches durationRE v then Inl (new_error (k @ '' expected a duration like 30s''))
      else duration_flags kvs (args @ [k @ v]))"

definition appendDurationFlags :: "string list \<Rightarrow> runReq \<Rightarrow> goerr + string list" where
  "appendDurationFlags args req =
     (case duration_flags [(''-duration='', rq_Duration req), (''-timeout='', rq_Timeout req),
        (''-keepalive='', rq_KeepAlive req), (''-max-idle-timeout='', rq_MaxIdle req)] args of
        Inl e \<Rightarrow> Inl e | Inr args' \<Rightarrow> appendWarmupFlag args' (rq_Warmup req))"

definition equal_fold :: "string \<Rightarrow> string \<Rightarrow> bool" where
  \<comment> \<open>\<open>strings.EqualFold\<close> against ASCII text whose letters fold to nothing outside ASCII\<close>
  "equal_fold s t \<longleftrightarrow> map lower_char s = map lower_char t"

definition appendOptionalBlastFlags :: "(rat \<Rightarrow> string) \<Rightarrow> string list \<Rightarrow> runReq \<Rightarrow> goerr + string list" where
  \<comment> \<open>\<open>strconv.FormatFloat(x, 'f', -1, 64)\<close> is an argument\<close>
  "appendOptionalBlastFlags formatFloat args req = Inr (args
     @ (if rq_RPS req > 0 then [''-rps='' @ formatFloat (rq_RPS req)] else [])
     @ (if rq_Mode req = ''open'' then [''-mode=open''] else [])
     @ (if rq_MaxInflight req > 0 then [''-max-inflight='' @ itoa (clamp (rq_MaxInflight req) 1 4096)] else [])
     @ (if rq_Method req \<noteq> '''' \<and> \<not> equal_fold (rq_Method req) ''GET'' then [''-method='' @ rq_Method req] else [])
     @ (if rq_Body req \<noteq> '''' then [''-body='' @ rq_Body req] else [])
     @ (if rq_URLs req \<noteq> '''' then [''-urls='' @ rq_URLs req] else [])
     @ (if rq_Probe0RTT req then [''-probe-0rtt''] else []))"

definition appendBlastArgs :: "(rat \<Rightarrow> string) \<Rightarrow> string list \<Rightarrow> runReq \<Rightarrow> goerr + string list" where
  "appendBlastArgs formatFloat args req =
     (case appendDurationFlags args req of Inl e \<Rightarrow> Inl e
      | Inr args' \<Rightarrow> appendOptionalBlastFlags formatFloat (args' @
          [''-conns='' @ itoa (clamp (rq_Conns req) 1 64), ''-workers='' @ itoa (clamp (rq_Workers req) 1 256),
           ''-stats-every=5s'', ''-read-body='' @ bool_string (rq_ReadBody req)]) req)"

definition buildRunArgs :: "(rat \<Rightarrow> string) \<Rightarrow> runReq \<Rightarrow> string \<Rightarrow> goerr + string list" where
  "buildRunArgs formatFloat req target =
     (let args = appendRunHeaders [rq_Tool req, ''-url='' @ target] (rq_Headers req)
        @ (if rq_Insecure req then [''-insecure''] else [])
        @ (if rq_LocalCerts req then [''-certs=/certs'', ''-server-name=edge''] else [])
      in if rq_Tool req \<noteq> ''blast'' then Inr args else appendBlastArgs formatFloat args req)"

definition resolveRunCommand :: "goerr + string \<Rightarrow> string \<Rightarrow> string list \<Rightarrow> goerr + string \<times> string list" where
  \<comment> \<open>\<open>os.Executable()\<close> is an argument\<close>
  "resolveRunCommand self runner toolArgs =
     (if runner = ''host'' then map_sum id (\<lambda>bin. (bin, toolArgs)) self
      else Inr (''docker'', [''compose'', ''run'', ''--build'', ''--rm'', ''-T'', ''blast''] @ toolArgs))"

record plan_env =
  pe_formatFloat :: "rat \<Rightarrow> string"
  pe_self :: "goerr + string"
  pe_parseURL :: "string \<Rightarrow> goerr + parsed_url"
  pe_join :: "string list \<Rightarrow> string" \<comment> \<open>\<open>filepath.Join\<close>\<close>
  pe_dir :: string \<comment> \<open>the server's directory\<close>

definition planRun :: "plan_env \<Rightarrow> runReq \<Rightarrow> string \<Rightarrow> goerr + string \<times> string list" where
  "planRun env req target =
     (if rq_Tool req = ''curl'' \<or> rq_Tool req = ''chrome'' then
        Inr (pe_join env [pe_dir env, ''scripts'', ''h3-clients.sh''],
          [rq_Tool req, target] @ (if rq_Insecure req \<or> rq_LocalCerts req then [''--insecure''] else []))
      else case buildRunArgs (pe_formatFloat env) req target of Inl e \<Rightarrow> Inl e
        | Inr toolArgs \<Rightarrow> resolveRunCommand (pe_self env) (rq_Runner req) toolArgs)"

section \<open>Handlers\<close>

record action =
  ac_bin :: string
  ac_argv :: "string list"
  ac_env :: "string list"
  ac_cmdline :: string \<comment> \<open>the line logged before it runs\<close>
  ac_src :: string
  ac_failed :: string \<comment> \<open>the prefix of the line logged when it fails\<close>

record proc_run =
  pr_pipe :: "goerr option" \<comment> \<open>\<open>StdoutPipe\<close>\<close>
  pr_start :: "goerr option"
  pr_lines :: "(int \<times> string) list" \<comment> \<open>its output, each line with the time it is handled\<close>
  pr_scan :: "(int \<times> goerr) option"
  pr_wait :: "goerr option"

definition runStreaming :: "proc_run \<Rightarrow> string \<Rightarrow> ui_state \<Rightarrow> goerr option \<times> ui_state" where
  \<comment> \<open>\<open>Stderr\<close> is set to the pipe of \<open>Stdout\<close> first, so \<open>StderrPipe\<close> fails and one scan reads both\<close>
  "runStreaming p src s =
     (case pr_pipe p of Some e \<Rightarrow> (Some e, s)
      | None \<Rightarrow> (case pr_start p of Some e \<Rightarrow> (Some e, s)
        | None \<Rightarrow> (pr_wait p, ui_scan (pr_lines p) (pr_scan p) src s)))"

definition action_body :: "int \<Rightarrow> int \<Rightarrow> action \<Rightarrow> proc_run \<Rightarrow> ui_state \<Rightarrow> ui_state" where
  \<comment> \<open>what the goroutine of \<open>start\<close> runs: \<open>now\<close> is when it begins, \<open>later\<close> when the process has ended\<close>
  "action_body now later a p s =
     (case runStreaming p (ac_src a) (ui_line now ''ui'' (ac_cmdline a) s) of
        (None, s') \<Rightarrow> s' | (Some e, s') \<Rightarrow> ui_line later (ac_src a) (ac_failed a @ err_text e) s')"

definition httpErr :: "goerr \<Rightarrow> response" where
  "httpErr e = write_body (marshal_object [(''error'', EStr (err_text e))] @ [CHR 0x0A])
     (write_header 400 (set_header ''Content-Type'' ''application/json'' no_response))"

definition accepted :: response where
  "accepted = write_header 202 no_response"

definition start_action :: "string \<Rightarrow> action \<Rightarrow> ui_state \<Rightarrow> (response \<times> action option) \<times> ui_state" where
  "start_action name a s = (case ui_start name s of Inl e \<Rightarrow> ((httpErr e, None), s)
     | Inr s' \<Rightarrow> ((accepted, Some a), s'))"

definition handleStack ::
  "goerr \<Rightarrow> (stackReq \<Rightarrow> (string \<times> string) list) \<Rightarrow> string \<Rightarrow> ui_state \<Rightarrow> (response \<times> action option) \<times> ui_state" where
  \<comment> \<open>the decoder's error where it refuses the body, and the iteration order of the map\<close>
  "handleStack jerr order body s =
     (case decode_body stackReq_fields zero_stackReq body of None \<Rightarrow> ((httpErr jerr, None), s)
      | Some req \<Rightarrow>
        (case stackCommand (order req) req of Inl e \<Rightarrow> ((httpErr e, None), s)
         | Inr (env, args) \<Rightarrow> start_action (''stack:'' @ sq_Action req)
             \<lparr>ac_bin = ''docker'', ac_argv = args, ac_env = env,
              ac_cmdline = ''$ docker '' @ join_with '' '' args @ '' '' @ join_with '' '' env,
              ac_src = ''ui'', ac_failed = ''error: ''\<rparr> s))"

definition impair_text :: "impairReq \<Rightarrow> string" where
  "impair_text req = (if iq_Mode req = ''clear'' then ''''
     else iq_Service req @ '' '' @ iq_Mode req @ '' '' @ iq_A req)"

definition handleImpair :: "plan_env \<Rightarrow> goerr \<Rightarrow> string \<Rightarrow> ui_state \<Rightarrow> (response \<times> action option) \<times> ui_state" where
  "handleImpair env jerr body s =
     (case decode_body impairReq_fields zero_impairReq body of None \<Rightarrow> ((httpErr jerr, None), s)
      | Some req \<Rightarrow>
        (case buildImpairCommand req of Inl e \<Rightarrow> ((httpErr e, None), s)
         | Inr tc \<Rightarrow>
           (let script = pe_join env [pe_dir env, ''scripts'', ''impair.sh''];
                a = \<lparr>ac_bin = script, ac_argv = tc, ac_env = [], ac_cmdline = ''$ '' @ script @ '' '' @ join_with '' '' tc,
                     ac_src = ''ui'', ac_failed = ''impair: ''\<rparr>
            in case start_action (''impair:'' @ iq_Service req @ '':'' @ iq_Mode req) a s of
                 ((r, None), s') \<Rightarrow> ((r, None), s')
               | ((r, Some a'), s') \<Rightarrow> ((r, Some a'), s'\<lparr>ui_flow := (ui_flow s')\<lparr>fl_impair := impair_text req\<rparr>\<rparr>))))"

definition startLogged :: "string \<Rightarrow> string \<Rightarrow> string list \<Rightarrow> ui_state \<Rightarrow> (response \<times> action option) \<times> ui_state" where
  "startLogged src bin argv s = start_action src
     \<lparr>ac_bin = bin, ac_argv = argv, ac_env = [], ac_cmdline = ''$ '' @ bin @ '' '' @ join_with '' '' argv,
      ac_src = src, ac_failed = ''exit: ''\<rparr> s"

definition run_plan :: "plan_env \<Rightarrow> runReq \<Rightarrow> goerr + string \<times> string list" where
  \<comment> \<open>the checks of \<open>handleRun\<close> in their order, and the plan\<close>
  "run_plan env req =
     (case safeURL (pe_parseURL env) (rq_URL req) of Inl e \<Rightarrow> Inl e
      | Inr target \<Rightarrow> (case validateRunRequest req of Some e \<Rightarrow> Inl e | None \<Rightarrow> planRun env req target))"

definition handleRun ::
  "plan_env \<Rightarrow> (string \<Rightarrow> rat option) \<Rightarrow> goerr \<Rightarrow> string \<Rightarrow> ui_state \<Rightarrow> (response \<times> action option) \<times> ui_state" where
  "handleRun env parseFloat jerr body s =
     (case decode_body (runReq_fields parseFloat) zero_runReq body of None \<Rightarrow> ((httpErr jerr, None), s)
      | Some req \<Rightarrow>
        (case run_plan env req of Inl e \<Rightarrow> ((httpErr e, None), s)
         | Inr (bin, argv) \<Rightarrow> startLogged (rq_Tool req) bin argv s))"

section \<open>Start-up\<close>

record ui_opts =
  uo_addr :: string
  uo_dir :: string

fun ui_options :: "string list \<Rightarrow> ui_opts \<Rightarrow> ui_opts option" where
  \<comment> \<open>the argument loop of \<open>Main\<close>; \<open>None\<close> where help is asked for; a flag in last place is ignored\<close>
  "ui_options [] o' = Some o'"
| "ui_options [a] o' = (if a = ''-h'' \<or> a = ''--help'' then None else Some o')"
| "ui_options (a # b # args) o' =
     (if a = ''-addr'' then ui_options args (o'\<lparr>uo_addr := b\<rparr>)
      else if a = ''-dir'' then ui_options args (o'\<lparr>uo_dir := b\<rparr>)
      else if a = ''-h'' \<or> a = ''--help'' then None
      else ui_options (b # args) o')"

definition default_ui_opts :: ui_opts where
  "default_ui_opts = \<lparr>uo_addr = ''127.0.0.1:8088'', uo_dir = ''.''\<rparr>"

definition warnStaleImage :: "goerr + string \<Rightarrow> goerr + string \<Rightarrow> int \<Rightarrow> ui_state \<Rightarrow> ui_state" where
  \<comment> \<open>the outputs of \<^verbatim>\<open>git rev-parse\<close> and \<^verbatim>\<open>docker image inspect\<close>\<close>
  "warnStaleImage want got now s =
     (case (want, got) of (Inr w, Inr g) \<Rightarrow>
        (let w' = trim_space w; g' = trim_space g in
         if g' = '''' \<or> g' = ''dev'' \<or> w' = g' then s
         else ui_line now ''ui'' (''quicshot:local revision '' @ g' @ '' != source '' @ w' @ ''; next blast/run will --build'') s)
      | _ \<Rightarrow> s)"

section \<open>The server\<close>

datatype ui_handler = StaticFiles | EventsHandler | StackHandler | ImpairHandler | RunHandler | ResetHandler | StopHandler

definition ui_routes :: "(string \<times> ui_handler) list" where
  "ui_routes = [(''/api/events'', EventsHandler), (''/api/stack'', StackHandler), (''/api/impair'', ImpairHandler),
     (''/api/run'', RunHandler), (''/api/reset'', ResetHandler), (''/api/stop'', StopHandler)]"

definition ui_route :: "string \<Rightarrow> ui_handler" where
  \<comment> \<open>the pattern \<^verbatim>\<open>/\<close> takes every other path\<close>
  "ui_route path = (case map_of ui_routes path of Some h \<Rightarrow> h | None \<Rightarrow> StaticFiles)"

record panel_env = \<comment> \<open>what the handlers take from outside: decoder errors, map order, clock, number parser\<close>
  pn_jerr :: goerr
  pn_order :: "stackReq \<Rightarrow> (string \<times> string) list"
  pn_now :: int
  pn_plan :: plan_env
  pn_parseFloat :: "string \<Rightarrow> rat option"

definition ui_serve :: "panel_env \<Rightarrow> string \<Rightarrow> string \<Rightarrow> ui_state \<Rightarrow> (response \<times> action option) \<times> ui_state" where
  \<comment> \<open>what a request for a path does to the server's state; the event stream only reads it (see
    \<open>handleEvents\<close> for the hub) and the file server does not see it\<close>
  "ui_serve env path body s = (case ui_route path of
     StackHandler \<Rightarrow> handleStack (pn_jerr env) (pn_order env) body s
   | ImpairHandler \<Rightarrow> handleImpair (pn_plan env) (pn_jerr env) body s
   | RunHandler \<Rightarrow> handleRun (pn_plan env) (pn_parseFloat env) (pn_jerr env) body s
   | ResetHandler \<Rightarrow> (case handleReset (pn_now env) s of (code, s') \<Rightarrow> ((write_header code no_response, None), s'))
   | StopHandler \<Rightarrow> (case handleStop (pn_now env) s of (code, s') \<Rightarrow> ((write_header code no_response, None), s'))
   | _ \<Rightarrow> ((no_response, None), s))"

datatype ui_task = TailLogs string | PollConnectors | PollUDP | PollServiceHealth | PublishFlow

datatype ui_end = UiHelp | UiFails goerr
  | UiServes string "ui_task list" ui_state goerr \<comment> \<open>address, goroutines, state, what serving ends with\<close>

definition ui_Main :: "goerr option \<Rightarrow> (string \<Rightarrow> goerr) \<Rightarrow> goerr + string \<Rightarrow> goerr + string \<Rightarrow> int \<Rightarrow> string list \<Rightarrow> ui_end" where
  \<comment> \<open>arguments: the error of \<open>fs.Sub\<close>, what \<open>ListenAndServe\<close> returns, the outputs \<open>warnStaleImage\<close> reads\<close>
  "ui_Main sub listen want got now args = (case ui_options args default_ui_opts of None \<Rightarrow> UiHelp
     | Some opts \<Rightarrow> (case sub of Some e \<Rightarrow> UiFails e
         | None \<Rightarrow> UiServes (uo_addr opts)
             [TailLogs ''origin'', TailLogs ''edge'', TailLogs ''connector'',
              PollConnectors, PollUDP, PollServiceHealth, PublishFlow]
             (warnStaleImage want got now new_server) (listen (uo_addr opts))))"

section \<open>Lemmas\<close>

lemma durationRE_iff: "matches durationRE s \<longleftrightarrow> (\<exists>d u. s = d @ u \<and> all_digits d \<and> u \<in> {''ms'', ''s'', ''m''})"
  by (auto simp: matches_lang durationRE_def all_digits_def)

lemma zeroDuration_iff: "zeroDuration s \<longleftrightarrow> (\<exists>d u. s = d @ u \<and> d \<noteq> [] \<and> list_all (\<lambda>c. c = CHR ''0'') d \<and> u \<in> {''ms'', ''s'', ''m''})"
  by (auto simp: zeroDuration_def matches_lang zeroDurationRE_def)

definition netem_char :: "char \<Rightarrow> bool" where
  "netem_char c \<longleftrightarrow> is_digit c \<or> c = CHR ''.'' \<or> c = CHR ''%'' \<or> 97 \<le> byte_of c \<and> byte_of c \<le> 122"

lemma netem_units: "u \<in> {''%'', ''ms'', ''s'', ''kbit'', ''mbit'', ''gbit''} \<Longrightarrow> list_all netem_char u"
  by (auto simp: netem_char_def byte_of_def)

lemma netemArgRE_shape:
  "matches netemArgRE v \<Longrightarrow> (\<exists>d f u. v = d @ f @ u \<and> all_digits d \<and> (f = [] \<or> (\<exists>e. f = CHR ''.'' # e \<and> all_digits e))
     \<and> u \<in> {''%'', ''ms'', ''s'', ''kbit'', ''mbit'', ''gbit''})"
  by (auto simp: matches_lang netemArgRE_def all_digits_def)

lemma netemArgRE_chars: "matches netemArgRE v \<Longrightarrow> v \<noteq> [] \<and> is_digit (hd v) \<and> list_all netem_char v"
proof -
  assume "matches netemArgRE v"
  then obtain d f u where v: "v = d @ f @ u" "all_digits d" "f = [] \<or> (\<exists>e. f = CHR ''.'' # e \<and> all_digits e)"
    "u \<in> {''%'', ''ms'', ''s'', ''kbit'', ''mbit'', ''gbit''}"
    using netemArgRE_shape by blast
  have "all_digits e \<Longrightarrow> list_all netem_char e" for e by (auto simp: all_digits_def list_all_iff netem_char_def)
  moreover have "netem_char (CHR ''.'')" by (simp add: netem_char_def)
  ultimately have "list_all netem_char v" using v netem_units [OF v(4)] by auto
  moreover have "v \<noteq> [] \<and> is_digit (hd v)" using v(1,2) by (cases d) (auto simp: all_digits_def)
  ultimately show ?thesis by blast
qed

lemma given_netem: "validateNetemInput req = None \<Longrightarrow>
    v \<in> set (given (iq_A req) @ given (iq_B req) @ given (iq_Burst req)) \<Longrightarrow> matches netemArgRE v"
  by (auto simp: validateNetemInput_def given_def split: if_splits)

lemma buildImpairCommand_shape:
  assumes "buildImpairCommand req = Inr tc"
  shows "\<exists>vals. tc = iq_Service req # iq_Mode req # vals \<and> iq_Service req \<in> set services \<and> iq_Mode req \<in> set netemModes
    \<and> length vals \<le> 3 \<and> (\<forall>v\<in>set vals. matches netemArgRE v)"
proof (cases "iq_Mode req = ''clear''")
  case True
  then show ?thesis using assms by (auto simp: buildImpairCommand_def split: if_splits)
next
  case False
  then have "validateNetemInput req = None" "iq_Service req \<in> set services" "iq_Mode req \<in> set netemModes"
    "tc = iq_Service req # iq_Mode req # given (iq_A req) @ given (iq_B req) @ given (iq_Burst req)"
    using assms by (auto simp: buildImpairCommand_def split: if_splits option.splits)
  moreover have "length (given (iq_A req) @ given (iq_B req) @ given (iq_Burst req)) \<le> 3"
    by (simp add: given_def)
  ultimately show ?thesis using given_netem [of req] by blast
qed

lemma start_action_Some:
  "start_action name a s = ((r, Some a'), s') \<Longrightarrow> a' = a \<and> r = accepted \<and> ui_running s = None"
  by (auto simp: start_action_def ui_start_def split: sum.splits option.splits)

section \<open>Properties\<close>

text \<open>C17: nothing a browser sends can reach the shell script that shapes the network as anything but
  its arguments. Whatever the body of the request, an action is started only with a known service and
  a known mode first, and at most three values after them, each of which starts with a digit and
  consists of digits, lower case letters, a point and a percent sign; so none of them is an option and
  none has a character that means something to a shell.\<close>

theorem impair_argv_safe:
  assumes "handleImpair env jerr body s = ((r, Some a), s')"
  shows "\<exists>service mode vals. ac_argv a = service # mode # vals \<and> ac_bin a = pe_join env [pe_dir env, ''scripts'', ''impair.sh'']
    \<and> service \<in> set services \<and> mode \<in> set netemModes \<and> length vals \<le> 3
    \<and> (\<forall>v\<in>set vals. v \<noteq> [] \<and> is_digit (hd v) \<and> list_all netem_char v)"
proof -
  obtain req tc where tc: "buildImpairCommand req = Inr tc"
    and a: "ac_argv a = tc" "ac_bin a = pe_join env [pe_dir env, ''scripts'', ''impair.sh'']"
    using assms by (auto simp: handleImpair_def Let_def dest: start_action_Some
        split: option.splits sum.splits prod.splits)
  obtain vals where "tc = iq_Service req # iq_Mode req # vals" "iq_Service req \<in> set services"
    "iq_Mode req \<in> set netemModes" "length vals \<le> 3" "\<forall>v\<in>set vals. matches netemArgRE v"
    using buildImpairCommand_shape [OF tc] by blast
  then show ?thesis using a netemArgRE_chars by (intro exI [of _ "iq_Service req"] exI [of _ "iq_Mode req"] exI [of _ vals]) simp
qed

definition panel_flags :: "string list" where
  \<comment> \<open>the flags the panel ever passes to a tool\<close>
  "panel_flags = [''url'', ''header'', ''insecure'', ''certs'', ''server-name'', ''duration'', ''timeout'', ''keepalive'',
     ''max-idle-timeout'', ''warmup'', ''conns'', ''workers'', ''stats-every'', ''read-body'', ''rps'', ''mode'',
     ''max-inflight'', ''method'', ''body'', ''urls'', ''probe-0rtt'']"

definition known_flag :: "string \<Rightarrow> bool" where
  "known_flag a = (case token_of a of FlagToken n v \<Rightarrow> n \<in> set panel_flags | _ \<Rightarrow> False)"

lemmas known_flag_defs = known_flag_def token_of_def panel_flags_def Let_def

lemma known_flags_appended:
  "duration_flags kvs args = Inr args' \<Longrightarrow> list_all known_flag args \<Longrightarrow>
     (\<And>k v. (k, v) \<in> set kvs \<Longrightarrow> known_flag (k @ v)) \<Longrightarrow> list_all known_flag args'"
  by (induction kvs args rule: duration_flags.induct) (auto split: if_splits)

lemma known_duration_flags:
  assumes "appendDurationFlags args req = Inr args'" "list_all known_flag args"
  shows "list_all known_flag args'"
proof -
  let ?kvs = "[(''-duration='', rq_Duration req), (''-timeout='', rq_Timeout req),
    (''-keepalive='', rq_KeepAlive req), (''-max-idle-timeout='', rq_MaxIdle req)]"
  obtain as where as: "duration_flags ?kvs args = Inr as" "appendWarmupFlag as (rq_Warmup req) = Inr args'"
    using assms(1) by (auto simp: appendDurationFlags_def split: sum.splits)
  have "known_flag (k @ v)" if "(k, v) \<in> set ?kvs" for k v
    using that by (auto simp: known_flag_defs)
  then have "list_all known_flag as" using known_flags_appended [OF as(1) assms(2)] by blast
  moreover have "known_flag (''-warmup='' @ w)" for w by (simp add: known_flag_defs)
  ultimately show ?thesis using as(2) by (auto simp: appendWarmupFlag_def split: if_splits)
qed

lemma known_optional_flags:
  "appendOptionalBlastFlags formatFloat args req = Inr args' \<Longrightarrow> list_all known_flag args \<Longrightarrow> list_all known_flag args'"
  by (auto simp: appendOptionalBlastFlags_def known_flag_defs)

lemma known_blast_flags:
  assumes "appendBlastArgs formatFloat args req = Inr args'" "list_all known_flag args"
  shows "list_all known_flag args'"
proof -
  obtain as where as: "appendDurationFlags args req = Inr as"
    and args': "appendOptionalBlastFlags formatFloat (as @
          [''-conns='' @ itoa (clamp (rq_Conns req) 1 64), ''-workers='' @ itoa (clamp (rq_Workers req) 1 256),
           ''-stats-every=5s'', ''-read-body='' @ bool_string (rq_ReadBody req)]) req = Inr args'"
    using assms(1) by (auto simp: appendBlastArgs_def split: sum.splits)
  have "known_flag (''-conns='' @ a)" "known_flag (''-workers='' @ b)" "known_flag ''-stats-every=5s''"
    "known_flag (''-read-body='' @ c)" for a b c
    by (simp_all add: known_flag_defs)
  then show ?thesis
    using known_optional_flags [OF args'] known_duration_flags [OF as assms(2)] by simp
qed

lemma append_after_tool:
  "duration_flags kvs (t # as) = map_sum id ((#) t) (duration_flags kvs as)"
  "appendWarmupFlag (t # as) w = map_sum id ((#) t) (appendWarmupFlag as w)"
  "appendOptionalBlastFlags formatFloat (t # as) req = map_sum id ((#) t) (appendOptionalBlastFlags formatFloat as req)"
proof -
  show "duration_flags kvs (t # as) = map_sum id ((#) t) (duration_flags kvs as)"
    by (induction kvs as rule: duration_flags.induct) simp_all
qed (simp_all add: appendWarmupFlag_def appendOptionalBlastFlags_def)

lemma appendDurationFlags_after_tool:
  "appendDurationFlags (t # as) req = map_sum id ((#) t) (appendDurationFlags as req)"
proof -
  have "(case map_sum id ((#) t) x of Inl e \<Rightarrow> Inl e | Inr as' \<Rightarrow> appendWarmupFlag as' w)
      = map_sum id ((#) t) (case x of Inl e \<Rightarrow> Inl e | Inr as' \<Rightarrow> appendWarmupFlag as' w)" for x w
    by (cases x) (simp_all add: append_after_tool)
  then show ?thesis unfolding appendDurationFlags_def append_after_tool by simp
qed

lemma appendBlastArgs_after_tool:
  "appendBlastArgs formatFloat (t # as) req = map_sum id ((#) t) (appendBlastArgs formatFloat as req)"
proof -
  have "(case map_sum id ((#) t) x of Inl e \<Rightarrow> Inl e | Inr as' \<Rightarrow> appendOptionalBlastFlags formatFloat (as' @ fixed) req)
      = map_sum id ((#) t) (case x of Inl e \<Rightarrow> Inl e | Inr as' \<Rightarrow> appendOptionalBlastFlags formatFloat (as' @ fixed) req)"
    for x fixed
    by (cases x) (simp_all add: append_after_tool)
  then show ?thesis unfolding appendBlastArgs_def appendDurationFlags_after_tool by simp
qed

definition common_args :: "runReq \<Rightarrow> string \<Rightarrow> string list" where
  \<comment> \<open>the arguments after the tool's name that every tool gets\<close>
  "common_args req target = (''-url='' @ target) # map (\<lambda>h. ''-header='' @ h) (filter (\<lambda>h. h \<noteq> '''') (rq_Headers req))
     @ (if rq_Insecure req then [''-insecure''] else [])
     @ (if rq_LocalCerts req then [''-certs=/certs'', ''-server-name=edge''] else [])"

lemma buildRunArgs_tool:
  "buildRunArgs formatFloat req target = map_sum id ((#) (rq_Tool req))
     (if rq_Tool req \<noteq> ''blast'' then Inr (common_args req target)
      else appendBlastArgs formatFloat (common_args req target) req)"
proof -
  have "appendRunHeaders [rq_Tool req, ''-url='' @ target] (rq_Headers req)
      @ (if rq_Insecure req then [''-insecure''] else [])
      @ (if rq_LocalCerts req then [''-certs=/certs'', ''-server-name=edge''] else [])
    = rq_Tool req # common_args req target"
    unfolding appendRunHeaders_def common_args_def append_Cons append_Nil by (rule refl)
  then show ?thesis by (simp add: buildRunArgs_def appendBlastArgs_after_tool)
qed

lemma known_run_args:
  assumes "buildRunArgs formatFloat req target = Inr toolArgs"
  shows "\<exists>args. toolArgs = rq_Tool req # args \<and> list_all known_flag args"
proof -
  have "known_flag (''-url='' @ v)" "known_flag (''-header='' @ v)" "known_flag ''-insecure''"
    "known_flag ''-certs=/certs''" "known_flag ''-server-name=edge''" for v
    by (simp_all add: known_flag_defs)
  then have common: "list_all known_flag (common_args req target)"
    by (auto simp: list_all_iff common_args_def simp del: append.simps)
  obtain args where "toolArgs = rq_Tool req # args"
    "(if rq_Tool req \<noteq> ''blast'' then Inr (common_args req target)
      else appendBlastArgs formatFloat (common_args req target) req) = Inr args"
    using assms unfolding buildRunArgs_tool by (auto elim: map_sum_Inr)
  moreover have "list_all known_flag args"
    using calculation(2) common known_blast_flags by (auto split: if_splits)
  ultimately show ?thesis by blast
qed


section \<open>One action at a time\<close>

text \<open>
  The panel with its action goroutines: every handler is a step, and so are the lines the log
  followers read, what a running action does, and its end.
\<close>

type_synonym panel = "ui_state \<times> action list"

definition with_action :: "(response \<times> action option) \<times> ui_state \<Rightarrow> action list \<Rightarrow> panel" where
  "with_action out acts = (snd out, acts @ (case snd (fst out) of None \<Rightarrow> [] | Some a \<Rightarrow> [a]))"

inductive panel_step :: "panel \<Rightarrow> panel \<Rightarrow> bool" where
  step_stack: "panel_step (s, acts) (with_action (handleStack jerr order body s) acts)"
| step_impair: "panel_step (s, acts) (with_action (handleImpair env jerr body s) acts)"
| step_run: "panel_step (s, acts) (with_action (handleRun env parseFloat jerr body s) acts)"
| step_stop: "panel_step (s, acts) (snd (handleStop now s), acts)"
| step_reset: "panel_step (s, acts) (snd (handleReset now s), acts)"
| step_line: "panel_step (s, acts) (ui_line now src line s, acts)"
| step_tick: "panel_step (s, acts) (snd (ui_tick s), acts)"
| step_connectors: "panel_step (s, acts) (s\<lparr>ui_flow := pollConnectors out (ui_flow s)\<rparr>, acts)"
| step_health: "panel_step (s, acts) (updateServiceHealth parsePct ps stats now service s, acts)"
| step_work: "a \<in> set acts \<Longrightarrow> panel_step (s, acts) (action_body now later a p s, acts)"
| step_end: "a \<in> set acts \<Longrightarrow> panel_step (s, acts) (ui_finish s, remove1 a acts)"

inductive_cases panel_step_cases: "panel_step (s, acts) t"

definition panel_start :: "panel \<Rightarrow> bool" where
  "panel_start p \<longleftrightarrow> ui_running (fst p) = None \<and> snd p = []"

definition panel_inv :: "panel \<Rightarrow> bool" where
  "panel_inv p \<longleftrightarrow> length (snd p) = (if ui_running (fst p) = None then 0 else 1)"

lemma ui_line_running [simp]: "ui_running (ui_line now src line s) = ui_running s"
  by (simp add: ui_line_def split: prod.split)

lemma ui_scan_running [simp]: "ui_running (ui_scan ls err src s) = ui_running s"
proof -
  have "ui_running (scan_lines_from ls src s) = ui_running s"
    by (induction ls src s rule: scan_lines_from.induct) simp_all
  then show ?thesis by (simp add: ui_scan_def Let_def split: option.split)
qed

lemma action_body_running [simp]: "ui_running (action_body now later a p s) = ui_running s"
  by (simp add: action_body_def runStreaming_def split: option.split prod.split)

lemma handlers_running [simp]:
  "ui_running (snd (handleStop now s)) = ui_running s" "ui_running (snd (Ui_Control.handleReset now s)) = ui_running s"
  "ui_running (ui_finish s) = None"
  by (simp_all add: handleStop_def Ui_Control.handleReset_def ui_finish_def status_message_def)

lemma pollers_running [simp]:
  "ui_running (snd (ui_tick s)) = ui_running s"
  "ui_running (updateServiceHealth parsePct ps stats now service s) = ui_running s"
  by (simp_all add: ui_tick_def updateServiceHealth_def setServiceHealth_def Let_def split: prod.split option.split)

definition claims_slot :: "(response \<times> action option) \<times> ui_state \<Rightarrow> ui_state \<Rightarrow> bool" where
  \<comment> \<open>what every handler that starts an action does to the slot: take it if it is free, else refuse\<close>
  "claims_slot out s \<longleftrightarrow>
     (snd (fst out) = None \<and> resp_status (fst (fst out)) = Some 400 \<and> snd out = s) \<or>
     (ui_running s = None \<and> snd (fst out) \<noteq> None \<and> ui_running (snd out) \<noteq> None \<and> resp_status (fst (fst out)) = Some 202)"

lemma httpErr_status [simp]: "resp_status (httpErr e) = Some 400"
  by (simp add: httpErr_def response_defs Let_def)

lemma accepted_status [simp]: "resp_status accepted = Some 202"
  by (simp add: accepted_def response_defs)

lemma claims_refused [simp]: "claims_slot ((httpErr e, None), s) s"
  by (simp add: claims_slot_def)

lemma start_action_claims [simp]: "claims_slot (start_action name a s) s"
  by (auto simp: start_action_def ui_start_def claims_slot_def status_message_def split: option.splits)

lemma handleStack_claims: "claims_slot (handleStack jerr order body s) s"
  by (simp add: handleStack_def split: option.split sum.split prod.split)

lemma handleRun_claims: "claims_slot (handleRun env parseFloat jerr body s) s"
  by (simp add: handleRun_def startLogged_def split: option.split sum.split prod.split)

lemma claims_slot_impair:
  "claims_slot out s \<Longrightarrow> claims_slot (case out of ((r, None), s') \<Rightarrow> ((r, None), s')
     | ((r, Some a), s') \<Rightarrow> ((r, Some a), s'\<lparr>ui_flow := f s'\<rparr>)) s"
  by (auto simp: claims_slot_def split: prod.splits option.splits)

lemma handleImpair_claims: "claims_slot (handleImpair env jerr body s) s"
  using claims_slot_impair [OF start_action_claims]
  by (simp add: handleImpair_def Let_def split: option.split sum.split)

lemmas handler_claims = handleStack_claims handleRun_claims handleImpair_claims

lemma with_action_inv: "claims_slot out s \<Longrightarrow> panel_inv (s, acts) \<Longrightarrow> panel_inv (with_action out acts)"
  by (auto simp: claims_slot_def panel_inv_def with_action_def split: if_splits)

lemma panel_step_inv:
  assumes "panel_inv p" "panel_step p q"
  shows "panel_inv q"
  using assms(2,1)
proof (induction rule: panel_step.induct)
  case step_stack
  then show ?case by (rule with_action_inv [OF handleStack_claims])
next
  case step_impair
  then show ?case by (rule with_action_inv [OF handleImpair_claims])
next
  case step_run
  then show ?case by (rule with_action_inv [OF handleRun_claims])
next
  case (step_end a acts s)
  then show ?case by (auto simp: panel_inv_def length_remove1 split: if_splits)
qed (simp_all add: panel_inv_def)

interpretation panel: transition_system panel_start panel_step panel_inv
proof unfold_locales
  show "panel_start p \<Longrightarrow> panel_inv p" for p by (simp add: panel_start_def panel_inv_def)
qed (rule panel_step_inv)

lemma scan_steps: "panel_step\<^sup>*\<^sup>* (s, acts) (scan_lines_from ls src s, acts)"
  by (induction ls src s rule: scan_lines_from.induct)
    (auto intro: converse_rtranclp_into_rtranclp step_line)

lemma ui_scan_steps: "panel_step\<^sup>*\<^sup>* (s, acts) (ui_scan ls err src s, acts)"
  using scan_steps [of s acts ls src]
  by (auto simp: ui_scan_def Let_def intro: rtranclp.rtrancl_into_rtrancl step_line split: option.split)

text \<open>
  The goroutines of \<open>Main\<close> are runs of the step relation: a log follower, in every round and for every
  line of it; the health poller, in every round for each of its services.
\<close>

lemma tailLogs_steps: "panel_step\<^sup>*\<^sup>* (s, acts) (tailLogs service rs s, acts)"
  by (induction service rs s rule: tailLogs.induct) (auto intro: rtranclp_trans ui_scan_steps)

lemma pollServiceHealth_steps: "panel_step\<^sup>*\<^sup>* (s, acts) (pollServiceHealth parsePct ds s, acts)"
proof (induction parsePct ds s rule: pollServiceHealth.induct)
  case (2 parsePct d ds s)
  have "panel_step\<^sup>*\<^sup>* (s, acts) (fold (\<lambda>svc. updateServiceHealth parsePct (dr_ps d svc) (dr_stats d) (dr_now d svc) svc) svcs s, acts)" for svcs s
    by (induction svcs arbitrary: s) (auto intro: converse_rtranclp_into_rtranclp step_health)
  then show ?case unfolding pollServiceHealth.simps by (rule rtranclp_trans [OF _ "2.IH"])
qed simp

text \<open>Every request, whatever its path, is one step or leaves the server's state alone.\<close>

lemma ui_serve_steps: "panel_step\<^sup>=\<^sup>= (s, acts) (with_action (ui_serve env path body s) acts)"
  by (auto simp: ui_serve_def with_action_def case_prod_beta split: ui_handler.split
      intro: step_stop step_reset step_stack [unfolded with_action_def] step_impair [unfolded with_action_def]
        step_run [unfolded with_action_def])

text \<open>C13: two actions never interleave. In every state the panel can get into, whatever requests, polls, log
  lines, stops and ends of actions led there, at most one action is running, and the slot is taken
  exactly while one is; until it ends, every further request to start something is answered with a 400
  and changes nothing, and once it has ended the slot is free again.\<close>

theorem single_action:
  assumes "panel_start p" "panel_step\<^sup>*\<^sup>* p (s, acts)"
  shows "length acts \<le> 1 \<and> (acts = [] \<longleftrightarrow> ui_running s = None) \<and>
    (\<forall>a out. acts = [a] \<and> out \<in> {handleStack jerr order body s, handleImpair env jerr body s, handleRun env parseFloat jerr body s} \<longrightarrow>
       snd (fst out) = None \<and> resp_status (fst (fst out)) = Some 400 \<and> snd out = s \<and>
       panel_step (s, acts) (ui_finish s, []) \<and> ui_running (ui_finish s) = None)"
proof -
  have inv: "length acts = (if ui_running s = None then 0 else 1)"
    using panel.inv_reachable [OF assms] by (simp add: panel_inv_def)
  have refused: "snd (fst out) = None \<and> resp_status (fst (fst out)) = Some 400 \<and> snd out = s"
    if "claims_slot out s" "acts = [a]" for out a
    using that inv by (auto simp: claims_slot_def split: if_splits)
  have "panel_step (s, [a]) (ui_finish s, [])" for a
    using step_end [of a "[a]" s] by simp
  moreover have "claims_slot out s" if "out \<in> {handleStack jerr order body s, handleImpair env jerr body s,
      handleRun env parseFloat jerr body s}" for out
    using that handler_claims by blast
  ultimately show ?thesis using inv refused by (auto split: if_splits)
qed

lemma stack_env_Inr:
  "stack_env kvs env = Inr env' \<longleftrightarrow> (\<forall>(k, v)\<in>set kvs. v = '''' \<or> matches durationRE v)
     \<and> env' = env @ map (\<lambda>(k, v). k @ ''='' @ v) (filter (\<lambda>(k, v). v \<noteq> '''') kvs)"
  by (induction kvs env rule: stack_env.induct) auto

lemma stack_lb_Inr:
  "stack_lb req env = Inr env' \<longleftrightarrow> sq_TunnelLB req \<in> {'''', ''rr'', ''hash''}
     \<and> env' = env @ (if sq_TunnelLB req = '''' then [] else [''EDGE_TUNNEL_LB='' @ sq_TunnelLB req])"
  by (auto simp: stack_lb_def)

lemma stackCommand_Inr:
  "stackCommand ps req = Inr (env, args) \<longleftrightarrow> (\<forall>(k, v)\<in>set ps. v = '''' \<or> matches durationRE v)
     \<and> sq_TunnelLB req \<in> {'''', ''rr'', ''hash''} \<and> stack_args req = Inr args
     \<and> env = map (\<lambda>(k, v). k @ ''='' @ v) (filter (\<lambda>(k, v). v \<noteq> '''') ps)
         @ (if sq_TunnelLB req = '''' then [] else [''EDGE_TUNNEL_LB='' @ sq_TunnelLB req])"
proof -
  have "stackCommand ps req = Inr (env, args) \<longleftrightarrow>
      (\<exists>e. stack_env ps [] = Inr e \<and> stack_lb req e = Inr env \<and> stack_args req = Inr args)"
    by (cases "stack_args req") (auto simp: stackCommand_def split: sum.splits)
  then show ?thesis unfolding stack_env_Inr stack_lb_Inr by auto
qed

text \<open>The panel's answer to a stack request does not depend on the order in which Go happens to walk
  its map of settings: in any two orders the request is refused in both or accepted in both, and then
  with the same arguments and the same settings in the environment.\<close>

lemma stack_order_irrelevant:
  assumes "mset ps = mset (stack_pairs req)" "mset qs = mset (stack_pairs req)"
  shows "((\<exists>e. stackCommand ps req = Inl e) \<longleftrightarrow> (\<exists>e. stackCommand qs req = Inl e)) \<and>
    (\<forall>env args. stackCommand ps req = Inr (env, args) \<longrightarrow>
       (\<exists>env'. stackCommand qs req = Inr (env', args) \<and> mset env' = mset env))"
proof -
  let ?line = "\<lambda>(k, v). k @ ''='' @ v" and ?set = "\<lambda>(k, v). v \<noteq> ''''"
  have ms: "mset ps = mset qs" using assms by simp
  then have st: "set ps = set qs" by (metis set_mset_mset)
  have lines: "mset (map ?line (filter ?set ps)) = mset (map ?line (filter ?set qs))"
    using ms by (simp only: mset_map mset_filter)
  have step: "\<exists>env'. stackCommand qs req = Inr (env', args) \<and> mset env' = mset env"
    if "stackCommand ps req = Inr (env, args)" for env args
    using that lines unfolding stackCommand_Inr st by simp
  have conv: "\<exists>env'. stackCommand ps req = Inr (env', args)" if "stackCommand qs req = Inr (env, args)" for env args
    using that unfolding stackCommand_Inr st by simp
  show ?thesis using step conv by (metis Inl_Inr_False obj_sumE old.prod.exhaust)
qed

section \<open>Witnesses\<close>

definition demo_plan :: plan_env where
  "demo_plan = \<lparr>pe_formatFloat = (\<lambda>_. ''50''), pe_self = Inr ''/usr/bin/quicshot'',
     pe_parseURL = (\<lambda>s. Inr \<lparr>pu_Scheme = ''https'', pu_Host = ''edge'', pu_String = s\<rparr>),
     pe_join = join_with ''/'', pe_dir = ''.''\<rparr>"

definition demo_run :: runReq where
  "demo_run = zero_runReq\<lparr>rq_Tool := ''blast'', rq_URL := ''https://edge/fast'', rq_Duration := ''10s'',
     rq_Headers := [''a: b''], rq_Body := ''-log=/etc/passwd''\<rparr>"

definition demo_impair :: string where
  "demo_impair = marshal_object [(''service'', EStr ''edge''), (''mode'', EStr ''loss''), (''a'', EStr ''3%'')]"

lemma demo_impair_accepted: "\<exists>r a s'. handleImpair demo_plan (new_error '''') demo_impair new_server = ((r, Some a), s')"
proof -
  have "snd (fst (handleImpair demo_plan (new_error '''') demo_impair new_server)) \<noteq> None"
    by code_simp
  then show ?thesis by (metis not_None_eq prod.collapse)
qed

theorem impair_argv_safe_witness:
  "\<exists>r a s'. handleImpair demo_plan (new_error '''') demo_impair new_server = ((r, Some a), s') \<and>
     (\<exists>service mode vals. ac_argv a = service # mode # vals \<and> (\<forall>v\<in>set vals. is_digit (hd v)))"
proof -
  obtain r a s' where h: "handleImpair demo_plan (new_error '''') demo_impair new_server = ((r, Some a), s')"
    using demo_impair_accepted by blast
  obtain service mode vals where "ac_argv a = service # mode # vals" "\<forall>v\<in>set vals. is_digit (hd v)"
    using impair_argv_safe [OF h] by metis
  then have "\<exists>service mode vals. ac_argv a = service # mode # vals \<and> (\<forall>v\<in>set vals. is_digit (hd v))" by metis
  then show ?thesis using h by metis
qed


theorem single_action_witness:
  "\<exists>s a. panel_step\<^sup>*\<^sup>* (new_server, []) (s, [a]) \<and>
     resp_status (fst (fst (handleImpair demo_plan (new_error '''') demo_impair s))) = Some 400"
proof -
  obtain r a s' where h: "handleImpair demo_plan (new_error '''') demo_impair new_server = ((r, Some a), s')"
    using demo_impair_accepted by blast
  have "panel_step (new_server, []) (s', [a])"
    using step_impair [of new_server "[]" demo_plan "new_error ''''" demo_impair] h by (simp add: with_action_def)
  then have run: "panel_step\<^sup>*\<^sup>* (new_server, []) (s', [a])" by (rule r_into_rtranclp)
  moreover have "panel_start (new_server, [])" by (simp add: panel_start_def new_server_def)
  ultimately show ?thesis
    using single_action [of "(new_server, [])" s' "[a]" "new_error ''''" stack_pairs demo_impair demo_plan] by blast
qed

end
