(* ===== verification/Cli.thy ===== *)
theory Cli
  imports Edge_Http Connector Origin Blast_Report Probe Certs Ui_Commands
begin

text \<open>
  \<^verbatim>\<open>cmd/quicshot/main.go\<close> and the \<open>Main\<close> functions of the servers: the command line. Every sub-command
  has its flag set; a wrong flag ends the process with status 2 (\<open>ExitOnError\<close>), an error of the
  sub-command with status 1. What a sub-command does with its options is in the theory of its component.
\<close>

section \<open>Flag sets\<close>

definition edge_flags :: "edge_config flag_set" where
  "edge_flags = [
     (''addr'', StringFlag (\<lambda>v. publicAddr_update (\<lambda>_. v))),
     (''tunnel-addr'', StringFlag (\<lambda>v. tunnelAddr_update (\<lambda>_. v))),
     (''certs'', StringFlag (\<lambda>v. certDir_update (\<lambda>_. v))),
     (''origin-timeout'', DurationFlag (\<lambda>v. originTimeout_update (\<lambda>_. v))),
     (''max-idle-timeout'', DurationFlag (\<lambda>v. maxIdle_update (\<lambda>_. v))),
     (''keepalive'', DurationFlag (\<lambda>v. keepAlive_update (\<lambda>_. v))),
     (''tunnel-max-idle-timeout'', DurationFlag (\<lambda>v. tunnelMaxIdle_update (\<lambda>_. v))),
     (''tunnel-keepalive'', DurationFlag (\<lambda>v. tunnelKeepAlive_update (\<lambda>_. v))),
     (''tunnel-lb'', StringFlag (\<lambda>v. tunnelLB_update (\<lambda>_. v))),
     (''udp-recv-buffer'', IntFlag (\<lambda>v. edge_recvBuf_update (\<lambda>_. v))),
     (''udp-send-buffer'', IntFlag (\<lambda>v. edge_sendBuf_update (\<lambda>_. v))),
     (''stats-every'', DurationFlag (\<lambda>v. edge_statsEvery_update (\<lambda>_. v))),
     (''qlog-dir'', StringFlag (\<lambda>v. edge_qlogDir_update (\<lambda>_. v)))]"

record connector_flag_values =
  cf_opts :: start_opts
  cf_certDir :: string
  cf_insecure :: bool
  cf_originTimeout :: duration
  cf_reuse :: bool
  cf_http2 :: bool

definition default_connector :: connector_flag_values where
  "default_connector = \<lparr>cf_opts = \<lparr>so_EdgeAddr = ''edge:7844'', so_OriginURL = ''http://origin:8080'', so_QlogDir = '''',
       so_Hostname = ''edge'', so_Idle = 30 * Go_Prelude.second, so_KeepAlive = 5 * Go_Prelude.second, so_HA = 1,
       so_SkipRegister = False, so_RegisterDelay = 0\<rparr>,
     cf_certDir = ''/certs'', cf_insecure = False, cf_originTimeout = 100 * Go_Prelude.second, cf_reuse = True, cf_http2 = False\<rparr>"

definition connector_flags :: "connector_flag_values flag_set" where
  \<comment> \<open>the server name is also the hostname the connector registers\<close>
  "connector_flags = [
     (''edge'', StringFlag (\<lambda>v. cf_opts_update (so_EdgeAddr_update (\<lambda>_. v)))),
     (''origin'', StringFlag (\<lambda>v. cf_opts_update (so_OriginURL_update (\<lambda>_. v)))),
     (''certs'', StringFlag (\<lambda>v. cf_certDir_update (\<lambda>_. v))),
     (''server-name'', StringFlag (\<lambda>v. cf_opts_update (so_Hostname_update (\<lambda>_. v)))),
     (''insecure'', BoolFlag (\<lambda>v. cf_insecure_update (\<lambda>_. v))),
     (''max-idle-timeout'', DurationFlag (\<lambda>v. cf_opts_update (so_Idle_update (\<lambda>_. v)))),
     (''keepalive'', DurationFlag (\<lambda>v. cf_opts_update (so_KeepAlive_update (\<lambda>_. v)))),
     (''origin-timeout'', DurationFlag (\<lambda>v. cf_originTimeout_update (\<lambda>_. v))),
     (''qlog-dir'', StringFlag (\<lambda>v. cf_opts_update (so_QlogDir_update (\<lambda>_. v)))),
     (''ha-connections'', IntFlag (\<lambda>v. cf_opts_update (so_HA_update (\<lambda>_. v)))),
     (''origin-reuse'', BoolFlag (\<lambda>v. cf_reuse_update (\<lambda>_. v))),
     (''origin-http2'', BoolFlag (\<lambda>v. cf_http2_update (\<lambda>_. v)))]"

definition origin_flags :: "string flag_set" where
  "origin_flags = [(''addr'', StringFlag (\<lambda>v _. v))]"

section \<open>Sub-commands\<close>

datatype command_end = Returns "goerr option" | Exits int
  \<comment> \<open>the error a \<open>Main\<close> returns, or the status it ends the process with itself\<close>

definition with_flags :: "flag_env \<Rightarrow> 'c flag_set \<Rightarrow> 'c \<Rightarrow> string list \<Rightarrow> ('c \<Rightarrow> command_end) \<Rightarrow> command_end" where
  "with_flags fenv fs defaults args run = (case parse_flags fenv fs args defaults of
     Inl e \<Rightarrow> Exits (flag_exit e) | Inr (c, _) \<Rightarrow> run c)"

definition edge_Main :: "flag_env \<Rightarrow> (string \<Rightarrow> string \<Rightarrow> goerr option) \<Rightarrow> (Edge \<Rightarrow> goerr option) \<Rightarrow> string list \<Rightarrow> command_end" where
  \<comment> \<open>\<open>tls.LoadX509KeyPair\<close> and what serving until the end of the context returns are arguments\<close>
  "edge_Main fenv loadPair serve args = with_flags fenv edge_flags default_edge_config args (\<lambda>cfg.
     case edge_check_config cfg of Inl e \<Rightarrow> Returns (Some e)
     | Inr cfg' \<Rightarrow> (case loadPair (certDir cfg' @ ''/'' @ CertFile) (certDir cfg' @ ''/'' @ KeyFile) of
         Some e \<Rightarrow> Returns (Some (wrap_error ''load key pair: '' e))
       | None \<Rightarrow> Returns (serve (new_edge cfg'))))"

definition connector_plan :: "(string \<Rightarrow> goerr option) \<Rightarrow> connector_flag_values \<Rightarrow> goerr + start_opts \<times> origin_client" where
  \<comment> \<open>what \<open>Start\<close> is called with; the argument is \<open>LoadCAPool\<close> on the directory\<close>
  "connector_plan loadPool c =
     (case (if cf_insecure c then None else loadPool (cf_certDir c)) of Some e \<Rightarrow> Inl e
      | None \<Rightarrow> Inr (cf_opts c, optsOriginClient (cf_originTimeout c) (cf_reuse c) (cf_http2 c)))"

definition connector_Main :: "flag_env \<Rightarrow> (string \<Rightarrow> goerr option) \<Rightarrow> string list \<Rightarrow> command_end" where
  \<comment> \<open>\<open>Start\<close> returns nil, once every one of its loops has ended\<close>
  "connector_Main fenv loadPool args = with_flags fenv connector_flags default_connector args (\<lambda>c.
     case connector_plan loadPool c of Inl e \<Rightarrow> Returns (Some e) | Inr _ \<Rightarrow> Returns None)"

definition origin_Listen :: "goerr option \<Rightarrow> ctx_err \<Rightarrow> goerr option" where
  "origin_Listen listen ctx = (case listen of Some e \<Rightarrow> Some e | None \<Rightarrow> map_option sentinel_error ctx)"

definition origin_Main :: "flag_env \<Rightarrow> (string \<Rightarrow> goerr option) \<Rightarrow> ctx_err \<Rightarrow> string list \<Rightarrow> command_end" where
  "origin_Main fenv listen ctx args = with_flags fenv origin_flags '':8080'' args (\<lambda>addr.
     Returns (origin_Listen (listen addr) ctx))"

section \<open>The program\<close>

record program =
  pg_gencerts :: "string list \<Rightarrow> command_end"
  pg_origin :: "string list \<Rightarrow> command_end"
  pg_connector :: "string list \<Rightarrow> command_end"
  pg_edge :: "string list \<Rightarrow> command_end"
  pg_blast :: "string list \<Rightarrow> command_end"
  pg_probe :: "string list \<Rightarrow> command_end"
  pg_ui :: "string list \<Rightarrow> command_end"

definition sub_command :: "program \<Rightarrow> string \<Rightarrow> (string list \<Rightarrow> command_end) option" where
  "sub_command pg name =
     (if name = ''gencerts'' then Some (pg_gencerts pg) else if name = ''origin'' then Some (pg_origin pg)
      else if name = ''connector'' then Some (pg_connector pg) else if name = ''edge'' then Some (pg_edge pg)
      else if name = ''blast'' then Some (pg_blast pg) else if name = ''probe'' then Some (pg_probe pg)
      else if name = ''ui'' then Some (pg_ui pg) else None)"

definition quicshot_main :: "program \<Rightarrow> string list \<Rightarrow> int \<times> string" where
  \<comment> \<open>the exit status, and the error line on stderr (empty: none, apart from a usage text); the arguments
    are those after the program's name\<close>
  "quicshot_main pg args =
     (case args of [] \<Rightarrow> (2, '''')
      | name # rest \<Rightarrow>
        (case sub_command pg name of
           Some run \<Rightarrow> (case run rest of Exits n \<Rightarrow> (n, '''') | Returns None \<Rightarrow> (0, '''')
             | Returns (Some e) \<Rightarrow> (1, ''quicshot '' @ name @ '': '' @ err_text e))
         | None \<Rightarrow> if name \<in> set [''-h'', ''--help'', ''help''] then (0, '''') else (2, '''')))"

definition gencerts_command :: "flag_env \<Rightarrow> crypto \<Rightarrow> disk \<Rightarrow> (string \<Rightarrow> cert_dir) \<Rightarrow> string list \<Rightarrow> command_end" where
  \<comment> \<open>a panic ends the process with status 2\<close>
  "gencerts_command fenv cy dk dirs args = (case certs_Main fenv cy dk args dirs of
     Inl e \<Rightarrow> Exits (flag_exit e) | Inr (Panic _) \<Rightarrow> Exits 2 | Inr (Done (err, _)) \<Rightarrow> Returns err)"

definition blast_command :: "flag_env \<Rightarrow> main_env \<Rightarrow> (verdict_error \<Rightarrow> goerr) \<Rightarrow> string list \<Rightarrow> command_end" where
  "blast_command fenv env verdict_err args = (case parseConfig fenv args of
     Inl e \<Rightarrow> Exits (flag_exit e)
   | Inr cfg \<Rightarrow> (case blast_Main env cfg of ConfigError e \<Rightarrow> Returns (Some e)
       | Verdict v \<Rightarrow> Returns (map_option verdict_err v)))"

definition probe_command :: "flag_env \<Rightarrow> probe_env \<Rightarrow> string list \<Rightarrow> command_end" where
  "probe_command fenv env args = (case probe_parse fenv args of
     Inl e \<Rightarrow> Exits (flag_exit e)
   | Inr opts \<Rightarrow> (case probe_Main env opts of ProbeError e \<Rightarrow> Returns (Some e)
       | ProbeExit n _ \<Rightarrow> if n = 0 then Returns None else Exits n))"

definition ui_command :: "goerr option \<Rightarrow> (string \<Rightarrow> goerr) \<Rightarrow> goerr + string \<Rightarrow> goerr + string \<Rightarrow> int \<Rightarrow> string list \<Rightarrow> command_end" where
  "ui_command sub listen want got now args = (case ui_Main sub listen want got now args of
     UiHelp \<Rightarrow> Returns None | UiFails e \<Rightarrow> Returns (Some e) | UiServes _ _ _ e \<Rightarrow> Returns (Some e))"

end
