(* ===== verification/Panel_Runs.thy ===== *)
theory Panel_Runs
  imports Ui_Commands Blast_Config Probe
begin

text \<open>
  The two ends of a command line: the arguments the panel builds for a run
  (\<open>Ui_Commands.buildRunArgs\<close>) against the flag sets of the tools that get them
  (\<open>Blast_Config.parseConfig\<close>, \<open>Probe.probe_parse\<close>). A group of arguments is described by what it does to
  the configuration of the flag set that reads it.
\<close>

section \<open>Groups of arguments\<close>

definition reads :: "flag_env \<Rightarrow> 'c flag_set \<Rightarrow> string list \<Rightarrow> ('c \<Rightarrow> 'c) \<Rightarrow> bool" where
  "reads env fs xs f \<longleftrightarrow> (\<forall>args c. parse_flags env fs (xs @ args) c = parse_flags env fs args (f c))"

lemma reads_Nil: "reads env fs [] (\<lambda>c. c)"
  by (simp add: reads_def)

lemma reads_append: "reads env fs xs f \<Longrightarrow> reads env fs ys g \<Longrightarrow> reads env fs (xs @ ys) (\<lambda>c. g (f c))"
  by (simp add: reads_def)

lemma reads_if: "(P \<Longrightarrow> reads env fs xs f) \<Longrightarrow> reads env fs (if P then xs else []) (\<lambda>c. if P then f c else c)"
  by (simp add: reads_def)

lemma reads_opt:
  assumes "P \<Longrightarrow> reads env fs xs (upd (\<lambda>_. v))" "\<And>c. upd (\<lambda>x. x) c = c"
  shows "reads env fs (if P then xs else []) (upd (\<lambda>x. if P then v else x))"
  using assms by (cases P) (simp_all add: reads_def)

lemma reads_value:
  assumes "flag_name n" "map_of fs n = Some fv" "\<And>c. flag_set_value env fv v c = Some (f c)"
  shows "reads env fs [CHR ''-'' # n @ CHR ''='' # v] f"
  using parse_flags_value [OF assms(1,2,3)] by (simp add: reads_def)

lemma reads_switch:
  assumes "flag_name n" "map_of fs n = Some (BoolFlag upd)"
  shows "reads env fs [CHR ''-'' # n] (upd True)"
  using parse_flags_switch [OF assms] by (simp add: reads_def)

lemma reads_all:
  assumes "\<And>v. v \<in> set vs \<Longrightarrow> reads env fs [g v] (f v)"
  shows "reads env fs (map g vs) (fold f vs)"
  using assms
proof (induction vs)
  case (Cons v vs)
  then show ?case using reads_append [of env fs "[g v]" "f v" "map g vs" "fold f vs"] by simp
qed (simp add: reads_def)

lemma reads_end: "reads env fs xs f \<Longrightarrow> parse_flags env fs xs c = Inr (f c, [])"
  using spec [of _ "[]"] by (simp add: reads_def) (metis append_Nil2 parse_flags.simps(1))

section \<open>What a run request asks for\<close>

definition duration_or :: "flag_env \<Rightarrow> string \<Rightarrow> duration \<Rightarrow> duration" where
  "duration_or env s d = (if s = '''' then d else case parse_duration env s of Some x \<Rightarrow> x | None \<Rightarrow> d)"

definition requested :: "flag_env \<Rightarrow> runReq \<Rightarrow> string \<Rightarrow> blast_config" where
  \<comment> \<open>the configuration a run request describes, on top of the harness's defaults\<close>
  "requested env req target = parseConfig_defaults\<lparr>bc_target := target, bc_headers := filter (\<lambda>h. h \<noteq> '''') (rq_Headers req),
     bc_insecure := rq_Insecure req, bc_certDir := (if rq_LocalCerts req then ''/certs'' else ''''),
     bc_serverName := (if rq_LocalCerts req then ''edge'' else ''''),
     bc_duration := duration_or env (rq_Duration req) (30 * second), bc_timeout := duration_or env (rq_Timeout req) (30 * second),
     bc_keepAlive := duration_or env (rq_KeepAlive req) 0, bc_maxIdle := duration_or env (rq_MaxIdle req) (30 * second),
     bc_warmup := duration_or env (rq_Warmup req) 0,
     bc_conns := clamp (rq_Conns req) 1 64, bc_workers := clamp (rq_Workers req) 1 256, bc_readBody := rq_ReadBody req,
     bc_rps := max 0 (rq_RPS req), bc_mode := (if rq_Mode req = ''open'' then ''open'' else ''closed''),
     bc_maxInflight := (if rq_MaxInflight req > 0 then min (rq_MaxInflight req) 4096 else 0),
     bc_method := (if rq_Method req = '''' \<or> equal_fold (rq_Method req) ''GET'' then ''GET'' else rq_Method req),
     bc_bodyStr := rq_Body req, bc_urls := rq_URLs req, bc_probe0RTT := rq_Probe0RTT req\<rparr>"

definition durations_fit :: "flag_env \<Rightarrow> runReq \<Rightarrow> bool" where
  \<comment> \<open>no duration is too large for 64 bits of nanoseconds\<close>
  "durations_fit env req \<longleftrightarrow> (\<forall>s \<in> {rq_Duration req, rq_Timeout req, rq_KeepAlive req, rq_MaxIdle req, rq_Warmup req}.
     s \<noteq> '''' \<longrightarrow> parse_duration env s \<noteq> None)"

section \<open>The harness reads the panel's arguments\<close>

lemmas arg_defs = reads_def token_of_def blast_flags_def Let_def

lemma reads_strings:
  "reads env blast_flags [''-url='' @ v] (bc_target_update (\<lambda>_. v))"
  "reads env blast_flags [''-header='' @ v] (bc_headers_update (\<lambda>hs. hs @ [v]))"
  "reads env blast_flags [''-certs=/certs'', ''-server-name=edge''] (\<lambda>c. c\<lparr>bc_certDir := ''/certs'', bc_serverName := ''edge''\<rparr>)"
  "reads env blast_flags [''-mode=open''] (bc_mode_update (\<lambda>_. ''open''))"
  "reads env blast_flags [''-method='' @ v] (bc_method_update (\<lambda>_. v))"
  "reads env blast_flags [''-body='' @ v] (bc_bodyStr_update (\<lambda>_. v))"
  "reads env blast_flags [''-urls='' @ v] (bc_urls_update (\<lambda>_. v))"
  by (simp_all add: arg_defs)

lemma reads_switches:
  "reads env blast_flags [''-insecure''] (bc_insecure_update (\<lambda>_. True))"
  "reads env blast_flags [''-probe-0rtt''] (bc_probe0RTT_update (\<lambda>_. True))"
  "reads env blast_flags [''-read-body='' @ bool_string b] (bc_readBody_update (\<lambda>_. b))"
proof -
  have "parse_bool ''true'' = Some True" using parse_bool_string [of True] by (simp add: bool_string_def)
  then show "reads env blast_flags [''-insecure''] (bc_insecure_update (\<lambda>_. True))"
    "reads env blast_flags [''-probe-0rtt''] (bc_probe0RTT_update (\<lambda>_. True))"
    "reads env blast_flags [''-read-body='' @ bool_string b] (bc_readBody_update (\<lambda>_. b))"
    by (simp_all add: arg_defs parse_bool_string)
qed

lemma reads_numbers:
  assumes "0 \<le> i" "in_int64 i"
  shows "reads env blast_flags [''-conns='' @ itoa i] (bc_conns_update (\<lambda>_. i))"
    "reads env blast_flags [''-workers='' @ itoa i] (bc_workers_update (\<lambda>_. i))"
    "reads env blast_flags [''-max-inflight='' @ itoa i] (bc_maxInflight_update (\<lambda>_. i))"
  using assms by (simp_all add: arg_defs parse_itoa_base0)

lemma reads_rps: "fe_float env s = Some x \<Longrightarrow> reads env blast_flags [''-rps='' @ s] (bc_rps_update (\<lambda>_. x))"
  by (simp add: arg_defs)

lemma reads_durations:
  assumes "parse_duration env s = Some d"
  shows "reads env blast_flags [''-duration='' @ s] (bc_duration_update (\<lambda>_. d))"
    "reads env blast_flags [''-timeout='' @ s] (bc_timeout_update (\<lambda>_. d))"
    "reads env blast_flags [''-keepalive='' @ s] (bc_keepAlive_update (\<lambda>_. d))"
    "reads env blast_flags [''-max-idle-timeout='' @ s] (bc_maxIdle_update (\<lambda>_. d))"
    "reads env blast_flags [''-warmup='' @ s] (bc_warmup_update (\<lambda>_. d))"
  using assms by (simp_all add: arg_defs)

lemma reads_stats: "reads env blast_flags [''-stats-every=5s''] (bc_statsEvery_update (\<lambda>_. 5 * second))"
proof -
  have "all_digits ''5''" by code_simp
  then have "parse_duration env (''5'' @ ''s'') = Some (5 * second)"
    by (subst duration_one [where unit = 1000000000]) (simp_all add: unit_map_def number_char_def is_digit_def byte_of_def digits_nat_def digit_val_def)
  then show ?thesis by (simp add: arg_defs)
qed

definition opt_arg :: "string \<Rightarrow> string \<Rightarrow> string list" where
  "opt_arg k v = (if v \<noteq> '''' then [k @ v] else [])"

lemma duration_flags_args:
  "duration_flags kvs args = Inr args' \<Longrightarrow> args' = args @ concat (map (\<lambda>(k, v). opt_arg k v) kvs)"
  by (induction kvs args rule: duration_flags.induct) (auto simp: opt_arg_def split: if_splits)

definition fixed_args :: "runReq \<Rightarrow> string list" where
  "fixed_args req = [''-conns='' @ itoa (clamp (rq_Conns req) 1 64), ''-workers='' @ itoa (clamp (rq_Workers req) 1 256),
     ''-stats-every=5s'', ''-read-body='' @ bool_string (rq_ReadBody req)]"

definition duration_args :: "runReq \<Rightarrow> string list" where
  "duration_args req = opt_arg ''-duration='' (rq_Duration req) @ opt_arg ''-timeout='' (rq_Timeout req)
      @ opt_arg ''-keepalive='' (rq_KeepAlive req) @ opt_arg ''-max-idle-timeout='' (rq_MaxIdle req)"

definition warmup_args :: "runReq \<Rightarrow> string list" where
  "warmup_args req = (if rq_Warmup req \<noteq> '''' \<and> \<not> zeroDuration (rq_Warmup req) then [''-warmup='' @ rq_Warmup req] else [])"

definition optional_args :: "(rat \<Rightarrow> string) \<Rightarrow> runReq \<Rightarrow> string list" where
  "optional_args formatFloat req = (if rq_RPS req > 0 then [''-rps='' @ formatFloat (rq_RPS req)] else [])
      @ (if rq_Mode req = ''open'' then [''-mode=open''] else [])
      @ (if rq_MaxInflight req > 0 then [''-max-inflight='' @ itoa (clamp (rq_MaxInflight req) 1 4096)] else [])
      @ (if rq_Method req \<noteq> '''' \<and> \<not> equal_fold (rq_Method req) ''GET'' then [''-method='' @ rq_Method req] else [])
      @ opt_arg ''-body='' (rq_Body req) @ opt_arg ''-urls='' (rq_URLs req)
      @ (if rq_Probe0RTT req then [''-probe-0rtt''] else [])"

lemma appendOptional_args: "appendOptionalBlastFlags formatFloat args req = Inr (args @ optional_args formatFloat req)"
  unfolding appendOptionalBlastFlags_def optional_args_def opt_arg_def by (rule refl)

lemma appendWarmup_args: "appendWarmupFlag args (rq_Warmup req) = Inr args' \<Longrightarrow> args' = args @ warmup_args req"
  unfolding appendWarmupFlag_def warmup_args_def
  by (cases "rq_Warmup req = '''' \<or> zeroDuration (rq_Warmup req)") (auto simp del: append.simps split: if_splits)

lemma appendDuration_args:
  assumes "appendDurationFlags args req = Inr args'"
  shows "args' = args @ duration_args req @ warmup_args req"
proof -
  let ?kvs = "[(''-duration='', rq_Duration req), (''-timeout='', rq_Timeout req),
        (''-keepalive='', rq_KeepAlive req), (''-max-idle-timeout='', rq_MaxIdle req)]"
  have "concat (map (\<lambda>(k, v). opt_arg k v) ?kvs) = duration_args req"
    unfolding duration_args_def list.map concat.simps prod.case append_Nil2 by (rule refl)
  then have d: "as = args @ duration_args req" if "duration_flags ?kvs args = Inr as" for as
    using duration_flags_args [OF that] by (simp only:)
  show ?thesis
  proof (cases "duration_flags ?kvs args")
    case (Inr as)
    then have "appendWarmupFlag as (rq_Warmup req) = Inr args'"
      using assms unfolding appendDurationFlags_def by (simp only: sum.case)
    from appendWarmup_args [OF this] d [OF Inr] show ?thesis by (simp only: append_assoc)
  next
    case (Inl e)
    then show ?thesis using assms unfolding appendDurationFlags_def by (simp only: sum.case sum.distinct)
  qed
qed

lemma appendBlastArgs_args:
  assumes "appendBlastArgs formatFloat args req = Inr args'"
  shows "args' = args @ duration_args req @ warmup_args req @ fixed_args req @ optional_args formatFloat req"
proof (cases "appendDurationFlags args req")
  case (Inr as)
  then have "args' = (as @ fixed_args req) @ optional_args formatFloat req"
    using assms unfolding appendBlastArgs_def fixed_args_def by (simp only: sum.case appendOptional_args sum.inject)
  then show ?thesis using appendDuration_args [OF Inr] by (simp only: append_assoc)
next
  case (Inl e)
  then show ?thesis using assms unfolding appendBlastArgs_def by (simp only: sum.case sum.distinct)
qed

lemma duration_units:
  "u \<in> {''ms'', ''s'', ''m''} \<Longrightarrow> u \<noteq> [] \<and> list_all (\<lambda>c. \<not> number_char c) u \<and> (\<exists>n>0. map_of unit_map u = Some n)"
  by (elim insertE emptyE) (simp_all add: unit_map_def number_char_def is_digit_def byte_of_def)

lemma zeros_value: "list_all (\<lambda>c. c = CHR ''0'') d \<Longrightarrow> digits_nat d = 0"
  by (induction d) (simp_all add: digits_nat_Cons digit_val_def byte_of_def, simp add: digits_nat_def)

lemma zeros_digits: "list_all (\<lambda>c. c = CHR ''0'') d \<Longrightarrow> list_all is_digit d"
  by (induction d) (simp_all add: is_digit_def byte_of_def)

lemma zeroDuration_zero:
  assumes "zeroDuration s"
  shows "parse_duration env s = Some 0"
proof -
  obtain d u where d: "s = d @ u" "d \<noteq> []" "list_all (\<lambda>c. c = CHR ''0'') d" "u \<in> {''ms'', ''s'', ''m''}"
    using assms unfolding zeroDuration_iff by (elim exE conjE) (rule that)
  have digits: "all_digits d" using d(2) zeros_digits [OF d(3)] by (simp add: all_digits_def)
  obtain n where "u \<noteq> []" "list_all (\<lambda>c. \<not> number_char c) u" "map_of unit_map u = Some n" "0 < n"
    using duration_units [OF d(4)] by (elim exE conjE) (rule that)
  from duration_one [OF digits this, of env] show ?thesis
    unfolding zeros_value [OF d(3)] d(1) mult_0 by (simp only: le0 if_True int_ops(1))
qed

definition keep :: "bool \<Rightarrow> 'a \<Rightarrow> 'a \<Rightarrow> 'a" where
  "keep P x y = (if P then x else y)"

lemma reads_keep:
  assumes "P \<Longrightarrow> reads env fs xs (upd (\<lambda>_. v))" "\<And>c. upd (\<lambda>x. x) c = c"
  shows "reads env fs (if P then xs else []) (upd (keep P v))"
  using reads_opt [of P env fs xs upd v, OF assms] by (simp add: keep_def [abs_def])

lemma reads_opt_arg:
  assumes "v \<noteq> '''' \<Longrightarrow> reads env fs [k @ v] (upd (\<lambda>_. x))" "\<And>c. upd (\<lambda>x. x) c = c"
  shows "reads env fs (opt_arg k v) (upd (keep (v \<noteq> '''') x))"
  unfolding opt_arg_def using assms by (rule reads_keep)

lemma config_same:
  "bc_duration_update (\<lambda>x. x) c = c" "bc_timeout_update (\<lambda>x. x) c = c" "bc_keepAlive_update (\<lambda>x. x) c = c"
  "bc_maxIdle_update (\<lambda>x. x) c = c" "bc_warmup_update (\<lambda>x. x) c = c" "bc_rps_update (\<lambda>x. x) c = c"
  "bc_mode_update (\<lambda>x. x) c = c" "bc_maxInflight_update (\<lambda>x. x) c = c" "bc_method_update (\<lambda>x. x) c = c"
  "bc_bodyStr_update (\<lambda>x. x) c = c" "bc_urls_update (\<lambda>x. x) c = c" "bc_probe0RTT_update (\<lambda>x. x) c = c"
  "bc_insecure_update (\<lambda>x. x) c = c"
  by simp_all

lemma fits_duration:
  "durations_fit env req \<Longrightarrow> s \<in> {rq_Duration req, rq_Timeout req, rq_KeepAlive req, rq_MaxIdle req, rq_Warmup req} \<Longrightarrow>
     s \<noteq> '''' \<Longrightarrow> parse_duration env s = Some (duration_or env s d)"
  unfolding durations_fit_def duration_or_def by (cases "parse_duration env s") auto

lemma reads_duration_args:
  assumes "durations_fit env req"
  shows "reads env blast_flags (duration_args req) (\<lambda>c.
    bc_maxIdle_update (keep (rq_MaxIdle req \<noteq> '''') (duration_or env (rq_MaxIdle req) (30 * second)))
      (bc_keepAlive_update (keep (rq_KeepAlive req \<noteq> '''') (duration_or env (rq_KeepAlive req) 0))
        (bc_timeout_update (keep (rq_Timeout req \<noteq> '''') (duration_or env (rq_Timeout req) (30 * second)))
          (bc_duration_update (keep (rq_Duration req \<noteq> '''') (duration_or env (rq_Duration req) (30 * second))) c))))"
  unfolding duration_args_def
  by (intro reads_append reads_opt_arg [where upd = bc_duration_update] reads_opt_arg [where upd = bc_timeout_update]
      reads_opt_arg [where upd = bc_keepAlive_update] reads_opt_arg [where upd = bc_maxIdle_update])
    (simp_all only: config_same reads_durations fits_duration [OF assms] insert_iff simp_thms)

lemma reads_warmup_args:
  assumes "durations_fit env req"
  shows "reads env blast_flags (warmup_args req)
    (bc_warmup_update (keep (rq_Warmup req \<noteq> '''' \<and> \<not> zeroDuration (rq_Warmup req)) (duration_or env (rq_Warmup req) 0)))"
  unfolding warmup_args_def
  by (intro reads_keep [where upd = bc_warmup_update])
    (simp_all only: config_same reads_durations fits_duration [OF assms] insert_iff simp_thms)

lemma clamp_range: "lo \<le> hi \<Longrightarrow> lo \<le> clamp v lo hi \<and> clamp v lo hi \<le> hi"
  by (simp add: clamp_def)

lemma clamp_int64: "0 \<le> lo \<Longrightarrow> lo \<le> hi \<Longrightarrow> hi < 2 ^ 31 \<Longrightarrow> 0 \<le> clamp v lo hi \<and> in_int64 (clamp v lo hi)"
  using clamp_range [of lo hi v] by (simp add: int64_defs)

lemma reads_fixed_args:
  "reads env blast_flags (fixed_args req) (\<lambda>c. bc_readBody_update (\<lambda>_. rq_ReadBody req) (bc_statsEvery_update (\<lambda>_. 5 * second)
     (bc_workers_update (\<lambda>_. clamp (rq_Workers req) 1 256) (bc_conns_update (\<lambda>_. clamp (rq_Conns req) 1 64) c))))"
proof -
  have four: "[a, b, c, d] = [a] @ [b] @ [c] @ [d]" for a b c d :: string by simp
  show ?thesis unfolding fixed_args_def four
    by (intro reads_append reads_stats reads_switches reads_numbers) (simp_all add: clamp_int64)
qed

lemma reads_optional_args:
  assumes "rq_RPS req > 0 \<longrightarrow> fe_float env (formatFloat (rq_RPS req)) = Some (rq_RPS req)"
  shows "reads env blast_flags (optional_args formatFloat req) (\<lambda>c.
    bc_probe0RTT_update (keep (rq_Probe0RTT req) True)
     (bc_urls_update (keep (rq_URLs req \<noteq> '''') (rq_URLs req))
      (bc_bodyStr_update (keep (rq_Body req \<noteq> '''') (rq_Body req))
       (bc_method_update (keep (rq_Method req \<noteq> '''' \<and> \<not> equal_fold (rq_Method req) ''GET'') (rq_Method req))
        (bc_maxInflight_update (keep (rq_MaxInflight req > 0) (clamp (rq_MaxInflight req) 1 4096))
         (bc_mode_update (keep (rq_Mode req = ''open'') ''open'')
          (bc_rps_update (keep (rq_RPS req > 0) (rq_RPS req)) c)))))))"
  unfolding optional_args_def
  by (intro reads_append reads_keep [where upd = bc_probe0RTT_update] reads_opt_arg [where upd = bc_urls_update]
      reads_opt_arg [where upd = bc_bodyStr_update] reads_keep [where upd = bc_method_update] reads_keep [where upd = bc_maxInflight_update]
      reads_keep [where upd = bc_mode_update] reads_keep [where upd = bc_rps_update] reads_rps reads_strings reads_switches reads_numbers config_same)
    (simp_all add: clamp_int64 assms)

lemma reads_headers:
  "reads env blast_flags (map (\<lambda>h. ''-header='' @ h) hs) (bc_headers_update (\<lambda>old. old @ hs))"
proof -
  have "fold (\<lambda>h. bc_headers_update (\<lambda>old. old @ [h])) hs c = bc_headers_update (\<lambda>old. old @ hs) c" for c
    by (induction hs arbitrary: c) (simp_all add: comp_def)
  then have eq: "fold (\<lambda>h. bc_headers_update (\<lambda>old. old @ [h])) hs = bc_headers_update (\<lambda>old. old @ hs)" by (rule ext)
  show ?thesis
    using reads_all [of hs env blast_flags "\<lambda>h. ''-header='' @ h" "\<lambda>h. bc_headers_update (\<lambda>old. old @ [h])", OF reads_strings(2)]
    unfolding eq .
qed

lemma reads_common_args:
  "reads env blast_flags (common_args req target) (\<lambda>c.
    (if rq_LocalCerts req then (\<lambda>c. c\<lparr>bc_certDir := ''/certs'', bc_serverName := ''edge''\<rparr>) else (\<lambda>c. c))
     (bc_insecure_update (keep (rq_Insecure req) True)
      (bc_headers_update (\<lambda>old. old @ filter (\<lambda>h. h \<noteq> '''') (rq_Headers req)) (bc_target_update (\<lambda>_. target) c))))"
proof -
  have split: "common_args req target = [''-url='' @ target] @ map (\<lambda>h. ''-header='' @ h) (filter (\<lambda>h. h \<noteq> '''') (rq_Headers req))
     @ (if rq_Insecure req then [''-insecure''] else [])
     @ (if rq_LocalCerts req then [''-certs=/certs'', ''-server-name=edge''] else [])"
    unfolding common_args_def append_Cons [of "''-url='' @ target"] append_Nil by (rule refl)
  have certs: "reads env blast_flags (if rq_LocalCerts req then [''-certs=/certs'', ''-server-name=edge''] else [])
      (if rq_LocalCerts req then (\<lambda>c. c\<lparr>bc_certDir := ''/certs'', bc_serverName := ''edge''\<rparr>) else (\<lambda>c. c))"
    using reads_strings(3) reads_Nil by (cases "rq_LocalCerts req") simp_all
  show ?thesis unfolding split
    by (intro reads_append certs reads_headers reads_strings(1) reads_keep [where upd = bc_insecure_update] reads_switches(1) config_same(13))
qed

lemma run_args_read:
  assumes "buildRunArgs formatFloat req target = Inr toolArgs" "rq_Tool req = ''blast''" "durations_fit env req"
    and "rq_RPS req > 0 \<longrightarrow> fe_float env (formatFloat (rq_RPS req)) = Some (rq_RPS req)"
  shows "\<exists>args. toolArgs = ''blast'' # args \<and> parseConfig env args = Inr (requested env req target)"
proof -
  obtain args where args: "toolArgs = ''blast'' # args" "appendBlastArgs formatFloat (common_args req target) req = Inr args"
    using assms(1,2) unfolding buildRunArgs_tool by (auto elim: map_sum_Inr simp del: append.simps)
  note split = appendBlastArgs_args [OF args(2)]
  have "rq_Warmup req \<noteq> '''' \<Longrightarrow> zeroDuration (rq_Warmup req) \<Longrightarrow> duration_or env (rq_Warmup req) 0 = 0"
    by (simp add: duration_or_def zeroDuration_zero)
  then have warm: "keep (rq_Warmup req \<noteq> '''' \<and> \<not> zeroDuration (rq_Warmup req)) (duration_or env (rq_Warmup req) 0) 0 = duration_or env (rq_Warmup req) 0"
    by (auto simp: keep_def duration_or_def)
  have infl: "keep (rq_MaxInflight req > 0) (clamp (rq_MaxInflight req) 1 4096) 0 = (if rq_MaxInflight req > 0 then min (rq_MaxInflight req) 4096 else 0)"
    by (auto simp: keep_def clamp_def)
  have dur: "keep (s \<noteq> '''') (duration_or env s d) d = duration_or env s d" for s d by (simp add: keep_def duration_or_def)
  have str: "keep (s \<noteq> '''') s '''' = s" for s by (simp add: keep_def)
  have flag: "keep b True False = b" for b by (simp add: keep_def)
  have mode: "keep (m = ''open'') ''open'' ''closed'' = (if m = ''open'' then ''open'' else ''closed'')" for m by (simp add: keep_def)
  have meth: "keep (m \<noteq> '''' \<and> \<not> equal_fold m ''GET'') m ''GET'' = (if m = '''' \<or> equal_fold m ''GET'' then ''GET'' else m)" for m by (auto simp: keep_def)
  have rps: "keep (0 < x) x 0 = max 0 x" for x :: rat by (auto simp: keep_def)
  note r = reads_end [OF reads_append [OF reads_common_args [of env req target] reads_append [OF reads_duration_args [OF assms(3)]
      reads_append [OF reads_warmup_args [OF assms(3)] reads_append [OF reads_fixed_args [of env req] reads_optional_args [of req env formatFloat, OF assms(4)]]]]],
      of parseConfig_defaults]
  have "parseConfig env args = Inr (requested env req target)"
    unfolding split parseConfig_def r map_sum.simps fst_conv sum.inject
    by (cases "rq_LocalCerts req") (simp_all add: requested_def parseConfig_defaults_def warm infl dur str flag mode meth rps)
  then show ?thesis using args(1) by blast
qed

section \<open>The probe and the panel's arguments\<close>

lemma reads_probe:
  "reads env probe_flags [''-url='' @ v] (po_url_update (\<lambda>_. v))"
  "reads env probe_flags [''-header='' @ v] (po_headers_update (\<lambda>hs. hs @ [v]))"
  "reads env probe_flags [''-insecure''] (po_insecure_update (\<lambda>_. True))"
proof -
  have "parse_bool ''true'' = Some True" using parse_bool_string [of True] by (simp add: bool_string_def)
  then show "reads env probe_flags [''-url='' @ v] (po_url_update (\<lambda>_. v))"
    "reads env probe_flags [''-header='' @ v] (po_headers_update (\<lambda>hs. hs @ [v]))"
    "reads env probe_flags [''-insecure''] (po_insecure_update (\<lambda>_. True))"
    by (simp_all add: reads_def token_of_def probe_flags_def Let_def)
qed

lemma reads_probe_headers:
  "reads env probe_flags (map (\<lambda>h. ''-header='' @ h) hs) (po_headers_update (\<lambda>old. old @ hs))"
proof -
  have "fold (\<lambda>h. po_headers_update (\<lambda>old. old @ [h])) hs c = po_headers_update (\<lambda>old. old @ hs) c" for c
    by (induction hs arbitrary: c) (simp_all add: comp_def)
  then have eq: "fold (\<lambda>h. po_headers_update (\<lambda>old. old @ [h])) hs = po_headers_update (\<lambda>old. old @ hs)" by (rule ext)
  show ?thesis
    using reads_all [of hs env probe_flags "\<lambda>h. ''-header='' @ h" "\<lambda>h. po_headers_update (\<lambda>old. old @ [h])", OF reads_probe(2)]
    unfolding eq .
qed

definition probe_requested :: "runReq \<Rightarrow> string \<Rightarrow> probe_opts" where
  "probe_requested req target = default_probe_opts\<lparr>po_url := target, po_insecure := rq_Insecure req,
     po_headers := filter (\<lambda>h. h \<noteq> '''') (rq_Headers req)\<rparr>"

lemma probe_args_read:
  "probe_parse env (common_args req target)
     = (if rq_LocalCerts req then Inl (NotDefined ''certs'') else Inr (probe_requested req target))"
proof -
  let ?head = "[''-url='' @ target] @ map (\<lambda>h. ''-header='' @ h) (filter (\<lambda>h. h \<noteq> '''') (rq_Headers req))
     @ (if rq_Insecure req then [''-insecure''] else [])"
  let ?certs = "if rq_LocalCerts req then [''-certs=/certs'', ''-server-name=edge''] else []"
  have split: "common_args req target = ?head @ ?certs"
    unfolding common_args_def append_Cons [of "''-url='' @ target"] append_Nil append_assoc by (rule refl)
  have head: "reads env probe_flags ?head (\<lambda>c. po_insecure_update (keep (rq_Insecure req) True)
      (po_headers_update (\<lambda>old. old @ filter (\<lambda>h. h \<noteq> '''') (rq_Headers req)) (po_url_update (\<lambda>_. target) c)))"
    by (intro reads_append reads_probe_headers reads_probe(1,3) reads_keep [where upd = po_insecure_update]) simp
  have certs: "parse_flags env probe_flags [''-certs=/certs'', ''-server-name=edge''] c = Inl (NotDefined ''certs'')" for c
    by (simp add: token_of_def probe_flags_def Let_def)
  note step = head [unfolded reads_def, rule_format]
  show ?thesis
  proof (cases "rq_LocalCerts req")
    case True
    then show ?thesis unfolding probe_parse_def split step by (simp only: if_True certs map_sum.simps id_apply)
  next
    case False
    then show ?thesis unfolding probe_parse_def split step
      by (simp add: probe_requested_def default_probe_opts_def keep_def)
  qed
qed

end
