(* ===== verification/Panel_View.thy ===== *)
theory Panel_View
  imports Edge_Http Blast_Report Ui_Flow
begin

text \<open>
  What the control panel reads out of the lines the other processes write: the log handler of the edge
  and the encoder and printer of the load harness on one side, the substring tests, regular expressions
  and the decoder of the panel on the other. The lemmas are over arbitrary contents of every text field.
\<close>

section \<open>Lines of the structured log\<close>

lemma simple_keys [simp]:
  "simple_key ''msg''" "simple_key ''status''" "simple_key ''connector_id''" "simple_key ''connectors''"
  "simple_key ''elapsed_ms''" "simple_key ''time''" "simple_key ''level''" "simple_key ''role''" "simple_key ''ray''"
  "simple_key ''path''" "simple_key ''proto''" "simple_key ''connector_remote''" "simple_key ''cf_code''"
  "simple_key ''err_kind''" "simple_key ''err_detail''" "simple_key ''bytes''" "simple_key ''remote''"
  "simple_key ''registered''" "simple_key ''ha_id''" "simple_key ''hostname''" "simple_key ''reason''"
  "simple_key ''close_kind''" "simple_key ''close_detail''"
  by code_simp+

lemma plain_messages [simp]:
  "plain_text ''proxied''" "plain_text ''origin failure''" "plain_text ''no connector''"
  "plain_text ''connector registered''" "plain_text ''connector lost''" "plain_text ''connector connected''"
  "plain_text ''connector unregistered''" "plain_text ''body copy interrupted''" "plain_text ''open tunnel stream''"
  "plain_text ''write tunnel request''" "plain_text ''client gave up before the tunnel stream opened''"
  "plain_text ''client gave up before the origin responded''"
  by code_simp+

lemma other_keys_simps [simp]:
  "other_keys k []" "other_keys k (m # ms) \<longleftrightarrow> simple_key (fst m) \<and> fst m \<noteq> k \<and> other_keys k ms"
  "other_keys k (ms @ ms') \<longleftrightarrow> other_keys k ms \<and> other_keys k ms'"
  by (simp_all add: other_keys_def)

lemma msg_is_line:
  assumes "other_keys ''msg'' (log_attrs l)" "plain_text (log_msg l)" "plain_text m"
  shows "msg_is (slog_line tm l) m \<longleftrightarrow> log_msg l = m"
proof -
  have "slog_line tm l = slog_object ([(''time'', EStr tm), (''level'', EStr (level_string (log_level l)))]
      @ (''msg'', EStr (log_msg l)) # log_attrs l)"
    by (simp add: slog_line_def slog_members_def)
  then show ?thesis unfolding msg_is_def using assms by (simp only:) (rule contains_text, simp_all)
qed

lemma extract_present:
  assumes "simple_key k" "k \<notin> {''time'', ''level'', ''msg''}" "log_attrs l = ms @ (k, EInt i) # ms'" "other_keys k ms"
    "0 \<le> i" "in_int64 i"
  shows "extract_number k (slog_line tm l) = i"
proof -
  have "slog_line tm l = slog_object (([(''time'', EStr tm), (''level'', EStr (level_string (log_level l))),
      (''msg'', EStr (log_msg l))] @ ms) @ (k, EInt i) # ms')"
    using assms(3) by (simp add: slog_line_def slog_members_def)
  moreover have "other_keys k ([(''time'', EStr tm), (''level'', EStr (level_string (log_level l))),
      (''msg'', EStr (log_msg l))] @ ms)"
    using assms(2,4) by auto
  ultimately have "find_digits_after (key_lit k) (slog_line tm l) = Some (itoa i)"
    using find_digits_present [OF assms(1) _ assms(5)] by metis
  then show ?thesis using parse_itoa [OF assms(6)] by (simp add: extract_number_def atoi64_def)
qed

lemma extract_absent:
  assumes "simple_key k" "k \<notin> {''time'', ''level'', ''msg''}" "other_keys k (log_attrs l)"
  shows "extract_number k (slog_line tm l) = 0"
proof -
  have "other_keys k (slog_members tm l)" using assms(2,3) by (auto simp: slog_members_def)
  then have "find_digits_after (key_lit k) (slog_line tm l) = None"
    unfolding slog_line_def by (rule find_digits_absent [OF assms(1)])
  then show ?thesis by (simp add: extract_number_def)
qed

lemma observe_edge_line: "observe ''edge'' (slog_line tm l) f = observeEdgeLine (slog_line tm l) f"
  by (simp add: observe_def isEdgeJSON_def slog_line_def slog_object_def)

lemma observe_by_message:
  assumes "other_keys ''msg'' (log_attrs l)" "plain_text (log_msg l)"
  shows "observe ''edge'' (slog_line tm l) f =
    (if log_msg l = ''proxied'' then observeEdgeProxied (slog_line tm l) f
     else if log_msg l = ''origin failure'' then observeEdgeOriginFailure (slog_line tm l) f
     else if log_msg l = ''no connector'' then observeEdgeNoConnector f
     else if log_msg l = ''connector registered'' \<or> log_msg l = ''connector lost'' then observeEdgeConnectorState (slog_line tm l) f
     else f)"
  unfolding observe_edge_line observeEdgeLine_def using msg_is_line [OF assms] by simp

lemma attrs_other_keys [simp]:
  "other_keys ''msg'' (base_attrs x)" "other_keys ''msg'' (conn_attrs x c)" "other_keys ''msg'' (kind_attrs err)"
  "other_keys ''status'' (base_attrs x)" "other_keys ''status'' (conn_attrs x c)"
  by (simp_all add: base_attrs_def conn_attrs_def kind_attrs_def)

definition counted :: "string list" where
  \<comment> \<open>the messages about a request that the panel looks for\<close>
  "counted = [''proxied'', ''origin failure'', ''no connector'']"

definition faithful_line :: "exchange \<Rightarrow> response \<Rightarrow> log_line \<Rightarrow> bool" where
  \<comment> \<open>what the panel relies on in the line about a request\<close>
  "faithful_line x w l \<longleftrightarrow> other_keys ''msg'' (log_attrs l) \<and> plain_text (log_msg l)
     \<and> (log_msg l = ''origin failure'' \<longrightarrow> (\<exists>c code rest. log_attrs l = conn_attrs x c @ (''status'', EInt code) # rest
         \<and> code \<in> {502, 524} \<and> resp_status w = Some code))
     \<and> (log_msg l = ''no connector'' \<longrightarrow> resp_status w = Some 502)"

lemma read_failed_line:
  "faithful_line x (sv_response (read_failed x c err)) (hd (sv_log (read_failed x c err)))"
proof (cases "clientGone (ex_gone_read x)")
  case True
  then show ?thesis by (simp add: faithful_line_def read_failed_def)
next
  case False
  obtain status code label where k: "classifyOriginFailure err (ex_ctx x) = (status, code, label)"
    by (metis surj_pair)
  then have "status \<in> {502, 524}"
    by (auto simp: classifyOriginFailure_def statusOriginTimeout_def StatusBadGateway_def split: if_splits)
  moreover have "200 \<le> status" using calculation by auto
  ultimately show ?thesis using False k by (auto simp: faithful_line_def read_failed_def)
qed

lemma forward_line:
  "faithful_line x (sv_response (forward_response x c r)) (hd (sv_log (forward_response x c r)))"
  by (cases "ex_copy x") (simp_all add: faithful_line_def forward_response_def Let_def)

lemma serve_on_line: "faithful_line x (sv_response (serve_on x c)) (hd (sv_log (serve_on x c)))"
proof (cases "ex_open x = None \<and> ex_write x = None")
  case True
  then show ?thesis by (cases "ex_read x") (simp_all add: serve_on_read read_failed_line forward_line)
next
  case False
  then show ?thesis by (cases "ex_open x"; cases "clientGone (ex_gone_open x)") (auto simp: faithful_line_def serve_on_def)
qed

lemma ServeHTTP_line:
  assumes "ServeHTTP now x e = Done (sv, e')" "sv_log sv = [l]"
  shows "faithful_line x (sv_response sv) l"
  using ServeHTTP_cases [OF assms(1)]
proof (elim disjE exE conjE)
  fix c assume "sv = serve_on x c"
  then show ?thesis using serve_on_line [of x c] assms(2) by simp
next
  assume "resp_status (sv_response sv) = Some 502" "sv_log sv = [\<lparr>log_level = LevelError, log_msg = ''no connector'',
        log_attrs = base_attrs x @ [(''status'', EInt 502), (''cf_code'', EInt 1033)]\<rparr>]"
  then show ?thesis using assms(2) by (auto simp: faithful_line_def)
qed

lemma extract_status:
  assumes "log_attrs l = conn_attrs x c @ (''status'', EInt code) # rest" "code \<in> {502, 524}"
  shows "extractStatus (slog_line tm l) = code"
  unfolding extractStatus_def
  by (rule extract_present [OF _ _ assms(1)]) (use assms(2) in \<open>auto simp: int64_defs\<close>)

lemma observe_proxied:
  "fl_edgeReq (observeEdgeProxied line f) = fl_edgeReq f + 1" "fl_edge524 (observeEdgeProxied line f) = fl_edge524 f"
  "fl_edge502 (observeEdgeProxied line f) = fl_edge502 f"
  by (simp_all add: observeEdgeProxied_def Let_def)

lemma observe_failure:
  "fl_edgeReq (observeEdgeOriginFailure line f) = fl_edgeReq f + 1"
  "fl_edge524 (observeEdgeOriginFailure line f) = fl_edge524 f + (if extractStatus line = 524 then 1 else 0)"
  "fl_edge502 (observeEdgeOriginFailure line f) = fl_edge502 f + (if extractStatus line = 524 then 0 else 1)"
  by (simp_all add: observeEdgeOriginFailure_def Let_def)

lemma observe_connector_lines:
  assumes "0 \<le> n" "in_int64 n"
  shows "observe ''edge'' (slog_line tm (lost_line i remote n lv cause)) f
      = f\<lparr>fl_connectors := n, fl_tunnelUp := n > 0, fl_tunnelKnown := True\<rparr>"
    "observe ''edge'' (slog_line tm (registered_line i m n)) f
      = f\<lparr>fl_connectors := 0, fl_tunnelUp := False, fl_tunnelKnown := True\<rparr>"
    "observe ''edge'' (slog_line tm (connected_line i remote n)) f = f"
    "observe ''edge'' (slog_line tm (unregistered_line i m n)) f = f"
proof -
  let ?lost = "lost_line i remote n lv cause" and ?reg = "registered_line i m n"
  have lost: "log_attrs ?lost = [(''role'', EStr ''edge''), (''connector_id'', EInt (uint i)), (''remote'', EStr remote)]
      @ (''connectors'', EInt n) # [(''registered'', EInt lv), (''close_kind'', EStr (kind_string (fst (CloseReason cause)))),
         (''close_detail'', EStr (snd (CloseReason cause)))]"
    by (simp add: lost_line_def)
  have "extract_number ''connectors'' (slog_line tm ?lost) = n"
    by (rule extract_present [OF _ _ lost]) (use assms in simp_all)
  moreover have "extract_number ''connectors'' (slog_line tm ?reg) = 0"
    by (rule extract_absent) (simp_all add: registered_line_def)
  moreover have "other_keys ''msg'' (log_attrs ?lost)" "other_keys ''msg'' (log_attrs ?reg)"
    "other_keys ''msg'' (log_attrs (connected_line i remote n))" "other_keys ''msg'' (log_attrs (unregistered_line i m n))"
    by (simp_all add: lost_line_def registered_line_def connected_line_def unregistered_line_def)
  moreover have "log_msg ?lost = ''connector lost''" "log_msg ?reg = ''connector registered''"
    "log_msg (connected_line i remote n) = ''connector connected''"
    "log_msg (unregistered_line i m n) = ''connector unregistered''"
    by (simp_all add: lost_line_def registered_line_def connected_line_def unregistered_line_def)
  ultimately show "observe ''edge'' (slog_line tm (lost_line i remote n lv cause)) f
      = f\<lparr>fl_connectors := n, fl_tunnelUp := n > 0, fl_tunnelKnown := True\<rparr>"
    "observe ''edge'' (slog_line tm (registered_line i m n)) f
      = f\<lparr>fl_connectors := 0, fl_tunnelUp := False, fl_tunnelKnown := True\<rparr>"
    "observe ''edge'' (slog_line tm (connected_line i remote n)) f = f"
    "observe ''edge'' (slog_line tm (unregistered_line i m n)) f = f"
    by (simp_all add: observe_by_message observeEdgeConnectorState_def)
qed

section \<open>Lines of the load harness\<close>

definition event_ascii :: "string \<Rightarrow> event \<Rightarrow> bool" where
  "event_ascii tm e \<longleftrightarrow> ascii tm \<and> ascii (ev_Event e) \<and> ascii (ev_URL e) \<and> ascii (ev_Kind e) \<and> ascii (ev_Detail e)
     \<and> ascii (ev_Local e) \<and> ascii (ev_Remote e) \<and> ascii (ev_Version e)"

lemma event_keys_ascii: "ascii ''time''" "ascii ''event''" "ascii ''conn''" "ascii ''worker''" "ascii ''url''" "ascii ''status''"
  "ascii ''bytes''" "ascii ''latency_ms''" "ascii ''kind''" "ascii ''detail''" "ascii ''local_addr''" "ascii ''remote_addr''"
  "ascii ''quic_version''" "ascii ''used_0rtt''"
  by code_simp+

lemma members_ascii_append [simp]: "members_ascii (ms @ ms') \<longleftrightarrow> members_ascii ms \<and> members_ascii ms'"
  by (simp add: members_ascii_def)

lemma event_members_ascii: "event_ascii tm e \<Longrightarrow> members_ascii (event_members tm e)"
  unfolding event_members_def members_ascii_append
  by (auto simp: members_ascii_def event_ascii_def str_member_def int_member_def event_keys_ascii simp del: ascii_simps)

definition json_members :: "(string \<times> jenc) list \<Rightarrow> (string \<times> json) list" where
  "json_members ms = map (\<lambda>(k, v). (k, enc_json v)) ms"

lemma json_members_append: "json_members (ms @ ms') = json_members ms @ json_members ms'"
  by (simp add: json_members_def)

lemma set_members_other:
  "field_for fs k = None \<Longrightarrow> set_members fs (json_members (str_member k s)) r = Some r"
  "field_for fs k = None \<Longrightarrow> set_members fs (json_members (int_member k i)) r = Some r"
  by (simp_all add: json_members_def str_member_def int_member_def)

lemma event_fields_for:
  "field_for blast_event_fields ''time'' = None" "field_for blast_event_fields ''conn'' = None"
  "field_for blast_event_fields ''worker'' = None" "field_for blast_event_fields ''url'' = None"
  "field_for blast_event_fields ''status'' = None" "field_for blast_event_fields ''bytes'' = None"
  "field_for blast_event_fields ''latency_ms'' = None" "field_for blast_event_fields ''kind'' = None"
  "field_for blast_event_fields ''detail'' = None" "field_for blast_event_fields ''local_addr'' = None"
  "field_for blast_event_fields ''remote_addr'' = None"
  "field_for blast_event_fields ''event'' = Some (string_field be_Event_update)"
  "field_for blast_event_fields ''quic_version'' = Some (string_field be_Version_update)"
  "field_for blast_event_fields ''used_0rtt'' = Some (bool_field be_Used0RTT_update)"
  by (simp_all add: field_for_def blast_event_fields_def) code_simp+

lemma decode_event:
  "set_members blast_event_fields (json_members (event_members tm e)) \<lparr>be_Event = '''', be_Version = '''', be_Used0RTT = False\<rparr>
     = Some \<lparr>be_Event = ev_Event e, be_Version = ev_Version e, be_Used0RTT = ev_Used0RTT e\<rparr>"
proof -
  have head: "set_members blast_event_fields (json_members [(''time'', EStr tm), (''event'', EStr (ev_Event e)), (''conn'', EInt (ev_Conn e))])
      \<lparr>be_Event = '''', be_Version = '''', be_Used0RTT = False\<rparr>
    = Some \<lparr>be_Event = ev_Event e, be_Version = '''', be_Used0RTT = False\<rparr>"
    by (simp add: json_members_def event_fields_for string_field_def)
  have version: "set_members blast_event_fields (json_members (str_member ''quic_version'' (ev_Version e)))
      \<lparr>be_Event = ev_Event e, be_Version = '''', be_Used0RTT = False\<rparr>
    = Some \<lparr>be_Event = ev_Event e, be_Version = ev_Version e, be_Used0RTT = False\<rparr>"
    by (simp add: json_members_def str_member_def event_fields_for string_field_def)
  have used: "set_members blast_event_fields (json_members (if ev_Used0RTT e then [(''used_0rtt'', EBool True)] else []))
      \<lparr>be_Event = ev_Event e, be_Version = ev_Version e, be_Used0RTT = False\<rparr>
    = Some \<lparr>be_Event = ev_Event e, be_Version = ev_Version e, be_Used0RTT = ev_Used0RTT e\<rparr>"
    by (simp add: json_members_def event_fields_for bool_field_def)
  show ?thesis
    unfolding event_members_def json_members_append set_members_append head version used
      set_members_other [OF event_fields_for(3)] set_members_other [OF event_fields_for(4)] set_members_other [OF event_fields_for(5)]
      set_members_other [OF event_fields_for(6)] set_members_other [OF event_fields_for(7)] set_members_other [OF event_fields_for(8)]
      set_members_other [OF event_fields_for(9)] set_members_other [OF event_fields_for(10)] set_members_other [OF event_fields_for(11)]
    by (simp add: version used)
qed

lemma observe_event_line:
  assumes "event_ascii tm e"
  shows "observe ''blast'' (event_line tm e) f = applyBlastEvent (ev_Event e) (ev_Version e) (ev_Used0RTT e) f"
proof -
  have "event_members tm e \<noteq> []" by (simp add: event_members_def)
  then have "unmarshal (event_line tm e) = Some (JObj (json_members (event_members tm e)))"
    using unmarshal_object [of "event_members tm e" "[]"] event_members_ascii [OF assms]
    by (simp add: event_line_def json_members_def skip_ws_def)
  moreover have "\<exists>s. event_line tm e = CHR ''{'' # s" by (simp add: event_line_def marshal_object_def)
  ultimately show ?thesis
    using decode_event by (auto simp: observe_def observeBlast_def observeBlastLine_def observeBlastJSONLine_def decode_struct_def)
qed

lemma blastTotalRE_skip: "\<not> prefix ''total='' (c # s) \<Longrightarrow> blastTotalRE (c # s) = blastTotalRE s"
  by (subst blastTotalRE.simps) (simp only: Let_def if_False simp_thms)

lemma blastTotalRE_no_t: "CHR ''t'' \<notin> set p \<Longrightarrow> blastTotalRE (p @ s) = blastTotalRE s"
proof (induction p)
  case (Cons c p)
  then have "\<not> prefix ''total='' (c # p @ s)" by auto
  then show ?case using Cons by (simp del: blastTotalRE.simps add: blastTotalRE_skip)
qed simp

lemma digits_split:
  assumes "list_all is_digit d" "t = [] \<or> \<not> is_digit (hd t)"
  shows "takeWhile is_digit (d @ t) = d" "dropWhile is_digit (d @ t) = t"
proof -
  have "takeWhile is_digit t = []" "dropWhile is_digit t = t" using assms(2) by (cases t; simp)+
  then show "takeWhile is_digit (d @ t) = d" "dropWhile is_digit (d @ t) = t"
    using assms(1) by (simp_all add: takeWhile_append2 dropWhile_append2 list_all_iff)
qed

lemma blastTotalRE_here:
  assumes "all_digits d1" "all_digits d2" "t = [] \<or> \<not> is_digit (hd t)"
  shows "blastTotalRE (''total='' @ d1 @ '' fail='' @ d2 @ t) = Some (d1, d2)"
proof -
  have d: "list_all is_digit d1" "list_all is_digit d2" "d1 \<noteq> []" "d2 \<noteq> []" using assms by (simp_all add: all_digits_def)
  have sp: "\<not> is_digit (CHR '' '')" by (simp add: is_digit_def byte_of_def)
  have "takeWhile is_digit (d1 @ '' fail='' @ d2 @ t) = d1" "dropWhile is_digit (d1 @ '' fail='' @ d2 @ t) = '' fail='' @ d2 @ t"
    using digits_split [OF d(1), of "'' fail='' @ d2 @ t"] sp by simp_all
  moreover have "takeWhile is_digit (d2 @ t) = d2" using digits_split [OF d(2) assms(3)] by simp
  ultimately show ?thesis using d by (simp add: Let_def)
qed

lemma no_t_digits: "CHR ''t'' \<notin> set (nat_digits n)"
  using nat_digits_digits [of n] by (auto simp: list_all_iff is_digit_def byte_of_def)

lemma no_t_itoa: "CHR ''t'' \<notin> set (itoa i)"
  by (simp add: itoa_def no_t_digits)

lemma observe_progress_line:
  assumes "0 \<le> req" "in_int64 req" "0 \<le> fail" "in_int64 fail" "t = [] \<or> \<not> is_digit (hd t)"
  shows "observe ''blast'' (progress_line dReq dFail req fail omitted @ t) f = f\<lparr>fl_clientReq := req, fl_clientFail := fail\<rparr>"
proof -
  let ?head = "''[blast] +'' @ itoa dReq @ '' req  +'' @ itoa dFail @ '' fail  ''"
  let ?tail = "'' omit='' @ itoa omitted @ t"
  have split: "progress_line dReq dFail req fail omitted @ t
      = ?head @ (''total='' @ itoa req @ '' fail='' @ itoa fail @ ?tail)"
    by (simp add: progress_line_def)
  let ?rest = "'']'' @ '' +'' @ itoa dReq @ '' req  +'' @ itoa dFail @ '' fail  ''"
  have "blastTotalRE (?head @ s) = blastTotalRE s" for s
  proof -
    have "blastTotalRE (?head @ s) = blastTotalRE (''[blas'' @ CHR ''t'' # ?rest @ s)" by simp
    also have "\<dots> = blastTotalRE (CHR ''t'' # ?rest @ s)" by (rule blastTotalRE_no_t) simp
    also have "\<dots> = blastTotalRE (?rest @ s)" by (rule blastTotalRE_skip) simp
    also have "\<dots> = blastTotalRE s" by (rule blastTotalRE_no_t) (simp add: no_t_itoa)
    finally show ?thesis .
  qed
  moreover have "blastTotalRE (''total='' @ itoa req @ '' fail='' @ itoa fail @ ?tail) = Some (itoa req, itoa fail)"
    using assms(1,3) by (intro blastTotalRE_here) (simp_all add: digits_of_itoa is_digit_def byte_of_def)
  ultimately have "blastTotalRE (progress_line dReq dFail req fail omitted @ t) = Some (itoa req, itoa fail)"
    unfolding split by metis
  moreover have "prefix ''[blast]'' (progress_line dReq dFail req fail omitted @ t)" by (simp add: progress_line_def)
  ultimately show ?thesis
    using parse_itoa [OF assms(2)] parse_itoa [OF assms(4)] by (simp add: observe_def observeBlast_def atoi64_def)
qed

end
