(* ===== verification/Path.thy ===== *)
theory Path
  imports Edge_Http Connector Blast_Recorder
begin

text \<open>
  The request path across the processes: the origin's answer or failure as the connector puts it on the
  tunnel stream (\<open>Connector.serveStream\<close>), the edge's verdict on what it reads there
  (\<open>Edge_Http.ServeHTTP\<close>), and what the load harness records of the edge's response
  (\<open>Blast_Recorder.doRequest\<close>). The two transports in between are third-party code: \<open>arrives\<close> is what
  \<open>http.ReadResponse\<close> returns at the edge for the calls made on the connector's side of the stream, and
  the HTTP/3 hop hands a response over unchanged.
\<close>

definition client_view :: "string \<Rightarrow> response \<Rightarrow> http_response" where
  \<comment> \<open>a response as the client of the HTTP/3 hop gets it, whole\<close>
  "client_view proto w = \<lparr>hp_status = status_of w, hp_proto = proto, hp_header = resp_header w,
     hp_body = resp_body w, hp_copied = length (resp_body w), hp_copy_err = None\<rparr>"

definition edge_codes :: "int list" where
  \<comment> \<open>the Cloudflare codes the edge puts into its error bodies\<close>
  "edge_codes = [524, 1014, 1033]"

lemma parseCFCode_body:
  assumes "code \<in> set edge_codes"
  shows "parseCFCode (take 2048 (cf_body code detail)) = code"
proof -
  have len: "length (itoa code) \<le> 4" and dig: "all_digits (itoa code)" and int: "in_int64 code"
    using assms by (auto simp: edge_codes_def itoa_def int64_defs) (code_simp | simp add: all_digits_nat_digits)+
  let ?n = "2048 - length ''error code: '' - length (itoa code)"
  let ?t = "take ?n (CHR 0x0A # detail @ [CHR 0x0A])"
  have "take 2048 (cf_body code detail) = ''error code: '' @ itoa code @ ?t"
    using len by (simp add: cf_body_def take_Cons')
  moreover have "?t = [] \<or> \<not> is_digit (hd ?t)"
    using len by (simp add: take_Cons' is_digit_def byte_of_def)
  ultimately have "find_digits_after ''error code: '' (take 2048 (cf_body code detail)) = Some (itoa code)"
    using find_digits_after_here [OF _ dig, of "''error code: ''" ?t] by (simp only: list.distinct not_False_eq_True)
  then show ?thesis using parse_itoa [OF int] by (simp add: parseCFCode_def)
qed

definition failure_event :: "int \<Rightarrow> int \<Rightarrow> string \<Rightarrow> int \<Rightarrow> int \<Rightarrow> string \<Rightarrow> int \<Rightarrow> duration \<Rightarrow> event" where
  \<comment> \<open>the event the harness emits for an error page of the edge\<close>
  "failure_event connIdx workerIdx target status code ray n elapsed = no_event\<lparr>ev_Event := ''request_5xx'', ev_Conn := connIdx,
     ev_Worker := workerIdx, ev_URL := target, ev_Status := status, ev_Bytes := n, ev_LatencyMs := milliseconds elapsed,
     ev_Kind := ''http_'' @ itoa status, ev_Detail := ''cf_error_code='' @ itoa code @ '' cf_ray='' @ ray\<rparr>"

lemma header_get_cf_ray: "header_get (resp_header (writeCFError status code detail (start_response x))) ''cf-ray'' = ex_ray x"
proof -
  have "canonical_key ''cf-ray'' = ''Cf-Ray''" "canonical_key ''server'' = ''Server''"
    "canonical_key ''cf-error-code'' = ''Cf-Error-Code''" "canonical_key ''content-type'' = ''Content-Type''"
    by code_simp+
  then show ?thesis
    by (simp add: writeCFError_def start_response_def response_defs header_get_def header_set_def)
qed

lemma error_page_recorded:
  assumes "nextURL sp = (target, sp')" "newRequest (re_check env) sp target = Inr req"
    and "re_do env req = Inr (client_view proto (writeCFError status code detail (start_response x)))"
    and "code \<in> set edge_codes" "500 \<le> status"
  shows "fst (doRequest env connIdx workerIdx sp r)
    = rec_failure (failure_event connIdx workerIdx target status code (ex_ray x)
          (int (length (take 2048 (cf_body code detail)))) (re_elapsed env))
        (recordCFCode code (recordProto proto r))"
proof -
  let ?w = "writeCFError status code detail (start_response x)"
  have st: "status_of ?w = status" "resp_body ?w = cf_body code detail"
    using assms(5) by (simp_all add: status_of_def)
  have "code \<noteq> 0" using assms(4) by (auto simp: edge_codes_def)
  then show ?thesis
    using assms(5) unfolding doRequest_def assms(1,2,3) prod.case sum.case
    by (simp add: client_view_def st drainResponse_def drainErrorBody_def Let_def parseCFCode_body [OF assms(4)]
        recordHTTPResult_def header_get_cf_ray failure_event_def no_event_def)
qed

definition own_error :: "exchange \<Rightarrow> int \<Rightarrow> int \<Rightarrow> response \<Rightarrow> bool" where
  \<comment> \<open>an error page the edge wrote itself\<close>
  "own_error x status code w \<longleftrightarrow> (\<exists>detail. w = writeCFError status code detail (start_response x))
     \<and> (status, code) \<in> {(524, 524), (502, 1014), (502, 1033)}"

lemma own_errorI [intro]:
  "own_error x 524 524 (writeCFError 524 524 detail (start_response x))"
  "own_error x 502 1014 (writeCFError 502 1014 detail (start_response x))"
  "own_error x 502 1033 (writeCFError 502 1033 detail (start_response x))"
  by (auto simp: own_error_def)

lemma own_error_recorded:
  assumes "nextURL sp = (target, sp')" "newRequest (re_check env) sp target = Inr req"
    and "re_do env req = Inr (client_view proto w)" "own_error x status code w"
  shows "\<exists>n. fst (doRequest env connIdx workerIdx sp r)
    = rec_failure (failure_event connIdx workerIdx target status code (ex_ray x) n (re_elapsed env))
        (recordCFCode code (recordProto proto r))"
proof -
  obtain detail where w: "w = writeCFError status code detail (start_response x)"
    and "(status, code) \<in> {(524, 524), (502, 1014), (502, 1033)}"
    using assms(4) by (auto simp: own_error_def)
  then have "code \<in> set edge_codes" "500 \<le> status" by (auto simp: edge_codes_def)
  then show ?thesis
    using error_page_recorded [OF assms(1,2), of proto status code detail x] assms(3) w by blast
qed

lemma failed_read_own_error:
  assumes "\<not> clientGone (ex_gone_read x)"
  shows "own_error x (fst (classifyOriginFailure err (ex_ctx x))) (fst (snd (classifyOriginFailure err (ex_ctx x))))
    (sv_response (read_failed x c err))"
  using assms by (auto simp: read_failed_def classifyOriginFailure_def statusOriginTimeout_def StatusBadGateway_def)

lemma edge_own_error:
  assumes "ServeHTTP now x e = Done (sv, e')" "sv_log sv = [l]" "log_level l = LevelError"
  shows "\<exists>status code. own_error x status code (sv_response sv) \<and> (''status'', EInt status) \<in> set (log_attrs l)"
proof (cases "pickConnector now (ex_path x) e")
  case (Done p)
  show ?thesis
  proof (cases "fst p")
    case None
    then have "own_error x 502 1033 (sv_response sv) \<and> (''status'', EInt 502) \<in> set (log_attrs l)" using assms Done
      by (cases p) (auto simp: ServeHTTP_def StatusBadGateway_def)
    then show ?thesis by blast
  next
    case (Some c)
    then have sv: "sv = serve_on x c" using assms Done by (cases p) (auto simp: ServeHTTP_def)
    show ?thesis
    proof (cases "ex_open x = None \<and> ex_write x = None")
      case True
      then obtain err where err: "ex_read x = Inl err" "\<not> clientGone (ex_gone_read x)"
        using assms(2,3) sv
        by (cases "ex_read x") (auto simp: serve_on_read forward_response_def read_failed_def Let_def split: option.splits if_splits)
      then have "sv = read_failed x c err" using sv True by (simp add: serve_on_read)
      then show ?thesis
        using failed_read_own_error [OF err(2)] assms(2) err(2)
        by (fastforce simp: read_failed_def Let_def split: prod.splits)
    next
      case False
      then have "own_error x 502 1033 (sv_response sv) \<and> (''status'', EInt 502) \<in> set (log_attrs l)" using assms(2,3) sv
        by (auto simp: serve_on_def StatusBadGateway_def split: option.splits if_splits)
      then show ?thesis by blast
    qed
  qed
qed (use assms in \<open>simp add: ServeHTTP_def\<close>)

lemma logged_ray:
  assumes "ServeHTTP now x e = Done (sv, e')" "sv_log sv = [l]"
  shows "(''ray'', EStr (ex_ray x)) \<in> set (log_attrs l)"
  using ServeHTTP_cases [OF assms(1)]
proof (elim disjE exE conjE)
  fix c assume "sv = serve_on x c"
  moreover have "(''ray'', EStr (ex_ray x)) \<in> set (conn_attrs x c)"
    by (simp add: conn_attrs_def base_attrs_def)
  then have "(''ray'', EStr (ex_ray x)) \<in> set (log_attrs (hd (sv_log (serve_on x c))))"
    by (simp add: serve_defs split: option.split sum.split prod.split)
  ultimately show ?thesis using assms(2) by simp
qed (use assms(2) in \<open>auto simp: base_attrs_def\<close>)

lemma whole_response_counted:
  assumes "nextURL sp = (target, sp')" "newRequest (re_check env) sp target = Inr req"
    and "re_do env req = Inr (client_view proto w)"
  shows "rec_requests (fst (doRequest env connIdx workerIdx sp r)) = rec_requests r + 1
    \<and> rec_failures (fst (doRequest env connIdx workerIdx sp r)) = rec_failures r + (if status_of w < 500 then 0 else 1)"
  unfolding doRequest_def assms prod.case sum.case
  by (simp add: client_view_def drainResponse_def drainErrorBody_def Let_def recordHTTPResult_def rec_success_def
      rec_failure_def emit_def recordCFCode_def recordProto_def no_event_def split: prod.split)

section \<open>The heartbeat\<close>

text \<open>
  A registered session of a connector as the edge sees it: the register message of its own
  configuration, then its pings, and in between whatever the other connectors, their control streams and
  the requests do to the registry. The last argument but one is the time of its last message.
\<close>

inductive heartbeat :: "u64 \<Rightarrow> nat \<Rightarrow> run_config \<Rightarrow> int \<Rightarrow> Edge \<Rightarrow> bool" for i conn cfg where
  joined: "edge_start e0 \<Longrightarrow> edge_step\<^sup>*\<^sup>* e0 e \<Longrightarrow> lookup_connector e i = Some c \<Longrightarrow> cr_conn c = conn \<Longrightarrow>
    heartbeat i conn cfg t (control_message t i (register_msg cfg) e)"
| beat: "heartbeat i conn cfg t e \<Longrightarrow> heartbeat i conn cfg t' (control_message t' i ping_msg e)"
| other_accept: "heartbeat i conn cfg t e \<Longrightarrow> can_add conn' e \<Longrightarrow> heartbeat i conn cfg t (addConnector conn' e)"
| other_message: "heartbeat i conn cfg t e \<Longrightarrow> j \<noteq> i \<Longrightarrow> heartbeat i conn cfg t (control_message t' j m e)"
| other_failed: "heartbeat i conn cfg t e \<Longrightarrow> j \<noteq> i \<Longrightarrow> heartbeat i conn cfg t (control_failed j e)"
| other_lost: "heartbeat i conn cfg t e \<Longrightarrow> conn' \<noteq> conn \<Longrightarrow> heartbeat i conn cfg t (watchLost conn' e)"
| request: "heartbeat i conn cfg t e \<Longrightarrow> pickConnector now key e = Done (r, e') \<Longrightarrow> heartbeat i conn cfg t e'"

definition beating :: "u64 \<Rightarrow> nat \<Rightarrow> run_config \<Rightarrow> int \<Rightarrow> Edge \<Rightarrow> bool" where
  "beating i conn cfg t e \<longleftrightarrow> edge_inv e \<and> lookup_connector e i = Some \<lparr>cr_id = i, cr_conn = conn, registered = True,
     lastPing = Some t, hostname = msg_Hostname (register_msg cfg), haID = rc_haID cfg\<rparr>"

lemma not_fresh:
  assumes "edge_inv e" "can_add conn e" "lookup_connector e i = Some c"
  shows "i \<noteq> fresh_id e"
proof -
  have "c \<in> set (connectors e)" "cr_id c = i" using assms(3) by (auto simp: lookup_connector_def find_Some_iff)
  then have "i \<le> nextConnectorID e" using assms(1) by (auto simp: edge_inv_def)
  then show ?thesis using word_less_Suc [of "nextConnectorID e" i] assms(2) by (auto simp: can_add_def fresh_id_def)
qed

lemma lookup_id: "lookup_connector e i = Some c \<Longrightarrow> cr_id c = i"
  by (auto simp: lookup_connector_def find_Some_iff)

lemma heartbeat_beating: "heartbeat i conn cfg t e \<Longrightarrow> beating i conn cfg t e"
proof (induction rule: heartbeat.induct)
  case (joined e0 e c t)
  have inv: "edge_inv e" using joined(1,2) by (rule edge_sys.inv_reachable)
  then show ?case
    using reg.lookup_upd [OF inv keeps_identity_control] edge_inv_upd [OF inv keeps_identity_control] joined(3,4) lookup_id [OF joined(3)]
    by (simp add: beating_def control_message_def control_update_def register_msg_def)
next
  case (beat t e t')
  then show ?case
    using reg.lookup_upd [OF _ keeps_identity_control] edge_inv_upd [OF _ keeps_identity_control]
    by (simp add: beating_def control_message_def control_update_def ping_msg_def type_defs)
next
  case (other_accept t e conn')
  then show ?case
    using reg.lookup_add [of e conn' i] not_fresh [of e conn' i] edge_inv_step [OF _ edge_step.accept] by (auto simp: beating_def)
next
  case (other_message t e j t' m)
  then show ?case
    using reg.lookup_upd [OF _ keeps_identity_control, of e j t' m i] edge_inv_step [OF _ edge_step.message]
    by (auto simp: beating_def control_message_def)
next
  case (other_failed t e j)
  then show ?case
    using reg.lookup_upd [OF _ keeps_identity_unregister, of e j i] edge_inv_step [OF _ edge_step.failed]
    by (auto simp: beating_def control_failed_def)
next
  case (other_lost t e conn')
  then show ?case
    using reg.lookup_del [of e conn' i] edge_inv_step [OF _ edge_step.lost] by (auto simp: beating_def)
next
  case (request t e now key r e')
  then show ?case
    using edge_inv_step [OF _ edge_step.request [OF request(2)]] pickConnector_frame [OF request(2)]
    by (auto simp: beating_def lookup_connector_def)
qed

text \<open>
  The whole control stream of a session, byte for byte as the connector writes it and the edge reads it:
  in the end the entry carries the session's host name and HA id, is no longer registered, and no other
  entry has changed.
\<close>

lemma control_messages_entry:
  assumes "edge_inv e" "lookup_connector e i = Some (c\<lparr>registered := b, lastPing := Some t\<rparr>)" "\<forall>(now, m)\<in>set nms. m \<in> {ping_msg, unregister_msg}"
  shows "\<exists>b t. lookup_connector (foldl (\<lambda>e (now, m). control_message now i m e) e nms) i = Some (c\<lparr>registered := b, lastPing := Some t\<rparr>)
    \<and> edge_inv (foldl (\<lambda>e (now, m). control_message now i m e) e nms)
    \<and> (\<forall>j. j \<noteq> i \<longrightarrow> lookup_connector (foldl (\<lambda>e (now, m). control_message now i m e) e nms) j = lookup_connector e j)"
  using assms
proof (induction nms arbitrary: e b t)
  case (Cons nm nms)
  obtain now m where nm: "nm = (now, m)" "m \<in> {ping_msg, unregister_msg}" using Cons.prems(3) by (cases nm) auto
  have upd: "lookup_connector (control_message now i m e) j
      = (if j = i then map_option (control_update now m) (lookup_connector e j) else lookup_connector e j)" for j
    using reg.lookup_upd [OF Cons.prems(1) keeps_identity_control, of i now m j] nm(2)
    by (auto simp: control_message_def ping_msg_def unregister_msg_def type_defs)
  have "\<exists>b t. lookup_connector (control_message now i m e) i = Some (c\<lparr>registered := b, lastPing := Some t\<rparr>)"
    using nm(2) unfolding upd Cons.prems(2) by (cases c) (auto simp: control_update_def ping_msg_def unregister_msg_def type_defs)
  then show ?case
    using Cons.IH [OF edge_inv_step [OF Cons.prems(1) edge_step.message, of now i m]] Cons.prems(3) upd nm(1) by fastforce
qed auto

lemma session_on_edge:
  assumes "edge_inv e" "lookup_connector e i = Some c" "sendable (register_msg cfg)"
  shows "\<exists>t. lookup_connector (serveControl clock 0 i (concat (control_stream cfg ticks stop late)) e) i
      = Some (c\<lparr>registered := False, lastPing := Some t, hostname := msg_Hostname (register_msg cfg), haID := rc_haID cfg\<rparr>)
    \<and> (\<forall>j. j \<noteq> i \<longrightarrow> lookup_connector (serveControl clock 0 i (concat (control_stream cfg ticks stop late)) e) j = lookup_connector e j)"
proof -
  obtain ms where ms: "control_stream cfg ticks stop late = map Write_line (register_msg cfg # ms)" "set ms \<subseteq> {ping_msg, unregister_msg}"
    using control_stream_messages by blast
  have "sendable ping_msg" "sendable unregister_msg"
    by (simp_all add: sendable_def msg_ascii_def byte_of_def int64_defs ping_msg_def unregister_msg_def empty_msg_def type_defs)
  then have "list_all sendable (register_msg cfg # ms)" using assms(3) ms(2) by (auto simp: list_all_iff)
  then have run: "serveControl clock 0 i (concat (control_stream cfg ticks stop late)) e =
      control_failed i (foldl (\<lambda>e (now, m). control_message now i m e) (control_message (clock 0) i (register_msg cfg) e)
        (zip (map clock [Suc 0..<Suc (length ms)]) ms))"
    unfolding ms(1) using serve_control_lines [of "register_msg cfg # ms" clock 0 i e] by (simp del: map_Suc_upt upt_Suc add: upt_conv_Cons)
  let ?e = "control_message (clock 0) i (register_msg cfg) e"
  let ?c = "c\<lparr>hostname := msg_Hostname (register_msg cfg), haID := rc_haID cfg\<rparr>"
  have reg: "lookup_connector ?e j = (if j = i then Some (?c\<lparr>registered := True, lastPing := Some (clock 0)\<rparr>) else lookup_connector e j)" for j
    using reg.lookup_upd [OF assms(1) keeps_identity_control, of i "clock 0" "register_msg cfg" j] assms(2)
    by (simp add: control_message_def control_update_def register_msg_def)
  have inv: "edge_inv ?e" using edge_inv_step [OF assms(1) edge_step.message] .
  have own: "lookup_connector ?e i = Some (?c\<lparr>registered := True, lastPing := Some (clock 0)\<rparr>)" using reg by simp
  have only: "\<forall>(now, m)\<in>set (zip (map clock [Suc 0..<Suc (length ms)]) ms). m \<in> {ping_msg, unregister_msg}"
    using ms(2) by (auto dest!: set_zip_rightD)
  obtain b t where "lookup_connector (foldl (\<lambda>e (now, m). control_message now i m e) ?e (zip (map clock [Suc 0..<Suc (length ms)]) ms)) i
        = Some (?c\<lparr>registered := b, lastPing := Some t\<rparr>)"
    and "edge_inv (foldl (\<lambda>e (now, m). control_message now i m e) ?e (zip (map clock [Suc 0..<Suc (length ms)]) ms))"
    and "\<forall>j. j \<noteq> i \<longrightarrow> lookup_connector (foldl (\<lambda>e (now, m). control_message now i m e) ?e (zip (map clock [Suc 0..<Suc (length ms)]) ms)) j = lookup_connector ?e j"
    using control_messages_entry [OF inv own only] by blast
  then show ?thesis
    unfolding run using reg.lookup_upd [OF _ keeps_identity_unregister] reg by (cases c) (simp add: control_failed_def)
qed

section \<open>A concrete path\<close>

definition demo_arrives :: "stream_op list \<Rightarrow> goerr + response" where
  "demo_arrives ops = (if StreamCancelWrite \<in> set ops then Inl (new_error ''stream 4 canceled by remote'')
     else case ops of WriteResponse w # _ \<Rightarrow> Inr w | _ \<Rightarrow> Inl (new_error ''unexpected EOF''))"

definition demo_stream :: "goerr + response \<Rightarrow> stream_env" where
  "demo_stream answer = \<lparr>st_id = 4, st_read = Inr \<lparr>tr_method = ''GET'', tr_uri = ''/fast'', tr_header = (\<lambda>_. []), tr_body = ''''\<rparr>,
     st_new = (\<lambda>_ _. None), st_do = (\<lambda>_. answer), st_req_ctx = None, st_write = None, st_elapsed = 3\<rparr>"

definition demo_hop :: "goerr + response \<Rightarrow> exchange" where
  "demo_hop answer = demo_exchange\<lparr>ex_read := demo_arrives (sr_ops (serveStream (demo_stream answer) ''http://origin:8080''))\<rparr>"

definition demo_client :: "exchange \<Rightarrow> Edge \<Rightarrow> request_env" where
  "demo_client x e = demo_env\<lparr>re_do := (\<lambda>_. case ServeHTTP 5 x e of
     Done (sv, _) \<Rightarrow> Inr (client_view ''HTTP/3.0'' (sv_response sv)) | Panic _ \<Rightarrow> Inl (new_error ''EOF''))\<rparr>"

lemma demo_arrives_reset:
  "StreamCancelWrite \<in> set ops \<Longrightarrow> \<exists>e. demo_arrives ops = Inl e \<and> \<not> isTimeout e \<and> \<not> errors_is e DeadlineExceeded"
proof -
  have "\<not> isTimeout (new_error ''stream 4 canceled by remote'')" "\<not> errors_is (new_error ''stream 4 canceled by remote'') DeadlineExceeded"
    by code_simp+
  then show "StreamCancelWrite \<in> set ops \<Longrightarrow> ?thesis" by (simp add: demo_arrives_def)
qed

lemma demo_client_sends:
  "ServeHTTP 5 x e = Done (sv, e') \<Longrightarrow> re_do (demo_client x e) req = Inr (client_view ''HTTP/3.0'' (sv_response sv))"
  by (simp add: demo_client_def)

lemma demo_client_request:
  "nextURL demo_spec = (''https://edge:8443/fast'', demo_spec)"
  "\<exists>req. newRequest (re_check (demo_client x e)) demo_spec ''https://edge:8443/fast'' = Inr req"
  by (simp_all add: demo_client_def demo_env_def demo_spec_def newRequest_def spec_def nextURL_def parseConfig_defaults_def)

end
