(* ===== verification/Spec2Isabelle.thy ===== *)
theory Spec2Isabelle
  imports Cli Panel_Runs Panel_View Path
begin

text \<open>
  \<^bold>\<open>QUICshot\<close> reproduces an HTTP/3 path through a tunnel on one machine. A client sends requests to the
  edge; the edge forwards each one on a QUIC stream to a connector that had dialled in and registered;
  the connector asks the origin over HTTP/1.1. A load harness and a probe play the client, a control
  panel starts the processes and draws what their log lines say. This development models the program's own
  Go code under \<^verbatim>\<open>src/\<close>, component by component, and proves what the components promise, alone and
  together.

  \<^bold>\<open>Conventions.\<close> Structs are records with the fields of the source, enumerations are datatypes, \<open>int\<close> and
  \<open>time.Duration\<close> are \<open>int\<close> with the 64-bit wrap-around written out (\<open>wrap64\<close>, \<open>saturate64\<close>) where a value can
  leave the range, \<open>uint64\<close> and \<open>uint32\<close> are words, strings are lists of bytes, maps are partial functions
  (multisets where a map only counts). A function that can fail returns a sum, one that can panic a
  \<open>panicking\<close> value. What the code gets from outside (a library call's result, the clock, the order in
  which a map is walked, the output of a command) is an argument, collected in records named
  \<open>..._env\<close>; the statements hold for all of them. Goroutines that share state are step relations, so that
  a statement about reachable states is one about every interleaving of the steps under their locks.

  \<^bold>\<open>Theories.\<close>
  \<^item> \<open>Go_Prelude\<close>, \<open>Go_Strings\<close>, \<open>Go_Errors\<close>, \<open>Go_Http\<close>, \<open>Go_Json\<close>, \<open>Go_Slog\<close>, \<open>Go_Regex\<close>, \<open>Go_Flags\<close>: what the
    program uses of the language and its library, with the laws the components rely on (integer texts
    read back, JSON objects decoded again, one log line never mistaken for another, flags parsed from
    the arguments they were printed to). The prelude has the contracts of a transition system with an
    invariant, of one with a rank that every step lowers, and of a round-robin counter.
  \<^item> \<open>Tunnelproto\<close> (\<^verbatim>\<open>internal/tunnelproto\<close>), \<open>Quicerr\<close> (\<^verbatim>\<open>internal/quicerr\<close>), \<open>Quiccfg\<close> (\<^verbatim>\<open>internal/quiccfg\<close> and
    \<^verbatim>\<open>qlogtrace\<close>), \<open>Udpsock\<close> (\<^verbatim>\<open>internal/udpsock\<close>): the shared packages.
  \<^item> \<open>Edge_Registry\<close> and \<open>Edge_Http\<close> (\<^verbatim>\<open>internal/edge\<close>): \<open>Edge\<close> is the table of connectors with its id and
    round-robin counters, \<open>edge_step\<close> what accepts, control messages, losses and requests do to it;
    \<open>ServeHTTP\<close> is one request, with the response, the calls on the stream and the log line.
  \<^item> \<open>Connector\<close> (\<^verbatim>\<open>internal/connector\<close>): the reconnect loop, \<open>runOnce\<close> with the control stream, \<open>serveStream\<close>.
  \<^item> \<open>Origin\<close> (\<^verbatim>\<open>internal/origin\<close>): the handlers with their outcomes.
  \<^item> \<open>Samples\<close>, \<open>Blast_Hist\<close>, \<open>Blast_Config\<close>, \<open>Blast_Recorder\<close>, \<open>Blast_Load\<close>, \<open>Blast_Report\<close> (\<^verbatim>\<open>internal/blast\<close>): the
    latency ring, flags and request specification, the recorder, the two load loops, summary, 0-RTT
    probe and \<open>Main\<close>. \<open>Samples\<close> has the contracts of a bounded sample buffer and of a percentile rule, which
    the panel implements too.
  \<^item> \<open>Ui_Flow\<close>, \<open>Ui_Control\<close>, \<open>Ui_Commands\<close> (\<^verbatim>\<open>internal/ui\<close>): the counters behind the diagram, the hub with
    rate limit, run slot, log followers and pollers, and the handlers with the commands they start.
  \<^item> \<open>Probe\<close> (\<^verbatim>\<open>internal/probe\<close>), \<open>Certs\<close> (\<^verbatim>\<open>internal/certs\<close>), \<open>Cli\<close> (the \<open>Main\<close> functions and \<^verbatim>\<open>cmd/quicshot\<close>).
  \<^item> \<open>Path\<close>, \<open>Panel_View\<close>, \<open>Panel_Runs\<close> and this theory: the components together.

  \<^bold>\<open>What is shown.\<close>
  \<^item> Edge: in every reachable state a request only goes to a connector that is in the table, registered
    and not stale, and never to one that was lost; round robin is fair and the hash is sticky; the bytes
    of a control stream do what its messages say; a timeout is a 524 and any other origin failure a 502
    with 1014; responses pass through unchanged; every stream is released.
  \<^item> Connector: registration precedes everything else on a session, origin errors reset the stream, the
    back-off follows a fixed schedule.
  \<^item> Load harness: every request is accounted for exactly once, the counters stay balanced in every
    interleaving, the request limit is overshot by less than the number of workers, the closed loop
    ends, the open loop accounts for every tick, the ring holds the samples stated, percentiles are
    order statistics.
  \<^item> Panel: one action at a time, no request can inject an argument, log lines are rationed, a browser
    gets the messages in order, published numbers are consistent and intervals add up to the totals.
  \<^item> Across components: a dead origin shows up in the harness as a 502 with 1014, every error page is
    recorded under the edge's own code and ray id, an answer arrives as the origin gave it; a session
    that keeps its ping rhythm is never taken for dead, and the whole control stream of a session leaves
    the edge with an unregistered entry that carries its host name and id; the panel counts what the edge
    logged and reads back what the harness printed; a run asked for in the browser is the run the tool
    executes; the exit status of \<^verbatim>\<open>quicshot blast\<close> is decided by the measured run alone.

  \<^bold>\<open>Bounds.\<close> Only the JSON reader has fuel, one more than twice the bytes of its input; \<open>unmarshal_fuel\<close>
  shows that more changes nothing. \<open>serveControl\<close>, the string and the byte loops terminate by measures on
  what is left to read or write. The closed loop terminates under a request limit: \<open>closed_rank\<close> is the
  rank, and a round that records nothing is the case it excludes.

  \<^bold>\<open>Not modelled.\<close> QUIC, TLS, HTTP/3 and the HTTP/1.1 client (third-party or standard library code with
  network effects): what a call on them returns is an argument, and where a statement needs a property of
  a transport (a reset stream makes the reader fail, a written response arrives) it is a named
  hypothesis. Cryptography likewise. \<open>float64\<close> is replaced by rationals, so rounding of percentages is not
  covered, and texts printed with \<^verbatim>\<open>%.1f\<close> or \<open>Duration.String\<close> are arguments. JSON texts outside ASCII are
  covered by the byte-level escaping of the log handler, but the round trips of decoded structs assume
  ASCII. The pacer is modelled on its own; the loops allow every timing, the paced ones among them. The
  static page of the panel, the integration tests' helpers, the usage text and the deployment files
  have no model.
\<close>

section \<open>The request path\<close>

text \<open>C2: an origin that fails is reported as such to whoever sent the request. If the connector's request
  to the origin fails while the edge still waits, the connector resets the stream; given that a reset
  stream makes the edge's read fail with an error that is no timeout, the edge answers 502 with code
  1014, and the load harness counts one failed request of kind \<open>http_502\<close> under code 1014 with the ray
  id of the edge. The connector never turns the failure into a response of the origin.\<close>

theorem dead_origin_reported:
  assumes "st_read env = Inr req" "st_new env (tr_method req) (url @ tr_uri req) = None"
    and "st_do env (origin_request_for url req) = Inl err" "st_req_ctx env = None"
    and reset: "\<And>ops. StreamCancelWrite \<in> set ops \<Longrightarrow> \<exists>e. arrives ops = Inl e \<and> \<not> isTimeout e \<and> \<not> errors_is e DeadlineExceeded"
    and "pickConnector now (ex_path x) e = Done (Some c, e')" "ex_open x = None" "ex_write x = None"
    and "ex_read x = arrives (sr_ops (serveStream env url))" "\<not> clientGone (ex_gone_read x)" "ex_ctx x = None"
    and "nextURL sp = (target, sp')" "newRequest (re_check renv) sp target = Inr hreq"
    and "\<And>sv e'. ServeHTTP now x e = Done (sv, e') \<Longrightarrow> re_do renv hreq = Inr (client_view proto (sv_response sv))"
  shows "(\<forall>w. WriteResponse w \<notin> set (sr_ops (serveStream env url))) \<and>
    (\<exists>n. fst (doRequest renv connIdx workerIdx sp r)
      = rec_failure (failure_event connIdx workerIdx target 502 1014 (ex_ray x) n (re_elapsed renv))
          (recordCFCode 1014 (recordProto proto r)))"
proof -
  have ops: "sr_ops (serveStream env url) = [StreamCancelWrite, StreamClose]"
    using assms(1-4) by (simp add: serveStream_def origin_failed_def resetTunnelOnOriginError_def origin_request_for_def Let_def)
  obtain e1 where e1: "ex_read x = Inl e1" "\<not> isTimeout e1" "\<not> errors_is e1 DeadlineExceeded"
    using reset [of "sr_ops (serveStream env url)"] assms(9) ops by auto
  have "ServeHTTP now x e = Done (read_failed x c e1, e')"
    using assms(6-8) e1(1) by (simp add: ServeHTTP_def serve_on_read)
  moreover have "own_error x 502 1014 (sv_response (read_failed x c e1))"
    using failed_read_own_error [OF assms(10), of e1 c] e1 assms(11)
    by (simp add: classifyOriginFailure_def StatusBadGateway_def)
  ultimately show ?thesis
    using own_error_recorded [OF assms(12,13) assms(14)] ops by simp
qed


text \<open>C6: an answer of the origin reaches the client as the origin gave it. If the connector got a response
  with a final status and wrote it to the stream, and the stream delivers what was written, then the
  edge answers with the status, the body as far as it was copied, and every header value of the origin;
  the harness counts a success exactly when the status is below 500.\<close>

theorem answer_reaches_client:
  assumes "st_read env = Inr req" "st_new env (tr_method req) (url @ tr_uri req) = None"
    and "st_do env (origin_request_for url req) = Inr resp" "st_write env = None" "200 \<le> status_of resp"
    and delivered: "\<And>w. arrives [WriteResponse w, StreamClose] = Inr w"
    and "pickConnector now (ex_path x) e = Done (Some c, e')" "ex_open x = None" "ex_write x = None"
    and "ex_read x = arrives (sr_ops (serveStream env url))" "ex_copied x = length (resp_body resp)" "ex_copy x = None"
    and "nextURL sp = (target, sp')" "newRequest (re_check renv) sp target = Inr hreq"
    and "\<And>sv e'. ServeHTTP now x e = Done (sv, e') \<Longrightarrow> re_do renv hreq = Inr (client_view proto (sv_response sv))"
  shows "\<exists>sv. ServeHTTP now x e = Done (sv, e') \<and> resp_status (sv_response sv) = Some (status_of resp) \<and>
    resp_body (sv_response sv) = resp_body resp \<and>
    (\<forall>k. set (resp_header resp k) \<subseteq> set (resp_header (sv_response sv) k)) \<and>
    rec_requests (fst (doRequest renv connIdx workerIdx sp r)) = rec_requests r + 1 \<and>
    rec_failures (fst (doRequest renv connIdx workerIdx sp r)) = rec_failures r + (if status_of resp < 500 then 0 else 1)"
proof -
  have "sr_ops (serveStream env url) = [WriteResponse resp, StreamClose]"
    using assms(1-4) by (simp add: serveStream_def origin_answered_def origin_request_for_def Let_def)
  then have read: "ex_read x = Inr resp" using assms(10) delivered by simp
  let ?sv = "forward_response x c resp"
  have served: "ServeHTTP now x e = Done (?sv, e')"
    using assms(7-9) read by (simp add: ServeHTTP_def serve_on_read)
  have st: "resp_status (sv_response ?sv) = Some (status_of resp)" "resp_body (sv_response ?sv) = resp_body resp"
    "\<forall>k. set (resp_header resp k) \<subseteq> set (resp_header (sv_response ?sv) k)"
    using forward_status [OF assms(5)] forward_body [OF assms(5)] assms(11) by (simp_all add: forward_header)
  have "status_of (sv_response ?sv) = status_of resp" using st(1) by (simp add: status_of_def)
  then have "rec_requests (fst (doRequest renv connIdx workerIdx sp r)) = rec_requests r + 1 \<and>
    rec_failures (fst (doRequest renv connIdx workerIdx sp r)) = rec_failures r + (if status_of resp < 500 then 0 else 1)"
    using whole_response_counted [OF assms(13,14) assms(15) [OF served]] by simp
  then show ?thesis using served st by blast
qed

section \<open>The panel's view\<close>


text \<open>C21: what the panel says about the tunnel. On the edge's line about a lost connector it shows the
  number of connectors the edge still has, and the tunnel up exactly if there are any left; lines about
  a new connection and an orderly unregistration change nothing. The line about a registration however
  has no \<open>connectors\<close> member, so the panel shows no connector and a tunnel that is down, whatever the
  number of connectors the edge has just counted.\<close>

theorem panel_connector_state:
  assumes "0 \<le> n" "in_int64 n"
  shows "observe ''edge'' (slog_line tm (lost_line i remote n lv cause)) f
      = f\<lparr>fl_connectors := n, fl_tunnelUp := n > 0, fl_tunnelKnown := True\<rparr>
    \<and> observe ''edge'' (slog_line tm (connected_line i remote n)) f = f
    \<and> observe ''edge'' (slog_line tm (unregistered_line i m n)) f = f
    \<and> observe ''edge'' (slog_line tm (registered_line i m n)) f
      = f\<lparr>fl_connectors := 0, fl_tunnelUp := False, fl_tunnelKnown := True\<rparr>"
  using observe_connector_lines [OF assms] by simp


section \<open>The gate\<close>


section \<open>The tunnel stays up\<close>

text \<open>C5: a connector that keeps its ping rhythm is never taken for dead. Whatever the other connectors and
  the requests do to the registry, as long as the pings of a registered session reach the edge no later
  than its ping interval plus a delay, and both together stay below three of the edge's keep-alive
  periods, the session's entry is live and carries its HA id, and a request that comes in finds a
  connector.\<close>

theorem heartbeat_keeps_live:
  assumes "heartbeat i conn cfg t e" "t \<le> now" "now - t \<le> ping_interval (rc_keepAlive cfg) + delay"
    and "0 < tunnelKeepAlive (edge_cfg e)" "in_int64 (3 * tunnelKeepAlive (edge_cfg e))"
    and "ping_interval (rc_keepAlive cfg) + delay < 3 * tunnelKeepAlive (edge_cfg e)" "length (connectors e) < 2 ^ 32"
  shows "(\<exists>c. lookup_connector e i = Some c \<and> live c now (staleAfter (edge_cfg e)) \<and> haID c = rc_haID cfg) \<and>
    0 < Registered now e \<and> (\<exists>x k. pickConnector now key e = Done (Some x, e\<lparr>rr := k\<rparr>))"
proof -
  obtain c where c: "lookup_connector e i = Some c" "registered c" "lastPing c = Some t" "haID c = rc_haID cfg"
    using heartbeat_beating [OF assms(1)] by (auto simp: beating_def)
  have stale: "staleAfter (edge_cfg e) = 3 * tunnelKeepAlive (edge_cfg e)"
    using assms(4,5) by (simp add: staleAfter_def wrap64_id)
  have "time_sub now t < staleAfter (edge_cfg e)"
    using assms(2,3,5,6) unfolding stale by (auto simp: time_sub_def saturate64_def int64_defs)
  then have alive: "live c now (staleAfter (edge_cfg e))" using c(2,3) by (simp add: live_def)
  moreover have "c \<in> set (connectors e)" using c(1) by (auto simp: lookup_connector_def find_Some_iff)
  ultimately have some: "live_connectors now e \<noteq> []" by (auto simp: live_connectors_def filter_empty_conv)
  have "length (live_connectors now e) < 2 ^ 32"
    using assms(7) le_less_trans [OF length_filter_le] by (simp add: live_connectors_def)
  then show ?thesis
    using pickConnector_cases [of now e key] some c alive by (auto simp: Registered_def)
qed

section \<open>Runs from the panel\<close>


section \<open>Witnesses\<close>

theorem dead_origin_reported_witness:
  "let x = demo_hop (Inl (new_error ''connection refused'')); renv = demo_client x demo_live in
   \<exists>n. fst (doRequest renv 0 0 demo_spec newRecorder)
      = rec_failure (failure_event 0 0 ''https://edge:8443/fast'' 502 1014 (ex_ray x) n (re_elapsed renv))
          (recordCFCode 1014 (recordProto ''HTTP/3.0'' newRecorder))"
proof -
  let ?answer = "Inl (new_error ''connection refused'')"
  let ?x = "demo_hop ?answer"
  obtain hreq where hreq: "newRequest (re_check (demo_client ?x demo_live)) demo_spec ''https://edge:8443/fast'' = Inr hreq"
    using demo_client_request(2) by blast
  have x: "ex_open ?x = None" "ex_write ?x = None" "\<not> clientGone (ex_gone_read ?x)" "ex_ctx ?x = None"
    "ex_read ?x = demo_arrives (sr_ops (serveStream (demo_stream ?answer) ''http://origin:8080''))"
    by (simp_all add: demo_hop_def demo_exchange_def clientGone_def)
  show ?thesis unfolding Let_def
    by (rule dead_origin_reported [where arrives = demo_arrives and env = "demo_stream ?answer" and url = "''http://origin:8080''",
          OF _ _ _ _ demo_arrives_reset demo_pick x(1,2,5,3,4) demo_client_request(1) hreq, THEN conjunct2])
      (simp_all add: demo_stream_def demo_client_sends)
qed


theorem answer_reaches_client_witness:
  "let resp = \<lparr>resp_header = (\<lambda>_. []), resp_status = Some 200, resp_body = ''ok''\<rparr>; x = demo_hop (Inr resp) in
   rec_requests (fst (doRequest (demo_client x demo_live) 0 0 demo_spec newRecorder)) = 1 \<and>
   rec_failures (fst (doRequest (demo_client x demo_live) 0 0 demo_spec newRecorder)) = 0"
proof -
  let ?resp = "\<lparr>resp_header = (\<lambda>_. []), resp_status = Some 200, resp_body = ''ok''\<rparr>"
  let ?x = "demo_hop (Inr ?resp)"
  obtain hreq where hreq: "newRequest (re_check (demo_client ?x demo_live)) demo_spec ''https://edge:8443/fast'' = Inr hreq"
    using demo_client_request(2) by blast
  have st: "st_read (demo_stream (Inr ?resp)) = Inr \<lparr>tr_method = ''GET'', tr_uri = ''/fast'', tr_header = (\<lambda>_. []), tr_body = ''''\<rparr>"
    "st_new (demo_stream (Inr ?resp)) m t = None" "st_do (demo_stream (Inr ?resp)) q = Inr ?resp" "st_write (demo_stream (Inr ?resp)) = None" for m t q
    by (simp_all add: demo_stream_def)
  have x: "ex_open ?x = None" "ex_write ?x = None" "ex_copied ?x = length (resp_body ?resp)" "ex_copy ?x = None"
    "ex_read ?x = demo_arrives (sr_ops (serveStream (demo_stream (Inr ?resp)) ''http://origin:8080''))"
    by (simp_all add: demo_hop_def demo_exchange_def)
  have s: "status_of ?resp = 200" "200 \<le> status_of ?resp" by (simp_all add: status_of_def)
  have d: "demo_arrives [WriteResponse w, StreamClose] = Inr w" for w by (simp add: demo_arrives_def)
  let ?rec = "fst (doRequest (demo_client ?x demo_live) 0 0 demo_spec newRecorder)"
  have "\<exists>sv. ServeHTTP 5 ?x demo_live = Done (sv, demo_live\<lparr>rr := 1\<rparr>) \<and> resp_status (sv_response sv) = Some (status_of ?resp) \<and>
    resp_body (sv_response sv) = resp_body ?resp \<and> (\<forall>k. set (resp_header ?resp k) \<subseteq> set (resp_header (sv_response sv) k)) \<and>
    rec_requests ?rec = rec_requests newRecorder + 1 \<and> rec_failures ?rec = rec_failures newRecorder + (if status_of ?resp < 500 then 0 else 1)"
    by (rule answer_reaches_client [where arrives = demo_arrives, OF st s(2) d demo_pick x(1,2,5,3,4) demo_client_request(1) hreq])
      (rule demo_client_sends)
  then show ?thesis unfolding Let_def by (auto simp: s(1) newRecorder_def)
qed


theorem panel_connector_state_witness:
  "observe ''edge'' (slog_line ''t'' (lost_line 7 ''10.0.0.2:4433'' 2 2 None)) no_flow
     = no_flow\<lparr>fl_connectors := 2, fl_tunnelUp := True, fl_tunnelKnown := True\<rparr> \<and>
   observe ''edge'' (slog_line ''t'' (registered_line 7 demo_register 3)) no_flow
     = no_flow\<lparr>fl_connectors := 0, fl_tunnelUp := False, fl_tunnelKnown := True\<rparr>"
  using panel_connector_state [of 2 "''t''" 7 "''10.0.0.2:4433''" 2 None no_flow demo_register]
    panel_connector_state [of 3 "''t''" 7 "''''" 3 None no_flow demo_register]
  by (simp add: int64_defs)


definition demo_early :: early_env where
  "demo_early = \<lparr>ee_sock = \<lparr>env_resolve = (\<lambda>_. None), env_listen = (\<lambda>_. None), env_set_read = (\<lambda>_. None), env_set_write = (\<lambda>_. None)\<rparr>,
     ee_dial = None, ee_handshake = HandshakeComplete, ee_used0RTT = False, ee_version = 1, ee_local = ''127.0.0.1:5000'', ee_remote = ''127.0.0.1:8443''\<rparr>"

definition demo_main :: main_env where
  "demo_main = \<lparr>me_parseURL = (\<lambda>_. None), me_readFile = (\<lambda>_. Inr ''''), me_output = (\<lambda>_. None), me_pool = Inr,
     me_mkdir = (\<lambda>_. None), me_setenv = (\<lambda>_. None),
     me_dials = (None, demo_early, None, demo_early\<lparr>ee_used0RTT := True\<rparr>), me_load = (\<lambda>_ p. p)\<rparr>"

definition demo_flag_env :: flag_env where
  "demo_flag_env = \<lparr>fe_float = (\<lambda>_. None), fe_fraction = (\<lambda>_ _ _. 0)\<rparr>"

definition demo_program :: program where
  "demo_program = \<lparr>pg_gencerts = (\<lambda>_. Returns None), pg_origin = (\<lambda>_. Returns None), pg_connector = (\<lambda>_. Returns None),
     pg_edge = (\<lambda>_. Returns None), pg_blast = blast_command demo_flag_env demo_main (\<lambda>_. new_error ''gate''),
     pg_probe = (\<lambda>_. Returns None), pg_ui = (\<lambda>_. Returns None)\<rparr>"


theorem heartbeat_keeps_live_witness:
  "\<exists>x k. pickConnector (14 * Go_Prelude.second) ''/'' (control_message 0 1 (register_msg (config_for (cf_opts default_connector) 2)) demo_edge)
     = Done (Some x, (control_message 0 1 (register_msg (config_for (cf_opts default_connector) 2)) demo_edge)\<lparr>rr := k\<rparr>)"
proof -
  let ?cfg = "config_for (cf_opts default_connector) 2"
  let ?e = "control_message 0 1 (register_msg ?cfg) demo_edge"
  have "lookup_connector demo_edge 1 = Some \<lparr>cr_id = 1, cr_conn = 7, registered = False, lastPing = None, hostname = '''', haID = 0\<rparr>"
    by (simp add: demo_defs)
  then have hb: "heartbeat 1 7 ?cfg 0 ?e" by (rule heartbeat.joined [OF demo_start demo_run]) (rule connectorRef.select_convs)
  have cfg: "edge_cfg ?e = default_edge_config" "length (connectors ?e) = 1" "ping_interval (rc_keepAlive ?cfg) = 5 * Go_Prelude.second"
    by (simp_all add: demo_defs control_message_def updateConnector_def config_for_def default_connector_def ping_interval_def)
  show ?thesis
    using heartbeat_keeps_live [OF hb, of "14 * Go_Prelude.second" "9 * Go_Prelude.second" "''/''"]
    unfolding cfg by (simp add: default_edge_config_def int64_defs)
qed


end
